(* ===== verification/Prelude.thy ===== *)
theory Prelude
  imports Main "HOL-Library.Word" "HOL-Library.Char_ord" "HOL-Library.List_Lexorder"
begin

text \<open>
  Shared material of the development: the names of the model's basic types, the collections
  of rewrite rules the component theories add to, and generic lemmas on lists, options and
  association lists.

  A Go \<open>string\<close> and a Go \<open>[]byte\<close> are both sequences of bytes. An Isabelle \<^typ>\<open>char\<close> is
  exactly one byte (eight bits), so both are \<^typ>\<open>string\<close> here, and the conversions
  \<open>[]byte(s)\<close> and \<open>string(b)\<close> of the source are the identity. A slice that may be \<open>nil\<close> and
  whose \<open>nil\<close>-ness is observable (it is marshalled as \<open>null\<close>) is an optional list.
\<close>

type_synonym bytes = "char list"
type_synonym 'a slice = "'a list option"

named_theorems go_defs \<open>definitions of the Go library functions the model uses\<close>
named_theorems wire_simps \<open>rewrite rules of the wire encodings\<close>
named_theorems frame_simps \<open>state components an operation leaves alone\<close>

definition elems :: "'a slice \<Rightarrow> 'a list" where
  "elems xs = (case xs of None \<Rightarrow> [] | Some ys \<Rightarrow> ys)"

lemma elems_simps [simp]: "elems None = []" "elems (Some ys) = ys"
  by (simp_all add: elems_def)

subsection \<open>Bytes as numbers\<close>

abbreviation byte :: "char \<Rightarrow> nat" where
  "byte \<equiv> of_char"

lemma byte_less_256 [simp]: "byte c < 256"
  using of_char_mod_256 [of c, where 'a = nat] by (metis mod_less_divisor zero_less_numeral)

lemma byte_eq_iff [simp]: "byte c = byte d \<longleftrightarrow> c = d"
  by (rule of_char_eq_iff)

lemma byte_char_of: "n < 256 \<Longrightarrow> byte (char_of n) = n"
  by (simp add: of_char_of)

subsection \<open>Association lists as Go maps\<close>

text \<open>
  A Go map is an association list with distinct keys where its iteration or its size is
  observed. \<open>map_put\<close> is the assignment \<open>m[k] = v\<close>.
\<close>

fun map_put :: "'k \<Rightarrow> 'v \<Rightarrow> ('k \<times> 'v) list \<Rightarrow> ('k \<times> 'v) list" where
  "map_put k v [] = [(k, v)]"
| "map_put k v ((k', v') # m) = (if k = k' then (k, v) # m else (k', v') # map_put k v m)"

lemma map_of_map_put [simp]: "map_of (map_put k v m) = (map_of m)(k \<mapsto> v)"
  by (induction m) (auto simp: fun_eq_iff)

lemma keys_map_put: "fst ` set (map_put k v m) = insert k (fst ` set m)"
  by (simp flip: dom_map_of_conv_image_fst)

lemma distinct_map_put [intro]: "distinct (map fst m) \<Longrightarrow> distinct (map fst (map_put k v m))"
proof (induction m)
  case (Cons kv m)
  then show ?case by (cases kv) (simp add: keys_map_put)
qed simp

lemma map_put_fresh: "k \<notin> fst ` set m \<Longrightarrow> map_put k v m = m @ [(k, v)]"
  by (induction m) auto

lemma fold_map_put_distinct:
  "distinct (map fst (m @ kvs)) \<Longrightarrow> fold (\<lambda>(k, v). map_put k v) kvs m = m @ kvs"
proof (induction kvs arbitrary: m)
  case (Cons kv kvs)
  obtain k v where kv: "kv = (k, v)" by (cases kv)
  from Cons.prems kv have "k \<notin> fst ` set m" by auto
  then have put: "map_put k v m = m @ [(k, v)]" by (rule map_put_fresh)
  have "distinct (map fst ((m @ [(k, v)]) @ kvs))" using Cons.prems by (simp add: kv)
  from Cons.IH [OF this] show ?case by (simp add: kv put)
qed simp

lemma map_of_mem_distinct: "distinct (map fst m) \<Longrightarrow> (k, v) \<in> set m \<Longrightarrow> map_of m k = Some v"
  by (rule map_of_is_SomeI)

lemma those_map_Some: "those (map Some xs) = Some xs"
  by (induction xs) auto

end
