(* ===== verification/GoLib.thy ===== *)
theory GoLib
  imports Prelude
begin

text \<open>
  The parts of Go's standard library that the broker's code calls and whose behaviour its
  correctness depends on: \<open>encoding/hex\<close>, \<open>encoding/base64\<close>, UTF-8 decoding
  (\<open>unicode/utf8\<close>) and the functions of package \<open>strings\<close>. Each is given as an executable
  function; the lemmas are the round trips and injectivity facts the components use.
\<close>

subsection \<open>encoding/hex\<close>

definition hex_digit :: "nat \<Rightarrow> char" where
  "hex_digit n = ''0123456789abcdef'' ! n"

definition hex_val :: "char \<Rightarrow> nat option" where
  "hex_val c =
     (if 48 \<le> byte c \<and> byte c \<le> 57 then Some (byte c - 48)
      else if 97 \<le> byte c \<and> byte c \<le> 102 then Some (byte c - 87)
      else if 65 \<le> byte c \<and> byte c \<le> 70 then Some (byte c - 55)
      else None)"

fun hex_EncodeToString :: "bytes \<Rightarrow> string" where
  "hex_EncodeToString [] = []"
| "hex_EncodeToString (b # bs) =
     hex_digit (byte b div 16) # hex_digit (byte b mod 16) # hex_EncodeToString bs"

fun hex_DecodeString :: "string \<Rightarrow> bytes option" where
  "hex_DecodeString [] = Some []"
| "hex_DecodeString [c] = None"
| "hex_DecodeString (c # d # cs) =
     (case (hex_val c, hex_val d) of
        (Some h, Some l) \<Rightarrow> map_option ((#) (char_of (16 * h + l))) (hex_DecodeString cs)
      | _ \<Rightarrow> None)"

lemma hex_val_digit_all: "\<forall>n \<in> set [0..<16]. hex_val (hex_digit n) = Some n"
  by code_simp

lemma hex_val_digit [simp]: "n < 16 \<Longrightarrow> hex_val (hex_digit n) = Some n"
  using hex_val_digit_all by simp

lemma byte_div_16 [simp]: "byte b div 16 < 16"
  using byte_less_256 [of b] by linarith

lemma hex_DecodeString_Encode [simp]: "hex_DecodeString (hex_EncodeToString bs) = Some bs"
  by (induction bs) simp_all

lemma length_hex_Encode [simp]: "length (hex_EncodeToString bs) = 2 * length bs"
  by (induction bs) simp_all

lemma hex_Encode_inject [simp]: "hex_EncodeToString a = hex_EncodeToString b \<longleftrightarrow> a = b"
  by (metis hex_DecodeString_Encode option.inject)

subsection \<open>encoding/base64\<close>

text \<open>
  The alphabet is the argument: standard (with padding) for the \<open>[]byte\<close> fields that
  \<open>encoding/json\<close> writes, URL-safe without padding for JWKS documents.
\<close>

definition b64_std_alphabet :: string where
  "b64_std_alphabet = ''ABCDEFGHIJKLMNOPQRSTUVWXYZabcdefghijklmnopqrstuvwxyz0123456789+/''"

definition b64_url_alphabet :: string where
  "b64_url_alphabet = ''ABCDEFGHIJKLMNOPQRSTUVWXYZabcdefghijklmnopqrstuvwxyz0123456789-_''"

fun b64_digits :: "bytes \<Rightarrow> nat list" where
  "b64_digits [] = []"
| "b64_digits [a] = [byte a div 4, byte a mod 4 * 16]"
| "b64_digits [a, b] = [byte a div 4, byte a mod 4 * 16 + byte b div 16, byte b mod 16 * 4]"
| "b64_digits (a # b # c # bs) =
     [byte a div 4, byte a mod 4 * 16 + byte b div 16, byte b mod 16 * 4 + byte c div 64,
      byte c mod 64] @ b64_digits bs"

fun b64_undigits :: "nat list \<Rightarrow> bytes option" where
  "b64_undigits [] = Some []"
| "b64_undigits [x] = None"
| "b64_undigits [x, y] = Some [char_of (x * 4 + y div 16)]"
| "b64_undigits [x, y, z] = Some [char_of (x * 4 + y div 16), char_of (y mod 16 * 16 + z div 4)]"
| "b64_undigits (x # y # z # w # ds) =
     map_option (\<lambda>bs. char_of (x * 4 + y div 16) # char_of (y mod 16 * 16 + z div 4)
                       # char_of (z mod 4 * 64 + w) # bs) (b64_undigits ds)"

definition b64_Raw_Encode :: "string \<Rightarrow> bytes \<Rightarrow> string" where
  "b64_Raw_Encode alphabet bs = map (\<lambda>d. alphabet ! d) (b64_digits bs)"

definition b64_Std_Encode :: "bytes \<Rightarrow> string" where
  "b64_Std_Encode bs =
     b64_Raw_Encode b64_std_alphabet bs @ replicate ((3 - length bs mod 3) mod 3) (CHR ''='')"

fun b64_value :: "string \<Rightarrow> char \<Rightarrow> nat option" where
  "b64_value [] c = None"
| "b64_value (a # as) c = (if a = c then Some 0 else map_option Suc (b64_value as c))"

text \<open>\<open>DecodeString\<close> skips line breaks and ignores the unused low bits of the last digit.\<close>

definition b64_Raw_Decode :: "string \<Rightarrow> string \<Rightarrow> bytes option" where
  "b64_Raw_Decode alphabet s =
     Option.bind (those (map (b64_value alphabet)
        (filter (\<lambda>c. c \<noteq> CHR 0x0A \<and> c \<noteq> CHR 0x0D) s))) b64_undigits"

lemma b64_digit_bounds:
  "byte a div 4 < 64" "byte a mod 4 * 16 < 64" "byte a mod 4 * 16 + byte b div 16 < 64"
  "byte b mod 16 * 4 < 64" "byte b mod 16 * 4 + byte c div 64 < 64"
  using byte_less_256 [of a] byte_less_256 [of b] byte_less_256 [of c] by linarith+

lemma b64_digits_less: "d \<in> set (b64_digits bs) \<Longrightarrow> d < 64"
  by (induction bs rule: b64_digits.induct)
    (auto simp only: b64_digits.simps append.simps list.set insert_iff empty_iff
      b64_digit_bounds mod_less_divisor zero_less_numeral)

lemma mult_add_div: "y < k \<Longrightarrow> (x * k + y) div k = (x::nat)"
  and mult_add_mod: "y < k \<Longrightarrow> (x * k + y) mod k = (y::nat)"
  by simp_all

lemma b64_join1: "b < 256 \<Longrightarrow> a div 4 * 4 + (a mod 4 * 16 + b div 16) div 16 = (a::nat)"
  by (subst mult_add_div) auto

lemma b64_join2: "b < 256 \<Longrightarrow> c < 256 \<Longrightarrow>
    (a mod 4 * 16 + b div 16) mod 16 * 16 + (b mod 16 * 4 + c div 64) div 4 = (b::nat)"
  by (subst mult_add_div, simp, subst mult_add_mod) auto

lemma b64_join3: "c < 256 \<Longrightarrow> (b mod 16 * 4 + c div 64) mod 4 * 64 + c mod 64 = (c::nat)"
  by (subst mult_add_mod) auto

lemma b64_join1': "a div 4 * 4 + a mod 4 * 16 div 16 = (a::nat)"
  by simp

lemma b64_join2': "b < 256 \<Longrightarrow> (a mod 4 * 16 + b div 16) mod 16 * 16 + b mod 16 * 4 div 4 = (b::nat)"
  by (subst mult_add_mod) auto

lemmas b64_joins = b64_join1 b64_join2 b64_join3 b64_join1' b64_join2'

lemma b64_undigits_digits [simp]: "b64_undigits (b64_digits bs) = Some bs"
  by (induction bs rule: b64_digits.induct) (simp_all only: b64_digits.simps b64_undigits.simps
     append.simps b64_joins byte_less_256 char_of_char option.map)

lemma b64_digits_inject: "b64_digits a = b64_digits b \<Longrightarrow> a = b"
  by (metis b64_undigits_digits option.inject)

lemma distinct_b64_std: "distinct b64_std_alphabet \<and> length b64_std_alphabet = 64 \<and>
    CHR ''='' \<notin> set b64_std_alphabet"
  by code_simp

lemma nth_map_inject:
  assumes "distinct al" and "\<forall>d \<in> set xs. d < length al" and "\<forall>d \<in> set ys. d < length al"
    and "map ((!) al) xs = map ((!) al) ys"
  shows "xs = ys"
proof (rule map_inj_on [OF assms(4)])
  show "inj_on ((!) al) (set xs \<union> set ys)" using assms(1-3) by (intro inj_on_nth) auto
qed

lemma b64_Raw_Encode_std_inject:
  assumes "b64_Raw_Encode b64_std_alphabet a = b64_Raw_Encode b64_std_alphabet b"
  shows "a = b"
proof -
  have "b64_digits a = b64_digits b"
    using assms distinct_b64_std
    by (intro nth_map_inject [of b64_std_alphabet]) (auto simp: b64_Raw_Encode_def b64_digits_less)
  then show ?thesis by (rule b64_digits_inject)
qed

lemma b64_Raw_Encode_std_no_pad: "CHR ''='' \<notin> set (b64_Raw_Encode b64_std_alphabet bs)"
proof -
  have "set (b64_Raw_Encode b64_std_alphabet bs) \<subseteq> set b64_std_alphabet"
    using distinct_b64_std by (auto simp: b64_Raw_Encode_def intro: nth_mem dest: b64_digits_less)
  then show ?thesis using distinct_b64_std by auto
qed

lemma takeWhile_pad:
  "c \<notin> set xs \<Longrightarrow> takeWhile (\<lambda>x. x \<noteq> c) (xs @ replicate n c) = xs"
  by (induction xs) (auto simp: takeWhile_replicate)

lemma b64_Std_Encode_inject [simp]: "b64_Std_Encode a = b64_Std_Encode b \<longleftrightarrow> a = b"
proof
  assume "b64_Std_Encode a = b64_Std_Encode b"
  then have "takeWhile (\<lambda>x. x \<noteq> CHR ''='') (b64_Std_Encode a) =
      takeWhile (\<lambda>x. x \<noteq> CHR ''='') (b64_Std_Encode b)" by simp
  then have "b64_Raw_Encode b64_std_alphabet a = b64_Raw_Encode b64_std_alphabet b"
    by (simp add: b64_Std_Encode_def takeWhile_pad b64_Raw_Encode_std_no_pad)
  then show "a = b" by (rule b64_Raw_Encode_std_inject)
qed simp

lemma b64_value_nth: "distinct al \<Longrightarrow> d < length al \<Longrightarrow> b64_value al (al ! d) = Some d"
proof (induction al arbitrary: d)
  case (Cons a al)
  then show ?case by (cases d) auto
qed simp

subsection \<open>unicode/utf8\<close>

text \<open>
  \<open>utf8_len s\<close> is the width of the well-formed multi-byte sequence at the head of \<open>s\<close>, or
  \<open>None\<close> when \<open>utf8.DecodeRune\<close> answers \<open>RuneError\<close> (and consumes one byte): a stray or
  missing continuation byte, an overlong form, a surrogate, or a value above U+10FFFF.
\<close>

definition utf8_cont :: "char \<Rightarrow> bool" where
  "utf8_cont b \<longleftrightarrow> 0x80 \<le> byte b \<and> byte b \<le> 0xBF"

definition utf8_2 :: "char \<Rightarrow> char \<Rightarrow> bool" where
  "utf8_2 a b \<longleftrightarrow> 0xC2 \<le> byte a \<and> byte a \<le> 0xDF \<and> utf8_cont b"

definition utf8_3 :: "char \<Rightarrow> char \<Rightarrow> char \<Rightarrow> bool" where
  "utf8_3 a b c \<longleftrightarrow> 0xE0 \<le> byte a \<and> byte a \<le> 0xEF \<and> utf8_cont b \<and> utf8_cont c \<and>
     (byte a = 0xE0 \<longrightarrow> 0xA0 \<le> byte b) \<and> (byte a = 0xED \<longrightarrow> byte b \<le> 0x9F)"

definition utf8_4 :: "char \<Rightarrow> char \<Rightarrow> char \<Rightarrow> char \<Rightarrow> bool" where
  "utf8_4 a b c d \<longleftrightarrow> 0xF0 \<le> byte a \<and> byte a \<le> 0xF4 \<and> utf8_cont b \<and> utf8_cont c \<and> utf8_cont d \<and>
     (byte a = 0xF0 \<longrightarrow> 0x90 \<le> byte b) \<and> (byte a = 0xF4 \<longrightarrow> byte b \<le> 0x8F)"

fun utf8_len :: "string \<Rightarrow> nat option" where
  "utf8_len (a # b # cs) =
     (if utf8_2 a b then Some 2
      else case cs of
             [] \<Rightarrow> None
           | c # ds \<Rightarrow>
               if utf8_3 a b c then Some 3
               else case ds of [] \<Rightarrow> None | d # _ \<Rightarrow> if utf8_4 a b c d then Some 4 else None)"
| "utf8_len _ = None"

lemma utf8_heads:
  "utf8_2 a b \<Longrightarrow> 0x80 \<le> byte a \<and> 0x80 \<le> byte b"
  "utf8_3 a b c \<Longrightarrow> 0x80 \<le> byte a \<and> 0x80 \<le> byte b \<and> 0x80 \<le> byte c"
  "utf8_4 a b c d \<Longrightarrow> 0x80 \<le> byte a \<and> 0x80 \<le> byte b \<and> 0x80 \<le> byte c \<and> 0x80 \<le> byte d"
  by (simp_all add: utf8_2_def utf8_3_def utf8_4_def utf8_cont_def)

lemma utf8_len_cases [consumes 1, case_names two three four]:
  assumes "utf8_len s = Some n"
  obtains (two) a b cs where "s = a # b # cs" "n = 2" "utf8_2 a b"
  | (three) a b c cs where "s = a # b # c # cs" "n = 3" "\<not> utf8_2 a b" "utf8_3 a b c"
  | (four) a b c d cs where "s = a # b # c # d # cs" "n = 4" "\<not> utf8_2 a b" "\<not> utf8_3 a b c"
      "utf8_4 a b c d"
  using assms by (cases s rule: utf8_len.cases) (auto split: if_splits list.splits)

lemma utf8_len_prefix: "utf8_len s = Some n \<Longrightarrow> utf8_len (take n s @ t) = Some n"
  by (erule utf8_len_cases) simp_all

lemma utf8_len_bounds: "utf8_len s = Some n \<Longrightarrow> 2 \<le> n \<and> n \<le> length s"
  by (erule utf8_len_cases) simp_all

lemma utf8_len_high: "utf8_len s = Some n \<Longrightarrow> c \<in> set (take n s) \<Longrightarrow> 0x80 \<le> byte c"
  by (erule utf8_len_cases) (auto dest: utf8_heads)

function valid_utf8 :: "string \<Rightarrow> bool" where
  "valid_utf8 [] = True"
| "valid_utf8 (c # cs) =
     (if byte c < 0x80 then valid_utf8 cs
      else case utf8_len (c # cs) of None \<Rightarrow> False | Some n \<Rightarrow> valid_utf8 (drop n (c # cs)))"
  by pat_completeness auto
termination
  by (relation "measure length") (auto dest: utf8_len_bounds)

text \<open>The replacement of every invalid byte by U+FFFD, as \<open>encoding/json\<close> performs it.\<close>

function to_valid_utf8 :: "string \<Rightarrow> string" where
  "to_valid_utf8 [] = []"
| "to_valid_utf8 (c # cs) =
     (if byte c < 0x80 then c # to_valid_utf8 cs
      else case utf8_len (c # cs) of
             None \<Rightarrow> [CHR 0xEF, CHR 0xBF, CHR 0xBD] @ to_valid_utf8 cs
           | Some n \<Rightarrow> take n (c # cs) @ to_valid_utf8 (drop n (c # cs)))"
  by pat_completeness auto
termination
  by (relation "measure length") (auto dest: utf8_len_bounds)

lemma to_valid_utf8_id [simp]: "valid_utf8 s \<Longrightarrow> to_valid_utf8 s = s"
  by (induction s rule: valid_utf8.induct) (simp_all split: if_splits option.splits)

lemma valid_to_valid_utf8 [simp]: "valid_utf8 (to_valid_utf8 s)"
proof (induction s rule: to_valid_utf8.induct)
  case (2 c cs)
  show ?case
  proof (cases "byte c < 0x80")
    case True
    with 2 show ?thesis by simp
  next
    case False
    show ?thesis
    proof (cases "utf8_len (c # cs)")
      case None
      with False 2 show ?thesis by (simp add: utf8_2_def utf8_3_def utf8_cont_def)
    next
      case (Some n)
      with False 2 have IH: "valid_utf8 (to_valid_utf8 (drop n (c # cs)))" by simp
      have "utf8_len (take n (c # cs) @ to_valid_utf8 (drop n (c # cs))) = Some n"
        using Some by (rule utf8_len_prefix)
      moreover obtain k where "n = Suc k" "k \<le> length cs"
        using utf8_len_bounds [OF Some] by (cases n) auto
      ultimately show ?thesis using IH False Some by simp
    qed
  qed
qed simp

lemma ascii_valid_utf8: "\<forall>c \<in> set s. byte c < 0x80 \<Longrightarrow> valid_utf8 s"
  by (induction s) auto

end
