(* ===== verification/Json.thy ===== *)
theory Json
  imports GoLib
begin

text \<open>
  Package \<open>encoding/json\<close> as the broker uses it: \<open>json.Marshal\<close> (compact, HTML-safe string
  escapes, invalid UTF-8 replaced) and \<open>json.Unmarshal\<close> into an \<open>any\<close>. A value of type
  \<open>json\<close> is what an \<open>any\<close> holds after decoding; an object is a Go map, an association list
  with distinct keys whose order carries no meaning.

  An integer literal is a \<open>JNum\<close>, exact at any size (an \<open>any\<close> holds a \<open>float64\<close>, exact up to
  \<open>2 ^ 53\<close>: \<open>json_nums_ok\<close>; a decoder into an \<open>int\<close> field reads the digits). A literal with a
  fraction or an exponent is a \<open>JFrac\<close>, read but never written by the program.

  The result of the theory is the round trip: decoding what was encoded gives the value back,
  with invalid UTF-8 repaired and, for a repeated key, the last value (\<open>json_clean\<close>).
\<close>

datatype json =
    JNull
  | JBool bool
  | JNum int
  | JFrac int int
  | JStr string
  | JArr "json list"
  | JObj "(string \<times> json) list"

subsection \<open>Encoding\<close>

abbreviation dquote :: char where "dquote \<equiv> CHR 0x22"
abbreviation bslash :: char where "bslash \<equiv> CHR 0x5C"

definition json_u4 :: "nat \<Rightarrow> string" where
  "json_u4 n = [bslash, CHR ''u'', hex_digit (n div 4096 mod 16), hex_digit (n div 256 mod 16),
     hex_digit (n div 16 mod 16), hex_digit (n mod 16)]"

definition json_esc_ascii :: "char \<Rightarrow> string" where
  "json_esc_ascii c =
     (if c = dquote \<or> c = bslash then [bslash, c]
      else if c = CHR 0x08 then [bslash, CHR ''b'']
      else if c = CHR 0x0C then [bslash, CHR ''f'']
      else if c = CHR 0x0A then [bslash, CHR ''n'']
      else if c = CHR 0x0D then [bslash, CHR ''r'']
      else if c = CHR 0x09 then [bslash, CHR ''t'']
      else if byte c < 0x20 \<or> c = CHR ''<'' \<or> c = CHR ''>'' \<or> c = CHR ''&'' then json_u4 (byte c)
      else [c])"

definition json_esc_rune :: "string \<Rightarrow> string" where
  "json_esc_rune r =
     (if r = [CHR 0xE2, CHR 0x80, CHR 0xA8] then json_u4 0x2028
      else if r = [CHR 0xE2, CHR 0x80, CHR 0xA9] then json_u4 0x2029
      else r)"

function json_esc :: "string \<Rightarrow> string" where
  "json_esc [] = []"
| "json_esc (c # cs) =
     (if byte c < 0x80 then json_esc_ascii c @ json_esc cs
      else case utf8_len (c # cs) of
             None \<Rightarrow> json_u4 0xFFFD @ json_esc cs
           | Some n \<Rightarrow> json_esc_rune (take n (c # cs)) @ json_esc (drop n (c # cs)))"
  by pat_completeness auto
termination
  by (relation "measure length") (auto dest: utf8_len_bounds)

definition json_string :: "string \<Rightarrow> string" where
  "json_string s = dquote # json_esc s @ [dquote]"

fun strings_Join :: "string list \<Rightarrow> string \<Rightarrow> string" where
  "strings_Join [] sep = []"
| "strings_Join [x] sep = x"
| "strings_Join (x # y # xs) sep = x @ sep @ strings_Join (y # xs) sep"

fun nat_digits :: "nat \<Rightarrow> string" where
  "nat_digits n =
     (if n < 10 then [char_of (48 + n)] else nat_digits (n div 10) @ [char_of (48 + n mod 10)])"

declare nat_digits.simps [simp del]

definition int_digits :: "int \<Rightarrow> string" where
  "int_digits i = (if i < 0 then CHR ''-'' # nat_digits (nat (- i)) else nat_digits (nat i))"

fun json_Marshal :: "json \<Rightarrow> string" where
  "json_Marshal JNull = ''null''"
| "json_Marshal (JBool b) = (if b then ''true'' else ''false'')"
| "json_Marshal (JNum i) = int_digits i"
| "json_Marshal (JFrac m e) = int_digits m @ ''e'' @ int_digits e"
| "json_Marshal (JStr s) = json_string s"
| "json_Marshal (JArr xs) = CHR ''['' # strings_Join (map json_Marshal xs) '','' @ '']''"
| "json_Marshal (JObj m) =
     CHR ''{'' # strings_Join (map (\<lambda>(k, v). json_string k @ '':'' @ json_Marshal v) m) '','' @ ''}''"

subsection \<open>Decoding\<close>

fun json_getu4 :: "string \<Rightarrow> (nat \<times> string) option" where
  "json_getu4 (a # b # c # d # cs) =
     (case (hex_val a, hex_val b, hex_val c, hex_val d) of
        (Some w, Some x, Some y, Some z) \<Rightarrow> Some (((w * 16 + x) * 16 + y) * 16 + z, cs)
      | _ \<Rightarrow> None)"
| "json_getu4 _ = None"

definition utf8_EncodeRune :: "nat \<Rightarrow> string" where
  "utf8_EncodeRune r =
     (if r < 0x80 then [char_of r]
      else if r < 0x800 then [char_of (0xC0 + r div 64), char_of (0x80 + r mod 64)]
      else if (0xD800 \<le> r \<and> r \<le> 0xDFFF) \<or> 0x10FFFF < r then [CHR 0xEF, CHR 0xBF, CHR 0xBD]
      else if r < 0x10000 then
        [char_of (0xE0 + r div 4096), char_of (0x80 + r div 64 mod 64), char_of (0x80 + r mod 64)]
      else
        [char_of (0xF0 + r div 262144), char_of (0x80 + r div 4096 mod 64),
         char_of (0x80 + r div 64 mod 64), char_of (0x80 + r mod 64)])"

definition json_simple_escape :: "char \<Rightarrow> char option" where
  "json_simple_escape e =
     (if e = dquote \<or> e = bslash \<or> e = CHR ''/'' then Some e
      else if e = CHR ''b'' then Some (CHR 0x08)
      else if e = CHR ''f'' then Some (CHR 0x0C)
      else if e = CHR ''n'' then Some (CHR 0x0A)
      else if e = CHR ''r'' then Some (CHR 0x0D)
      else if e = CHR ''t'' then Some (CHR 0x09)
      else None)"

text \<open>A \<open>\u\<close> escape; the low half of a surrogate pair must follow the high half.\<close>

definition json_unescape_u :: "string \<Rightarrow> (string \<times> string) option" where
  "json_unescape_u s =
     (case json_getu4 s of
        None \<Rightarrow> None
      | Some (r, s1) \<Rightarrow>
          if 0xD800 \<le> r \<and> r \<le> 0xDFFF then
            (case s1 of
               x # y # s2 \<Rightarrow>
                 (if x = bslash \<and> y = CHR ''u'' then
                    (case json_getu4 s2 of
                       Some (r2, s3) \<Rightarrow>
                         if r < 0xDC00 \<and> 0xDC00 \<le> r2 \<and> r2 \<le> 0xDFFF
                         then Some (utf8_EncodeRune ((r - 0xD800) * 1024 + (r2 - 0xDC00) + 0x10000), s3)
                         else Some (utf8_EncodeRune 0xFFFD, s1)
                     | None \<Rightarrow> Some (utf8_EncodeRune 0xFFFD, s1))
                  else Some (utf8_EncodeRune 0xFFFD, s1))
             | _ \<Rightarrow> Some (utf8_EncodeRune 0xFFFD, s1))
          else Some (utf8_EncodeRune r, s1))"

text \<open>One item of a string literal: an escape, an ASCII byte, or a multi-byte sequence.\<close>

fun json_unq_item :: "string \<Rightarrow> (string \<times> string) option" where
  "json_unq_item [] = None"
| "json_unq_item (c # cs) =
     (if c = bslash then
        (case cs of
           [] \<Rightarrow> None
         | e # es \<Rightarrow>
             if e = CHR ''u'' then json_unescape_u es
             else map_option (\<lambda>x. ([x], es)) (json_simple_escape e))
      else if byte c < 0x20 then None
      else if byte c < 0x80 then Some ([c], cs)
      else case utf8_len (c # cs) of
             None \<Rightarrow> Some ([CHR 0xEF, CHR 0xBF, CHR 0xBD], cs)
           | Some n \<Rightarrow> Some (take n (c # cs), drop n (c # cs)))"

lemma json_getu4_shorter: "json_getu4 s = Some (r, t) \<Longrightarrow> length t < length s"
  by (cases s rule: json_getu4.cases) (auto split: option.splits)

lemma json_unescape_u_shorter: "json_unescape_u s = Some (p, t) \<Longrightarrow> length t < length s"
  by (auto simp: json_unescape_u_def split: option.splits if_splits list.splits
      dest!: json_getu4_shorter)

lemma json_unq_item_shorter: "json_unq_item s = Some (p, t) \<Longrightarrow> length t < length s"
  by (cases s) (auto split: if_splits list.splits option.splits
      dest: json_unescape_u_shorter utf8_len_bounds)

text \<open>The rest of a string literal, after its opening quote.\<close>

function json_unquote :: "string \<Rightarrow> (string \<times> string) option" where
  "json_unquote s =
     (case s of
        [] \<Rightarrow> None
      | c # cs \<Rightarrow>
          if c = dquote then Some ([], cs)
          else case json_unq_item s of
                 None \<Rightarrow> None
               | Some (p, r) \<Rightarrow> map_option (\<lambda>(t, u). (p @ t, u)) (json_unquote r))"
  by pat_completeness auto
termination
  by (relation "measure length") (auto dest: json_unq_item_shorter simp del: json_unq_item.simps)

declare json_unquote.simps [simp del]

fun skip_ws :: "string \<Rightarrow> string" where
  "skip_ws [] = []"
| "skip_ws (c # cs) = (if byte c \<in> {0x20, 0x09, 0x0A, 0x0D} then skip_ws cs else c # cs)"

definition is_digit :: "char \<Rightarrow> bool" where
  "is_digit c \<longleftrightarrow> 48 \<le> byte c \<and> byte c \<le> 57"

definition digits_val :: "string \<Rightarrow> nat" where
  "digits_val ds = foldl (\<lambda>n c. n * 10 + (byte c - 48)) 0 ds"

definition parse_nat :: "string \<Rightarrow> (nat \<times> string) option" where
  "parse_nat s =
     (let ds = takeWhile is_digit s; r = dropWhile is_digit s in
      if ds = [] \<or> (1 < length ds \<and> hd ds = CHR ''0'') then None
      else Some (digits_val ds, r))"

definition parse_point :: "string \<Rightarrow> (string \<times> string) option" where
  "parse_point r =
     (if r = [] \<or> hd r \<noteq> CHR ''.'' then Some ([], r)
      else let ds = takeWhile is_digit (tl r) in
        if ds = [] then None else Some (ds, dropWhile is_digit (tl r)))"

definition parse_exp :: "string \<Rightarrow> (int option \<times> string) option" where
  "parse_exp r =
     (if r = [] \<or> hd r \<notin> set ''eE'' then Some (None, r)
      else let t = tl r; sg = (t \<noteq> [] \<and> hd t \<in> set ''+-'');
               neg = (sg \<and> hd t = CHR ''-''); u = (if sg then tl t else t);
               ds = takeWhile is_digit u in
        if ds = [] then None
        else Some (Some (if neg then - int (digits_val ds) else int (digits_val ds)),
                   dropWhile is_digit u))"

text \<open>
  An integer literal is read exactly. A literal with a fraction or an exponent is kept as its
  decimal mantissa and exponent; no type of the program writes one.
\<close>

definition parse_number :: "string \<Rightarrow> (json \<times> string) option" where
  "parse_number s =
     (let neg = (s \<noteq> [] \<and> hd s = CHR ''-''); sgn = (\<lambda>n. if neg then - int n else int n) in
      case parse_nat (if neg then tl s else s) of
        None \<Rightarrow> None
      | Some (n, r) \<Rightarrow>
          (case parse_point r of
             None \<Rightarrow> None
           | Some (fs, r2) \<Rightarrow>
               (case parse_exp r2 of
                  None \<Rightarrow> None
                | Some (eo, r3) \<Rightarrow>
                    Some (if fs = [] \<and> eo = None then JNum (sgn n)
                          else JFrac (sgn (n * 10 ^ length fs + digits_val fs))
                                 ((case eo of None \<Rightarrow> 0 | Some e \<Rightarrow> e) - int (length fs)),
                          r3))))"

definition strip_lit :: "string \<Rightarrow> json \<Rightarrow> string \<Rightarrow> (json \<times> string) option" where
  "strip_lit w v s = (if take (length w) s = w then Some (v, drop (length w) s) else None)"

fun parse_value :: "nat \<Rightarrow> string \<Rightarrow> (json \<times> string) option"
  and parse_elems :: "nat \<Rightarrow> string \<Rightarrow> (json list \<times> string) option"
  and parse_members :: "nat \<Rightarrow> string \<Rightarrow> ((string \<times> json) list \<times> string) option"
where
  "parse_value 0 s = None"
| "parse_value (Suc n) s =
     (case skip_ws s of
        [] \<Rightarrow> None
      | c # cs \<Rightarrow>
          if c = CHR ''{'' then
            (case skip_ws cs of
               [] \<Rightarrow> None
             | d # ds \<Rightarrow> if d = CHR ''}'' then Some (JObj [], ds)
                        else map_option (\<lambda>(m, r). (JObj m, r)) (parse_members n cs))
          else if c = CHR ''['' then
            (case skip_ws cs of
               [] \<Rightarrow> None
             | d # ds \<Rightarrow> if d = CHR '']'' then Some (JArr [], ds)
                        else map_option (\<lambda>(xs, r). (JArr xs, r)) (parse_elems n cs))
          else if c = dquote then map_option (\<lambda>(t, r). (JStr t, r)) (json_unquote cs)
          else if c = CHR ''n'' then strip_lit ''null'' JNull (c # cs)
          else if c = CHR ''t'' then strip_lit ''true'' (JBool True) (c # cs)
          else if c = CHR ''f'' then strip_lit ''false'' (JBool False) (c # cs)
          else parse_number (c # cs))"
| "parse_elems 0 s = None"
| "parse_elems (Suc n) s =
     (case parse_value n s of
        None \<Rightarrow> None
      | Some (v, r) \<Rightarrow>
          (case skip_ws r of
             [] \<Rightarrow> None
           | c # cs \<Rightarrow>
               if c = CHR '','' then map_option (\<lambda>(vs, u). (v # vs, u)) (parse_elems n cs)
               else if c = CHR '']'' then Some ([v], cs)
               else None))"
| "parse_members 0 s = None"
| "parse_members (Suc n) s =
     (case skip_ws s of
        [] \<Rightarrow> None
      | q # qs \<Rightarrow>
          if q \<noteq> dquote then None
          else case json_unquote qs of
                 None \<Rightarrow> None
               | Some (k, r) \<Rightarrow>
                   (case skip_ws r of
                      [] \<Rightarrow> None
                    | c # cs \<Rightarrow>
                        if c \<noteq> CHR '':'' then None
                        else case parse_value n cs of
                               None \<Rightarrow> None
                             | Some (v, r2) \<Rightarrow>
                                 (case skip_ws r2 of
                                    [] \<Rightarrow> None
                                  | d # ds \<Rightarrow>
                                      if d = CHR '','' then map_option (\<lambda>(m, u). ((k, v) # m, u)) (parse_members n ds)
                                      else if d = CHR ''}'' then Some ([(k, v)], ds)
                                      else None)))"

text \<open>
  The parser keeps the members of an object as they stand in the document. \<open>json_Parse\<close> reads one
  value and nothing after it but white space; \<open>json_Decode\<close>, the first call of a \<open>json.Decoder\<close>,
  reads one value and leaves the rest. Every call of the parser consumes at least one byte, so the
  length of the input is enough fuel. \<open>json.Unmarshal\<close> into an \<open>any\<close> makes maps of the objects,
  where the last of several members with the same key remains.
\<close>

definition json_Parse :: "string \<Rightarrow> json option" where
  "json_Parse s =
     (case parse_value (Suc (length s)) s of
        Some (v, r) \<Rightarrow> if skip_ws r = [] then Some v else None
      | None \<Rightarrow> None)"

definition json_Decode :: "string \<Rightarrow> json option" where
  "json_Decode s = map_option fst (parse_value (Suc (length s)) s)"

fun json_any :: "json \<Rightarrow> json" where
  "json_any (JArr xs) = JArr (map json_any xs)"
| "json_any (JObj m) = JObj (fold (\<lambda>(k, v). map_put k v) (map (\<lambda>(k, v). (k, json_any v)) m) [])"
| "json_any v = v"

definition json_Unmarshal :: "string \<Rightarrow> json option" where
  "json_Unmarshal s = map_option json_any (json_Parse s)"

subsection \<open>String literals round trip\<close>

lemma json_unescape_u_append:
  assumes "json_getu4 s = Some (r, [])" and "\<not> (0xD800 \<le> r \<and> r \<le> 0xDFFF)"
  shows "json_unescape_u (s @ t) = Some (utf8_EncodeRune r, t)"
proof -
  from assms(1) have "json_getu4 (s @ t) = Some (r, t)"
    by (cases s rule: json_getu4.cases) (auto split: option.splits)
  moreover have "(0xD800 \<le> r \<and> r \<le> 0xDFFF) = False" using assms(2) by simp
  ultimately show ?thesis by (simp only: json_unescape_u_def option.case prod.case if_False)
qed

lemma json_getu4_u4:
  assumes "n < 65536"
  shows "json_getu4 (drop 2 (json_u4 n)) = Some (n, [])"
proof -
  have "((n div 4096 mod 16 * 16 + n div 256 mod 16) * 16 + n div 16 mod 16) * 16 + n mod 16 = n"
  proof -
    have d: "n div 256 = n div 16 div 16" "n div 4096 = n div 16 div 16 div 16"
      by (simp_all flip: div_mult2_eq)
    have "n div 16 div 16 div 16 mod 16 = n div 16 div 16 div 16" using assms by simp
    then show ?thesis unfolding d by (simp only: div_mult_mod_eq)
  qed
  moreover have "n div 4096 mod 16 = n div 4096" "n div 4096 < 16" using assms by simp_all
  ultimately show ?thesis by (simp add: json_u4_def)
qed

text \<open>Reading one escaped \<open>\u\<close> item gives the UTF-8 bytes of its rune.\<close>

lemma json_unq_item_u4:
  assumes "n < 0xD800 \<or> n = 0xFFFD"
  shows "json_unq_item (json_u4 n @ t) = Some (utf8_EncodeRune n, t)"
proof -
  have n: "n < 65536" "\<not> (0xD800 \<le> n \<and> n \<le> 0xDFFF)" using assms by auto
  have u4: "json_u4 n @ t = bslash # CHR ''u'' # drop 2 (json_u4 n) @ t"
    by (simp add: json_u4_def)
  show ?thesis unfolding u4
    using json_unescape_u_append [OF json_getu4_u4 [OF n(1)] n(2), of t] by simp
qed

lemma json_esc_ascii_cases:
  "c = dquote \<or> c = bslash \<or> c = CHR 0x08 \<or> c = CHR 0x0C \<or> c = CHR 0x0A \<or> c = CHR 0x0D \<or>
   c = CHR 0x09 \<or> json_esc_ascii c = json_u4 (byte c) \<or>
   (json_esc_ascii c = [c] \<and> c \<noteq> bslash \<and> 0x20 \<le> byte c)"
  by (simp add: json_esc_ascii_def)

lemma json_unq_item_ascii:
  assumes "byte c < 0x80"
  shows "json_unq_item (json_esc_ascii c @ t) = Some ([c], t)"
proof -
  consider "c = dquote" | "c = bslash" | "c = CHR 0x08" | "c = CHR 0x0C" | "c = CHR 0x0A"
    | "c = CHR 0x0D" | "c = CHR 0x09"
    | "json_esc_ascii c = json_u4 (byte c)" | "json_esc_ascii c = [c]" "c \<noteq> bslash" "0x20 \<le> byte c"
    using json_esc_ascii_cases [of c] by blast
  then show ?thesis
  proof cases
    case 8
    have "json_unq_item (json_u4 (byte c) @ t) = Some (utf8_EncodeRune (byte c), t)"
      using assms by (intro json_unq_item_u4) simp
    with 8 assms show ?thesis by (simp add: utf8_EncodeRune_def)
  next
    case 9
    with assms show ?thesis by simp
  qed (simp_all add: json_esc_ascii_def json_simple_escape_def)
qed

lemma utf8_EncodeRune_consts:
  "utf8_EncodeRune 0x2028 = [CHR 0xE2, CHR 0x80, CHR 0xA8]"
  "utf8_EncodeRune 0x2029 = [CHR 0xE2, CHR 0x80, CHR 0xA9]"
  "utf8_EncodeRune 0xFFFD = [CHR 0xEF, CHR 0xBF, CHR 0xBD]"
  by (simp_all add: utf8_EncodeRune_def) (code_simp+)

lemma json_esc_rune_item:
  assumes "utf8_len s = Some n"
  shows "json_unq_item (json_esc_rune (take n s) @ t) = Some (take n s, t)"
proof -
  have len: "length (take n s) = n" using utf8_len_bounds [OF assms] by simp
  obtain c cs where cs: "take n s = c # cs"
    using utf8_len_bounds [OF assms] by (cases "take n s") auto
  have hi: "0x80 \<le> byte c" using utf8_len_high [OF assms, of c] cs by simp
  then have "c \<noteq> bslash" by auto
  moreover have "utf8_len (c # cs @ t) = Some n" using utf8_len_prefix [OF assms, of t] cs by simp
  moreover have "take n (c # cs @ t) = take n s" "drop n (c # cs @ t) = t"
    using len cs by (metis append_Cons append_eq_conv_conj)+
  ultimately have "json_unq_item (c # cs @ t) = Some (take n s, t)" using hi by simp
  then have plain: "json_unq_item (take n s @ t) = Some (take n s, t)" by (simp add: cs)
  show ?thesis
    unfolding json_esc_rune_def
    using plain json_unq_item_u4 [of "0x2028" t] json_unq_item_u4 [of "0x2029" t] utf8_EncodeRune_consts
    by (simp only: if_splits simp_thms split: if_split) simp
qed

lemma json_unquote_step:
  assumes "json_unq_item (p @ t) = Some (q, t)" and "p \<noteq> []" and "hd p \<noteq> dquote"
  shows "json_unquote (p @ t) = map_option (\<lambda>(x, u). (q @ x, u)) (json_unquote t)"
proof -
  obtain c cs where "p = c # cs" using assms(2) by (cases p) auto
  with assms show ?thesis
    by (subst json_unquote.simps) (simp del: json_unq_item.simps)
qed

lemma json_u4_head [simp]: "json_u4 n \<noteq> []" "hd (json_u4 n) = bslash"
  by (simp_all add: json_u4_def)

lemma json_esc_ascii_head: "json_esc_ascii c \<noteq> []" "hd (json_esc_ascii c) \<noteq> dquote"
  by (simp_all add: json_esc_ascii_def)

lemma json_esc_rune_head:
  assumes "utf8_len s = Some n"
  shows "json_esc_rune (take n s) \<noteq> []" "hd (json_esc_rune (take n s)) \<noteq> dquote"
proof -
  obtain c cs where cs: "take n s = c # cs"
    using utf8_len_bounds [OF assms] by (cases "take n s") auto
  moreover have "0x80 \<le> byte c" using utf8_len_high [OF assms, of c] cs by simp
  ultimately show "json_esc_rune (take n s) \<noteq> []" "hd (json_esc_rune (take n s)) \<noteq> dquote"
    by (auto simp: json_esc_rune_def)
qed

text \<open>A string literal decodes to the string it encodes, with invalid UTF-8 repaired.\<close>

lemma json_unquote_esc: "json_unquote (json_esc s @ dquote # r) = Some (to_valid_utf8 s, r)"
proof (induction s rule: json_esc.induct)
  case 1
  show ?case by (simp add: json_unquote.simps)
next
  case (2 c cs)
  show ?case
  proof (cases "byte c < 0x80")
    case True
    with 2 show ?thesis
      using json_unquote_step [OF json_unq_item_ascii [OF True] json_esc_ascii_head]
      by simp
  next
    case False
    show ?thesis
    proof (cases "utf8_len (c # cs)")
      case None
      from None False 2 show ?thesis
        using json_unquote_step [OF json_unq_item_u4 [of "0xFFFD"]]
        by (simp add: utf8_EncodeRune_consts)
    next
      case (Some n)
      with False 2 show ?thesis
        using json_unquote_step [OF json_esc_rune_item [OF Some] json_esc_rune_head [OF Some]]
        by simp
    qed
  qed
qed

subsection \<open>Numbers round trip\<close>

lemma byte_digit: "n < 10 \<Longrightarrow> byte (char_of (48 + n)) = 48 + n"
  by (rule byte_char_of) simp

lemma nat_digits_are_digits: "c \<in> set (nat_digits n) \<Longrightarrow> is_digit c"
proof (induction n rule: nat_digits.induct)
  case (1 n)
  then show ?case
    by (subst (asm) nat_digits.simps) (auto simp: is_digit_def byte_digit split: if_splits)
qed

lemma digits_val_snoc: "digits_val (ds @ [c]) = digits_val ds * 10 + (byte c - 48)"
  by (simp add: digits_val_def)

lemma digits_val_nat_digits: "digits_val (nat_digits n) = n"
proof (induction n rule: nat_digits.induct)
  case (1 n)
  show ?case
  proof (cases "n < 10")
    case True
    then show ?thesis by (subst nat_digits.simps) (simp add: digits_val_def byte_digit)
  next
    case False
    with 1 have "digits_val (nat_digits (n div 10)) = n div 10" by simp
    with False show ?thesis
      by (subst nat_digits.simps) (simp add: digits_val_snoc byte_digit del: of_char_of)
  qed
qed

lemma nat_digits_nonempty: "nat_digits n \<noteq> []"
  by (subst nat_digits.simps) simp

lemma nat_digits_head: "0 < n \<Longrightarrow> hd (nat_digits n) \<noteq> CHR ''0''"
proof (induction n rule: nat_digits.induct)
  case (1 n)
  show ?case
  proof (cases "n < 10")
    case True
    have "byte (char_of (48 + n)) \<noteq> byte (CHR ''0'')" using True 1 by (simp add: byte_digit del: of_char_of)
    then have "char_of (48 + n) \<noteq> CHR ''0''" by metis
    with True show ?thesis by (subst nat_digits.simps) simp
  next
    case False
    with 1 have "hd (nat_digits (n div 10)) \<noteq> CHR ''0''" by simp
    with False show ?thesis
      by (subst nat_digits.simps) (simp add: hd_append nat_digits_nonempty)
  qed
qed

lemma length_nat_digits: "1 < length (nat_digits n) \<Longrightarrow> 0 < n"
  by (cases n) (simp_all add: nat_digits.simps [of 0])

definition ends_value :: "string \<Rightarrow> bool" where
  "ends_value r \<longleftrightarrow> r = [] \<or> hd r \<in> set '',]}''"

lemma span_digits:
  assumes "\<forall>c \<in> set ds. is_digit c" and "ends_value r"
  shows "takeWhile is_digit (ds @ r) = ds" and "dropWhile is_digit (ds @ r) = r"
proof -
  have "r = [] \<or> \<not> is_digit (hd r)" using assms(2) by (auto simp: ends_value_def is_digit_def)
  then have "takeWhile is_digit r = []" "dropWhile is_digit r = r" by (cases r; auto)+
  with assms(1) show "takeWhile is_digit (ds @ r) = ds" "dropWhile is_digit (ds @ r) = r"
    by (simp_all add: takeWhile_append dropWhile_append)
qed

lemma parse_nat_digits:
  assumes "ends_value r"
  shows "parse_nat (nat_digits n @ r) = Some (n, r)"
proof -
  have "\<forall>c \<in> set (nat_digits n). is_digit c" using nat_digits_are_digits by blast
  note span = span_digits [OF this assms]
  have "\<not> (1 < length (nat_digits n) \<and> hd (nat_digits n) = CHR ''0'')"
    using nat_digits_head length_nat_digits by blast
  then show ?thesis
    unfolding parse_nat_def Let_def span by (simp add: nat_digits_nonempty digits_val_nat_digits)
qed

lemma no_fraction:
  assumes "ends_value r"
  shows "parse_point r = Some ([], r)" and "parse_exp r = Some (None, r)"
  using assms by (auto simp: ends_value_def parse_point_def parse_exp_def)

lemma digit_head:
  obtains c cs where "nat_digits n = c # cs" "is_digit c"
  using nat_digits_nonempty [of n] nat_digits_are_digits [of _ n] by (cases "nat_digits n") auto

lemma parse_number_digits:
  assumes "ends_value r"
  shows "parse_number (int_digits i @ r) = Some (JNum i, r)"
proof (cases "i < 0")
  case True
  then show ?thesis
    by (simp add: parse_number_def int_digits_def parse_nat_digits no_fraction assms)
next
  case False
  obtain c cs where c: "nat_digits (nat i) = c # cs" "is_digit c" by (rule digit_head)
  then have "hd (nat_digits (nat i) @ r) \<noteq> CHR ''-''" by (auto simp: is_digit_def)
  with False show ?thesis
    by (simp add: parse_number_def int_digits_def parse_nat_digits no_fraction assms)
qed

subsection \<open>Values round trip\<close>

text \<open>
  What decoding makes of an encoded value: strings repaired, and of several members with the
  same key the last one kept. \<open>json_wf\<close> are the values that encoding and decoding preserve:
  valid UTF-8, distinct keys, representable numbers.
\<close>

fun json_clean :: "json \<Rightarrow> json" where
  "json_clean (JStr s) = JStr (to_valid_utf8 s)"
| "json_clean (JArr xs) = JArr (map json_clean xs)"
| "json_clean (JObj m) =
     JObj (fold (\<lambda>(k, v). map_put k v) (map (\<lambda>(k, v). (to_valid_utf8 k, json_clean v)) m) [])"
| "json_clean v = v"

text \<open>What the parser reads of an encoded value: strings repaired, all members kept.\<close>

fun json_raw :: "json \<Rightarrow> json" where
  "json_raw (JStr s) = JStr (to_valid_utf8 s)"
| "json_raw (JArr xs) = JArr (map json_raw xs)"
| "json_raw (JObj m) = JObj (map (\<lambda>(k, v). (to_valid_utf8 k, json_raw v)) m)"
| "json_raw v = v"

lemma json_any_raw: "json_any (json_raw v) = json_clean v"
proof (induction v)
  case (JObj m)
  have "map ((\<lambda>(k, v). (k, json_any v)) \<circ> (\<lambda>(k, v). (to_valid_utf8 k, json_raw v))) m =
      map (\<lambda>(k, v). (to_valid_utf8 k, json_clean v)) m"
    using JObj by (intro map_cong refl) fastforce
  then show ?case by (simp only: json_raw.simps json_any.simps json_clean.simps map_map)
qed simp_all

fun json_nums_ok :: "json \<Rightarrow> bool" where
  "json_nums_ok (JNum i) = (\<bar>i\<bar> \<le> 2 ^ 53)"
| "json_nums_ok (JFrac m e) = False"
| "json_nums_ok (JArr xs) = list_all json_nums_ok xs"
| "json_nums_ok (JObj m) = list_all (\<lambda>(k, v). json_nums_ok v) m"
| "json_nums_ok v = True"

fun json_wf :: "json \<Rightarrow> bool" where
  "json_wf (JNum i) = (\<bar>i\<bar> \<le> 2 ^ 53)"
| "json_wf (JFrac m e) = False"
| "json_wf (JStr s) = valid_utf8 s"
| "json_wf (JArr xs) = list_all json_wf xs"
| "json_wf (JObj m) =
     (distinct (map fst m) \<and> list_all (\<lambda>(k, v). valid_utf8 k \<and> json_wf v) m)"
| "json_wf v = True"

lemma skip_ws_stop: "byte c \<notin> {0x20, 0x09, 0x0A, 0x0D} \<Longrightarrow> skip_ws (c # cs) = c # cs"
  by simp

definition value_head :: "char \<Rightarrow> bool" where
  "value_head c \<longleftrightarrow> byte c \<notin> {0x20, 0x09, 0x0A, 0x0D} \<and> c \<noteq> CHR '']'' \<and> c \<noteq> CHR ''}''"

lemma is_digit_value_head: "is_digit c \<Longrightarrow> value_head c"
  by (auto simp: value_head_def is_digit_def)

lemma json_Marshal_head:
  obtains c cs where "json_Marshal v = c # cs" "value_head c"
proof (cases v)
  case (JNum i)
  obtain d ds where "nat_digits (nat i) = d # ds" "is_digit d" by (rule digit_head)
  then obtain c cs where "int_digits i = c # cs" "value_head c"
    by (cases "i < 0") (auto simp: int_digits_def is_digit_value_head value_head_def [of "CHR ''-''"])
  with JNum that show ?thesis by simp
next
  case (JFrac i e)
  obtain d ds where "nat_digits (nat i) = d # ds" "is_digit d" by (rule digit_head)
  then obtain c cs where "int_digits i = c # cs" "value_head c"
    by (cases "i < 0") (auto simp: int_digits_def is_digit_value_head value_head_def [of "CHR ''-''"])
  with JFrac that show ?thesis by simp
next
  case (JBool b)
  then show ?thesis by (cases b) (auto simp: value_head_def intro: that)
qed (auto simp: value_head_def json_string_def intro: that)

lemma skip_ws_Marshal [simp]: "skip_ws (json_Marshal v @ r) = json_Marshal v @ r"
  using json_Marshal_head [of v] by (metis append_Cons skip_ws_stop value_head_def)

definition parses :: "json \<Rightarrow> bool" where
  "parses v \<longleftrightarrow> (\<forall>n r. length (json_Marshal v) \<le> n \<longrightarrow> ends_value r \<longrightarrow>
     parse_value n (json_Marshal v @ r) = Some (json_raw v, r))"

lemma ends_value_seps [simp]:
  "ends_value (CHR '','' # r)" "ends_value (CHR '']'' # r)" "ends_value (CHR ''}'' # r)"
  "ends_value []"
  by (simp_all add: ends_value_def)

lemma parse_elems_Join:
  assumes "\<forall>x \<in> set xs. parses x" and "xs \<noteq> []"
    and "length (strings_Join (map json_Marshal xs) '','') < n"
  shows "parse_elems n (strings_Join (map json_Marshal xs) '','' @ CHR '']'' # r) =
    Some (map json_raw xs, r)"
  using assms
proof (induction xs arbitrary: n)
  case (Cons x xs)
  obtain k where n: "n = Suc k" using Cons.prems(3) by (cases n) auto
  show ?case
  proof (cases xs)
    case Nil
    with Cons.prems n have "parse_value k (json_Marshal x @ CHR '']'' # r) = Some (json_raw x, CHR '']'' # r)"
      by (simp add: parses_def)
    with Nil n show ?thesis by simp
  next
    case (Cons y ys)
    let ?tl = "strings_Join (map json_Marshal xs) '','' @ CHR '']'' # r"
    have "parse_value k (json_Marshal x @ CHR '','' # ?tl) = Some (json_raw x, CHR '','' # ?tl)"
      using Cons.prems Cons n by (simp add: parses_def)
    moreover have "parse_elems k ?tl = Some (map json_raw xs, r)"
      using Cons.prems Cons n by (intro Cons.IH) auto
    ultimately show ?thesis using Cons n by simp
  qed
qed simp

abbreviation json_member :: "string \<times> json \<Rightarrow> string" where
  "json_member \<equiv> (\<lambda>(k, v). json_string k @ '':'' @ json_Marshal v)"

abbreviation clean_member :: "string \<times> json \<Rightarrow> string \<times> json" where
  "clean_member \<equiv> (\<lambda>(k, v). (to_valid_utf8 k, json_raw v))"

lemma parse_members_one:
  assumes "parses v" and "length (json_Marshal v) \<le> k" and "ends_value (c # r)"
  shows "parse_members (Suc k) (json_member (key, v) @ c # r) =
    (if c = CHR '','' then map_option (\<lambda>(m, u). (clean_member (key, v) # m, u)) (parse_members k r)
     else if c = CHR ''}'' then Some ([clean_member (key, v)], r) else None)"
proof -
  have u: "json_unquote (json_esc key @ dquote # CHR '':'' # json_Marshal v @ c # r) =
      Some (to_valid_utf8 key, CHR '':'' # json_Marshal v @ c # r)"
    by (rule json_unquote_esc)
  have v: "parse_value k (json_Marshal v @ c # r) = Some (json_raw v, c # r)"
    using assms by (simp add: parses_def)
  have ws: "skip_ws (c # r) = c # r" "skip_ws (dquote # t) = dquote # t"
    "skip_ws (CHR '':'' # t) = CHR '':'' # t" for t
    using assms(3) by (auto simp: ends_value_def)
  have str: "(json_string key @ '':'' @ json_Marshal v) @ c # r =
      dquote # json_esc key @ dquote # CHR '':'' # json_Marshal v @ c # r"
    by (simp add: json_string_def)
  show ?thesis
    by (simp only: str parse_members.simps ws u v list.case option.case prod.case simp_thms
        if_True if_False)
qed

lemma parse_members_Join:
  assumes "\<forall>(k, v) \<in> set m. parses v" and "m \<noteq> []"
    and "length (strings_Join (map json_member m) '','') < n"
  shows "parse_members n (strings_Join (map json_member m) '','' @ CHR ''}'' # r) =
    Some (map clean_member m, r)"
  using assms
proof (induction m arbitrary: n)
  case (Cons kv m)
  obtain key v where kv: "kv = (key, v)" by (cases kv)
  obtain k where n: "n = Suc k" using Cons.prems(3) by (cases n) auto
  have pv: "parses v" using Cons.prems kv by auto
  show ?case
  proof (cases m)
    case Nil
    then have "length (json_Marshal v) \<le> k" using Cons.prems kv n by simp
    from parse_members_one [OF pv this, of "CHR ''}''" r key] Nil kv n show ?thesis
      by (simp del: parse_members.simps)
  next
    case (Cons y ys)
    then have "length (json_Marshal v) \<le> k" using Cons.prems kv n by simp
    note one = parse_members_one [OF pv this, of "CHR '',''" _ key]
    have "parse_members k (strings_Join (map json_member m) '','' @ CHR ''}'' # r) =
        Some (map clean_member m, r)"
      using Cons.prems Cons n by (intro Cons.IH) auto
    with one Cons kv n show ?thesis by (simp del: parse_members.simps)
  qed
qed simp

lemma parse_value_Suc:
  "length (json_Marshal v) \<le> n \<Longrightarrow> \<exists>k. n = Suc k \<and> length (json_Marshal v) \<le> Suc k"
  by (rule json_Marshal_head [of v], cases n) auto

lemma Join_head:
  assumes "m \<noteq> []" and "\<forall>x \<in> set m. \<exists>c cs. x = c # cs \<and> value_head c"
  shows "\<exists>c cs. strings_Join m sep = c # cs \<and> value_head c"
  using assms by (induction m sep rule: strings_Join.induct) auto

lemma skip_ws_value_head: "value_head c \<Longrightarrow> skip_ws (c # cs) = c # cs"
  by (simp add: value_head_def)

lemma json_member_head: "\<exists>c. (\<exists>cs. json_string k @ CHR '':'' # t = c # cs) \<and> value_head c"
  by (simp add: json_string_def value_head_def)

lemma parses_JArr:
  assumes "\<forall>x \<in> set xs. parses x"
  shows "parses (JArr xs)"
  unfolding parses_def
proof (intro allI impI)
  fix n r assume n: "length (json_Marshal (JArr xs)) \<le> n"
  then obtain k where k: "n = Suc k" by (cases n) auto
  show "parse_value n (json_Marshal (JArr xs) @ r) = Some (json_raw (JArr xs), r)"
  proof (cases "xs = []")
    case True
    with k show ?thesis by simp
  next
    case False
    have "\<exists>c cs. strings_Join (map json_Marshal xs) '','' = c # cs \<and> value_head c"
      using False by (intro Join_head) (auto intro: json_Marshal_head)
    then obtain c cs where c: "strings_Join (map json_Marshal xs) '','' = c # cs" "value_head c"
      by blast
    have "parse_elems k (strings_Join (map json_Marshal xs) '','' @ CHR '']'' # r) =
        Some (map json_raw xs, r)"
      using assms False n k by (intro parse_elems_Join) auto
    with c k show ?thesis
      using skip_ws_value_head [OF c(2)] by (simp add: value_head_def)
  qed
qed

lemma parses_JObj:
  assumes "\<forall>(k, v) \<in> set m. parses v"
  shows "parses (JObj m)"
  unfolding parses_def
proof (intro allI impI)
  fix n r assume n: "length (json_Marshal (JObj m)) \<le> n"
  then obtain k where k: "n = Suc k" by (cases n) auto
  show "parse_value n (json_Marshal (JObj m) @ r) = Some (json_raw (JObj m), r)"
  proof (cases "m = []")
    case True
    with k show ?thesis by simp
  next
    case False
    have "\<forall>x \<in> set (map json_member m). \<exists>c cs. x = c # cs \<and> value_head c"
      by (auto simp: json_member_head)
    then have "\<exists>c cs. strings_Join (map json_member m) '','' = c # cs \<and> value_head c"
      using False by (intro Join_head) simp_all
    then obtain c cs where c: "strings_Join (map json_member m) '','' = c # cs" "value_head c"
      by blast
    have "parse_members k (strings_Join (map json_member m) '','' @ CHR ''}'' # r) =
        Some (map clean_member m, r)"
    proof (rule parse_members_Join [OF assms False])
      show "length (strings_Join (map json_member m) '','') < k" using n k by simp
    qed
    with c k show ?thesis
      using skip_ws_value_head [OF c(2)] by (simp add: value_head_def del: parse_members.simps)
  qed
qed

lemma parses_all: "json_nums_ok v \<Longrightarrow> parses v"
proof (induction v)
  case (JNum i)
  obtain c cs where c: "int_digits i = c # cs" "value_head c"
    using json_Marshal_head [of "JNum i"] by auto
  have num: "c \<noteq> CHR ''{'' \<and> c \<noteq> CHR ''['' \<and> c \<noteq> dquote \<and> c \<noteq> CHR ''n'' \<and> c \<noteq> CHR ''t'' \<and> c \<noteq> CHR ''f''"
  proof -
    obtain d ds where "nat_digits (nat i) = d # ds" "is_digit d" by (rule digit_head)
    with c(1) have "c = CHR ''-'' \<or> is_digit c" by (auto simp: int_digits_def split: if_splits)
    then show ?thesis by (auto simp: is_digit_def)
  qed
  show ?case unfolding parses_def
  proof (intro allI impI)
    fix n r assume "length (json_Marshal (JNum i)) \<le> n" and r: "ends_value r"
    then obtain k where "n = Suc k" using c(1) by (cases n) auto
    moreover have "parse_number (c # cs @ r) = Some (JNum i, r)"
      using parse_number_digits [of r i] r c(1) by simp
    ultimately show "parse_value n (json_Marshal (JNum i) @ r) = Some (json_raw (JNum i), r)"
      using c num skip_ws_value_head [OF c(2)] by simp
  qed
next
  case (JStr s)
  show ?case unfolding parses_def
  proof (intro allI impI)
    fix n r assume "length (json_Marshal (JStr s)) \<le> n"
    then obtain k where "n = Suc k" by (cases n) (auto simp: json_string_def)
    then show "parse_value n (json_Marshal (JStr s) @ r) = Some (json_raw (JStr s), r)"
      using json_unquote_esc [of s r] by (simp add: json_string_def)
  qed
next
  case (JArr xs)
  then show ?case by (intro parses_JArr) (auto simp: list_all_iff)
next
  case (JObj m)
  then show ?case by (intro parses_JObj) (fastforce simp: list_all_iff)
next
  case (JBool b)
  show ?case unfolding parses_def
    by (intro allI impI, case_tac n; cases b) (auto simp: strip_lit_def)
next
  case JNull
  show ?case unfolding parses_def
    by (intro allI impI, case_tac n) (auto simp: strip_lit_def)
qed simp

lemma json_Parse_Marshal: "json_nums_ok v \<Longrightarrow> json_Parse (json_Marshal v) = Some (json_raw v)"
proof -
  assume "json_nums_ok v"
  then have "parses v" by (rule parses_all)
  then have "parse_value (Suc (length (json_Marshal v))) (json_Marshal v @ []) =
      Some (json_raw v, [])"
    unfolding parses_def by (metis ends_value_seps(4) lessI less_imp_le)
  then show ?thesis by (simp only: json_Parse_def append_Nil2) simp
qed

lemma json_Unmarshal_Marshal:
  "json_nums_ok v \<Longrightarrow> json_Unmarshal (json_Marshal v) = Some (json_clean v)"
  by (simp add: json_Unmarshal_def json_Parse_Marshal json_any_raw)

lemma json_wf_nums: "json_wf v \<Longrightarrow> json_nums_ok v"
  by (induction v) (auto simp: list_all_iff)

lemma json_clean_wf [simp]: "json_wf v \<Longrightarrow> json_clean v = v"
proof (induction v)
  case (JArr xs)
  then show ?case by (auto simp: list_all_iff intro: map_idI)
next
  case (JObj m)
  have "map (\<lambda>(k, v). (to_valid_utf8 k, json_clean v)) m = m"
    using JObj by (intro map_idI) (fastforce simp: list_all_iff)
  moreover have "fold (\<lambda>(k, v). map_put k v) m [] = m"
    using JObj.prems fold_map_put_distinct [of "[]" m] by simp
  ultimately show ?case by simp
qed simp_all

text \<open>Encoding is injective on well-formed values: equal bytes, equal values.\<close>

lemma json_Marshal_inject:
  "json_wf v \<Longrightarrow> json_wf w \<Longrightarrow> json_Marshal v = json_Marshal w \<Longrightarrow> v = w"
  by (metis json_Unmarshal_Marshal json_clean_wf json_wf_nums option.inject)

end
