(* ===== verification/GoTime.thy ===== *)
theory GoTime
  imports Json
begin

text \<open>
  Package \<open>time\<close> as the broker uses it: instants, durations, comparison, and the RFC 3339
  text form that \<open>Time.MarshalJSON\<close> and \<open>Format(time.RFC3339Nano)\<close> produce.

  A \<open>time\<close> is an instant (nanoseconds since 1970-01-01T00:00:00Z) and the offset of its
  location east of UTC in seconds; comparison looks at the instant only. A \<open>duration\<close> is Go's
  64-bit signed count of nanoseconds, so its arithmetic wraps around.

  The result of the theory: two times with the same JSON text are the same time.
\<close>

record time =
  wall :: int
  zone :: int

type_synonym duration = "64 word"

abbreviation utc_time :: "int \<Rightarrow> time" where
  "utc_time n \<equiv> \<lparr>wall = n, zone = 0\<rparr>"

definition Time_UTC :: "time \<Rightarrow> time" where
  "Time_UTC t = t\<lparr>zone := 0\<rparr>"

definition Time_After :: "time \<Rightarrow> time \<Rightarrow> bool" where
  "Time_After t u \<longleftrightarrow> wall u < wall t"

definition Time_Before :: "time \<Rightarrow> time \<Rightarrow> bool" where
  "Time_Before t u \<longleftrightarrow> wall t < wall u"

definition Time_Add :: "time \<Rightarrow> duration \<Rightarrow> time" where
  "Time_Add t d = t\<lparr>wall := wall t + sint d\<rparr>"

definition Time_Unix :: "time \<Rightarrow> int" where
  "Time_Unix t = wall t div 10 ^ 9"

text \<open>\<open>t.Sub(u)\<close> saturates at the bounds of the 64-bit duration.\<close>

definition Time_Sub :: "time \<Rightarrow> time \<Rightarrow> duration" where
  "Time_Sub t u = word_of_int (max (- (2 ^ 63)) (min (2 ^ 63 - 1) (wall t - wall u)))"

definition time_Second :: duration where "time_Second = 1000000000"
definition time_Minute :: duration where "time_Minute = 60000000000"
definition time_Hour :: duration where "time_Hour = 3600000000000"

lemma Time_simps [simp]:
  "wall (Time_UTC t) = wall t" "zone (Time_UTC t) = 0"
  "wall (Time_Add t d) = wall t + sint d" "zone (Time_Add t d) = zone t"
  by (simp_all add: Time_UTC_def Time_Add_def)

text \<open>The zero time, the first instant of year 1.\<close>

definition zero_time :: time where
  "zero_time = \<lparr>wall = - 62135596800 * 10 ^ 9, zone = 0\<rparr>"

definition Time_IsZero :: "time \<Rightarrow> bool" where
  "Time_IsZero t \<longleftrightarrow> wall t = wall zero_time"

subsection \<open>The calendar\<close>

text \<open>
  The proleptic Gregorian date of a day number, counted from 0001-01-01: cycles of 400, 100,
  4 and 1 years, where the last year of a cycle takes the leap day.
\<close>

definition civil_year :: "int \<Rightarrow> int \<times> nat" where
  "civil_year d =
     (let n400 = d div 146097; d1 = d mod 146097;
          n100 = min 3 (d1 div 36524); d2 = d1 - 36524 * n100;
          n4 = d2 div 1461; d3 = d2 mod 1461;
          n1 = min 3 (d3 div 365); yday = d3 - 365 * n1
      in (1 + 400 * n400 + 100 * n100 + 4 * n4 + n1, nat yday))"

definition is_leap :: "int \<Rightarrow> bool" where
  "is_leap y \<longleftrightarrow> y mod 4 = 0 \<and> (y mod 100 \<noteq> 0 \<or> y mod 400 = 0)"

definition month_lengths :: "bool \<Rightarrow> nat list" where
  "month_lengths leap = [31, if leap then 29 else 28, 31, 30, 31, 30, 31, 31, 30, 31, 30, 31]"

fun month_day :: "nat list \<Rightarrow> nat \<Rightarrow> nat \<Rightarrow> nat \<times> nat" where
  "month_day [] m d = (m, d + 1)"
| "month_day (l # ls) m d = (if d < l then (m, d + 1) else month_day ls (m + 1) (d - l))"

text \<open>Local date and time of day of a \<open>time\<close>.\<close>

definition local_sec :: "time \<Rightarrow> int" where
  "local_sec t = wall t div 10 ^ 9 + zone t"

definition time_year_yday :: "time \<Rightarrow> int \<times> nat" where
  "time_year_yday t = civil_year (local_sec t div 86400 + 719162)"

subsection \<open>RFC 3339 with nanoseconds\<close>

definition digit_char :: "int \<Rightarrow> char" where
  "digit_char n = char_of (nat (48 + n mod 10))"

fun pad_digits :: "nat \<Rightarrow> int \<Rightarrow> string" where
  "pad_digits 0 n = []"
| "pad_digits (Suc w) n = pad_digits w (n div 10) @ [digit_char n]"

definition trim_zeros :: "string \<Rightarrow> string" where
  "trim_zeros s = rev (dropWhile (\<lambda>c. c = CHR ''0'') (rev s))"

definition fmt_frac :: "int \<Rightarrow> string" where
  "fmt_frac ns = (if ns = 0 then [] else CHR ''.'' # trim_zeros (pad_digits 9 ns))"

definition fmt_zone :: "int \<Rightarrow> string" where
  "fmt_zone off =
     (if off = 0 then ''Z''
      else (if off < 0 \<and> \<bar>off\<bar> div 60 \<noteq> 0 then CHR ''-'' else CHR ''+'')
           # pad_digits 2 (\<bar>off\<bar> div 3600) @ '':'' @ pad_digits 2 (\<bar>off\<bar> div 60 mod 60))"

definition fmt_fields :: "int \<Rightarrow> nat \<Rightarrow> nat \<Rightarrow> int \<Rightarrow> int \<Rightarrow> int \<Rightarrow> string" where
  "fmt_fields y mon day sod ns off =
     pad_digits 4 y @ ''-'' @ pad_digits 2 (int mon) @ ''-'' @ pad_digits 2 (int day)
       @ ''T'' @ pad_digits 2 (sod div 3600) @ '':'' @ pad_digits 2 (sod div 60 mod 60)
       @ '':'' @ pad_digits 2 (sod mod 60) @ fmt_frac ns @ fmt_zone off"

text \<open>
  \<open>None\<close> is the error of \<open>MarshalJSON\<close>: a year outside 0 to 9999, or an offset whose hour
  exceeds 23.
\<close>

definition fmt_time :: "time \<Rightarrow> string option" where
  "fmt_time t =
     (let (y, yday) = time_year_yday t;
          (mon, day) = month_day (month_lengths (is_leap y)) 1 yday;
          sod = local_sec t mod 86400
      in if y < 0 \<or> 9999 < y \<or> 24 * 3600 \<le> \<bar>zone t\<bar> then None
         else Some (fmt_fields y mon day sod (wall t mod 10 ^ 9) (zone t)))"

text \<open>
  \<open>Time.Format\<close> with the layouts \<open>RFC3339Nano\<close> and \<open>2006-01-02T15:04:05.999Z07:00\<close>, which
  print every year: at least four digits, with a sign for a negative one.
\<close>

definition fmt_year :: "int \<Rightarrow> string" where
  "fmt_year y =
     (if \<bar>y\<bar> \<le> 9999 then (if y < 0 then ''-'' else []) @ pad_digits 4 \<bar>y\<bar> else int_digits y)"

definition Format_layout :: "string \<Rightarrow> time \<Rightarrow> string" where
  "Format_layout frac t =
     (let (y, yday) = time_year_yday t;
          (mon, day) = month_day (month_lengths (is_leap y)) 1 yday;
          sod = local_sec t mod 86400
      in fmt_year y @ ''-'' @ pad_digits 2 (int mon) @ ''-'' @ pad_digits 2 (int day)
       @ ''T'' @ pad_digits 2 (sod div 3600) @ '':'' @ pad_digits 2 (sod div 60 mod 60)
       @ '':'' @ pad_digits 2 (sod mod 60) @ frac @ fmt_zone (zone t))"

definition Format_RFC3339Nano :: "time \<Rightarrow> string" where
  "Format_RFC3339Nano t = Format_layout (fmt_frac (wall t mod 10 ^ 9)) t"

definition Format_Milli :: "time \<Rightarrow> string" where
  "Format_Milli t =
     Format_layout (let ds = trim_zeros (pad_digits 3 (wall t mod 10 ^ 9 div 10 ^ 6))
                    in if ds = [] then [] else CHR ''.'' # ds) t"

subsection \<open>The text determines the time\<close>

lemma byte_digit_char: "byte (digit_char n) = nat (48 + n mod 10)"
proof -
  have "nat (48 + n mod 10) < 256" using pos_mod_bound [of 10 n] by linarith
  then show ?thesis by (simp add: digit_char_def byte_char_of del: of_char_of)
qed

lemma digit_char_inject: "digit_char n = digit_char m \<longleftrightarrow> n mod 10 = m mod 10"
proof
  assume "digit_char n = digit_char m"
  then have "nat (48 + n mod 10) = nat (48 + m mod 10)" by (metis byte_digit_char)
  then show "n mod 10 = m mod 10"
    using pos_mod_sign [of 10 n] pos_mod_sign [of 10 m] by linarith
qed (simp add: digit_char_def)

lemma is_digit_digit_char [simp]: "is_digit (digit_char n)"
  using pos_mod_sign [of 10 n] pos_mod_bound [of 10 n]
  by (simp add: is_digit_def byte_digit_char) linarith

lemma length_pad_digits [simp]: "length (pad_digits w n) = w"
  by (induction w arbitrary: n) simp_all

lemma pad_digits_are_digits: "c \<in> set (pad_digits w n) \<Longrightarrow> is_digit c"
  by (induction w arbitrary: n) auto

lemma pad_digits_inject:
  "pad_digits w n = pad_digits w m \<Longrightarrow> 0 \<le> n \<Longrightarrow> n < 10 ^ w \<Longrightarrow> 0 \<le> m \<Longrightarrow> m < 10 ^ w \<Longrightarrow> n = m"
proof (induction w arbitrary: n m)
  case (Suc w)
  then have d: "n mod 10 = m mod 10" and p: "pad_digits w (n div 10) = pad_digits w (m div 10)"
    by (simp_all add: digit_char_inject)
  have "n div 10 = m div 10"
    using Suc.prems by (intro Suc.IH p) (auto simp: div_less_iff_less_mult pos_imp_zdiv_nonneg_iff)
  with d show ?case by (metis div_mult_mod_eq)
qed simp

lemma trim_zeros_snoc:
  "trim_zeros (s @ [c]) = (if c = CHR ''0'' then trim_zeros s else s @ [c])"
  by (simp add: trim_zeros_def)

lemma trim_zeros_split: "\<exists>k. s = trim_zeros s @ replicate k (CHR ''0'')"
proof (induction s rule: rev_induct)
  case (snoc c s)
  then obtain k where k: "s = trim_zeros s @ replicate k (CHR ''0'')" by blast
  show ?case
  proof (cases "c = CHR ''0''")
    case True
    have "s @ [c] = trim_zeros s @ replicate (Suc k) (CHR ''0'')"
      using k True by (metis append_assoc replicate_Suc replicate_append_same)
    with True show ?thesis unfolding trim_zeros_snoc by (intro exI [of _ "Suc k"]) simp
  next
    case False
    then show ?thesis by (simp add: trim_zeros_snoc)
  qed
qed (simp add: trim_zeros_def)

lemma trim_zeros_inject:
  assumes "trim_zeros s = trim_zeros t" and "length s = length t"
  shows "s = t"
proof -
  obtain j where j: "s = trim_zeros s @ replicate j (CHR ''0'')" using trim_zeros_split by blast
  obtain k where k: "t = trim_zeros t @ replicate k (CHR ''0'')" using trim_zeros_split by blast
  have "length s = length (trim_zeros s) + j" by (subst j) simp
  moreover have "length t = length (trim_zeros t) + k" by (subst k) simp
  ultimately have "j = k" using assms by simp
  with assms j k show ?thesis by metis
qed

lemma fmt_frac_inject:
  assumes "fmt_frac a = fmt_frac b" and "0 \<le> a" "a < 10 ^ 9" "0 \<le> b" "b < 10 ^ 9"
  shows "a = b"
proof (cases "a = 0 \<or> b = 0")
  case True
  with assms(1) show ?thesis by (auto simp: fmt_frac_def split: if_splits)
next
  case False
  with assms(1) have "trim_zeros (pad_digits 9 a) = trim_zeros (pad_digits 9 b)"
    by (simp add: fmt_frac_def)
  then have "pad_digits 9 a = pad_digits 9 b" by (rule trim_zeros_inject) simp
  then show ?thesis using assms by (rule_tac pad_digits_inject [of 9]) simp_all
qed

definition frac_char :: "char \<Rightarrow> bool" where
  "frac_char c \<longleftrightarrow> is_digit c \<or> c = CHR ''.''"

lemma fmt_frac_chars: "c \<in> set (fmt_frac n) \<Longrightarrow> frac_char c"
  by (auto simp: fmt_frac_def trim_zeros_def frac_char_def split: if_splits
      dest!: set_dropWhileD pad_digits_are_digits)

lemma fmt_zone_head: "takeWhile frac_char (fmt_zone z) = []"
  by (simp add: fmt_zone_def frac_char_def is_digit_def)

lemma fmt_frac_zone_split:
  assumes "fmt_frac a @ fmt_zone z = fmt_frac b @ fmt_zone w"
  shows "fmt_frac a = fmt_frac b \<and> fmt_zone z = fmt_zone w"
proof -
  have t: "takeWhile frac_char (fmt_frac n @ fmt_zone y) = fmt_frac n" for n y
    using fmt_frac_chars [of _ n] by (simp add: takeWhile_append fmt_zone_head)
  have "fmt_frac a = fmt_frac b" using t [of a z] t [of b w] assms by metis
  with assms show ?thesis by simp
qed

text \<open>The zone field determines a whole-minute offset below a day.\<close>

lemma fmt_zone_inject:
  assumes "fmt_zone z = fmt_zone w"
    and "\<bar>z\<bar> < 86400" "z mod 60 = 0" "\<bar>w\<bar> < 86400" "w mod 60 = 0"
  shows "z = w"
proof (cases "z = 0 \<or> w = 0")
  case True
  with assms(1) show ?thesis by (auto simp: fmt_zone_def split: if_splits)
next
  case False
  define u v where uv: "u = \<bar>z\<bar> div 60" "v = \<bar>w\<bar> div 60"
  have z: "\<bar>z\<bar> = 60 * u" and w: "\<bar>w\<bar> = 60 * v"
    using assms(3,5) by (simp_all add: uv mod_0_imp_dvd)
  have nz: "u \<noteq> 0" "v \<noteq> 0" and b: "0 \<le> u" "u < 1440" "0 \<le> v" "v < 1440"
    using False assms z w by auto
  have h: "\<bar>z\<bar> div 3600 = u div 60" "\<bar>w\<bar> div 3600 = v div 60" using z w by auto
  have eq: "(if z < 0 then CHR ''-'' else CHR ''+'') # pad_digits 2 (u div 60) @ '':'' @ pad_digits 2 (u mod 60)
      = (if w < 0 then CHR ''-'' else CHR ''+'') # pad_digits 2 (v div 60) @ '':'' @ pad_digits 2 (v mod 60)"
    using assms(1) False nz by (simp add: fmt_zone_def h flip: uv)
  then have sg: "z < 0 \<longleftrightarrow> w < 0" by (simp split: if_splits)
  have hm: "pad_digits 2 (u div 60) = pad_digits 2 (v div 60)" "pad_digits 2 (u mod 60) = pad_digits 2 (v mod 60)"
    using eq by (simp_all add: append_eq_append_conv)
  have "u div 60 = v div 60" using b by (intro pad_digits_inject [OF hm(1)]) auto
  moreover have "u mod 60 = v mod 60"
    using pos_mod_bound [of 60 u] pos_mod_bound [of 60 v] by (intro pad_digits_inject [OF hm(2)]) auto
  ultimately have "u = v" by (metis div_mult_mod_eq)
  with z w sg show ?thesis by linarith
qed

lemma capped_div:
  fixes q :: int
  assumes "0 \<le> q" "0 < k" "q \<le> 4 * k"
  shows "0 \<le> min 3 (q div k)" "min 3 (q div k) \<le> 3" "0 \<le> q - k * min 3 (q div k)"
    "q - k * min 3 (q div k) \<le> k"
proof -
  have q: "q = k * (q div k) + q mod k" "0 \<le> q mod k" "q mod k < k" "0 \<le> q div k"
    using assms by (simp_all add: pos_imp_zdiv_nonneg_iff)
  show "0 \<le> min 3 (q div k)" "min 3 (q div k) \<le> 3" using q(4) by simp_all
  have "q div k \<le> 3 \<or> 4 \<le> q div k" by linarith
  then have "0 \<le> q - k * min 3 (q div k) \<and> q - k * min 3 (q div k) \<le> k"
  proof
    assume "q div k \<le> 3"
    then have m: "min 3 (q div k) = q div k" by simp
    show ?thesis unfolding m using q(1-3) by (intro conjI; linarith)
  next
    assume four: "4 \<le> q div k"
    then have "k * 4 \<le> k * (q div k)" using assms(2) by simp
    moreover have m: "min 3 (q div k) = 3" using four by simp
    ultimately show ?thesis unfolding m using q(1-3) assms(3) by (intro conjI; linarith)
  qed
  then show "0 \<le> q - k * min 3 (q div k)" "q - k * min 3 (q div k) \<le> k" by simp_all
qed

lemma civil_year_inverse:
  assumes "civil_year d = (y, yday)"
  shows "d = 365 * (y - 1) + (y - 1) div 4 - (y - 1) div 100 + (y - 1) div 400 + int yday"
    and "yday \<le> 365"
proof -
  define n400 d1 n100 d2 n4 d3 n1 where defs: "n400 = d div 146097" "d1 = d mod 146097"
    "n100 = min 3 (d1 div 36524)" "d2 = d1 - 36524 * n100" "n4 = d2 div 1461" "d3 = d2 mod 1461"
    "n1 = min 3 (d3 div 365)"
  have y: "y = 1 + 400 * n400 + 100 * n100 + 4 * n4 + n1" and yd: "yday = nat (d3 - 365 * n1)"
    using assms unfolding civil_year_def Let_def defs [symmetric] by simp_all
  have d1: "0 \<le> d1" "d1 \<le> 4 * 36524" and d: "d = 146097 * n400 + d1"
    unfolding defs(1,2) using pos_mod_bound [of 146097 d] by simp_all
  have n100: "0 \<le> n100" "n100 \<le> 3" "0 \<le> d2" "d2 \<le> 36524"
    unfolding defs(3,4) by (rule capped_div [OF d1(1) _ d1(2)]; simp)+
  have d2: "d2 = 1461 * n4 + d3" "0 \<le> d3" "d3 \<le> 4 * 365"
    unfolding defs(5,6) using pos_mod_bound [of 1461 d2] by simp_all
  have n4: "0 \<le> n4" "n4 \<le> 24" using d2 n100(3,4) by linarith+
  have n1: "0 \<le> n1" "n1 \<le> 3" "0 \<le> d3 - 365 * n1" "d3 - 365 * n1 \<le> 365"
    unfolding defs(7) by (rule capped_div [OF d2(2) _ d2(3)]; simp)+
  have "(y - 1) div 400 = n400"
    by (rule int_div_pos_eq [where r = "100 * n100 + 4 * n4 + n1"]) (use y n100(1,2) n4 n1(1,2) in simp_all)
  moreover have "(y - 1) div 100 = 4 * n400 + n100"
    by (rule int_div_pos_eq [where r = "4 * n4 + n1"]) (use y n4 n1(1,2) in simp_all)
  moreover have "(y - 1) div 4 = 100 * n400 + 25 * n100 + n4"
    by (rule int_div_pos_eq [where r = n1]) (use y n1(1,2) in simp_all)
  ultimately show "d = 365 * (y - 1) + (y - 1) div 4 - (y - 1) div 100 + (y - 1) div 400 + int yday"
    using y yd n1(3) d d2(1) defs(4) by simp
  show "yday \<le> 365" using yd n1 by simp
qed

lemma month_day_ge: "m \<le> fst (month_day ls m d)"
  by (induction ls m d rule: month_day.induct) auto

lemma month_day_inject: "month_day ls m d = month_day ls m e \<Longrightarrow> d = e"
proof (induction ls arbitrary: m d e)
  case (Cons l ls)
  have "fst (month_day ls (m + 1) x) \<noteq> m" for x using month_day_ge [of "m + 1" ls x] by simp
  then have "(month_day ls (m + 1) x = (m, k)) = False" "((m, k) = month_day ls (m + 1) x) = False"
    for x k by (metis fst_conv)+
  then have lt: "d < l \<longleftrightarrow> e < l" using Cons.prems by (auto simp del: Suc_eq_plus1 split: if_splits)
  show ?case
  proof (cases "d < l")
    case True
    with lt Cons.prems show ?thesis by simp
  next
    case False
    with lt Cons.prems have "month_day ls (m + 1) (d - l) = month_day ls (m + 1) (e - l)" by simp
    then have "d - l = e - l" by (rule Cons.IH)
    with False lt show ?thesis by linarith
  qed
qed simp

lemma month_day_bounds:
  "\<forall>l \<in> set ls. l \<le> 31 \<Longrightarrow> d < sum_list ls + 31 \<Longrightarrow>
    fst (month_day ls m d) \<le> m + length ls \<and> snd (month_day ls m d) \<le> 31"
  by (induction ls m d rule: month_day.induct) auto

text \<open>The fields of a formatted time.\<close>

lemma fmt_timeE:
  assumes "fmt_time t = Some s"
  obtains y yday mon day sod where
    "time_year_yday t = (y, yday)" "month_day (month_lengths (is_leap y)) 1 yday = (mon, day)"
    "sod = local_sec t mod 86400" "0 \<le> y" "y \<le> 9999" "\<bar>zone t\<bar> < 86400"
    "s = fmt_fields y mon day sod (wall t mod 10 ^ 9) (zone t)"
proof -
  obtain y yday where y: "time_year_yday t = (y, yday)" by (cases "time_year_yday t")
  obtain mon day where m: "month_day (month_lengths (is_leap y)) 1 yday = (mon, day)"
    by (cases "month_day (month_lengths (is_leap y)) 1 yday")
  from assms y m show ?thesis
    by (intro that [OF y m refl]) (simp_all add: fmt_time_def Let_def split: if_splits)
qed

lemma date_fields_bounded:
  assumes "time_year_yday t = (y, yday)" and "month_day (month_lengths l) 1 yday = (mon, day)"
  shows "mon < 100" "day < 100"
proof -
  have "yday \<le> 365" using assms(1) civil_year_inverse(2) by (simp add: time_year_yday_def)
  moreover have "365 \<le> sum_list (month_lengths l)" "\<forall>x \<in> set (month_lengths l). x \<le> 31"
    "length (month_lengths l) = 12"
    by (simp_all add: month_lengths_def)
  ultimately have "mon \<le> 13 \<and> day \<le> 31"
    using month_day_bounds [of "month_lengths l" yday 1] assms(2) by simp
  then show "mon < 100" "day < 100" by simp_all
qed

lemma sod_inject:
  fixes a b :: int
  assumes "a div 3600 = b div 3600" "a div 60 mod 60 = b div 60 mod 60" "a mod 60 = b mod 60"
  shows "a = b"
proof -
  have "x div 3600 = x div 60 div 60" for x :: int by (simp flip: zdiv_zmult2_eq)
  with assms(1,2) have "a div 60 = b div 60" by (metis div_mult_mod_eq)
  with assms(3) show ?thesis by (metis div_mult_mod_eq)
qed

lemma fmt_time_inject:
  assumes "fmt_time t = Some s" "fmt_time u = Some s" "zone t mod 60 = 0" "zone u mod 60 = 0"
  shows "t = u"
proof -
  from assms(1) obtain y yd m d a where t: "time_year_yday t = (y, yd)"
    "month_day (month_lengths (is_leap y)) 1 yd = (m, d)" "a = local_sec t mod 86400"
    "0 \<le> y" "y \<le> 9999" "\<bar>zone t\<bar> < 86400" and st: "s = fmt_fields y m d a (wall t mod 10 ^ 9) (zone t)" by (rule fmt_timeE)
  from assms(2) obtain y' yd' m' d' b where u: "time_year_yday u = (y', yd')"
    "month_day (month_lengths (is_leap y')) 1 yd' = (m', d')" "b = local_sec u mod 86400"
    "0 \<le> y'" "y' \<le> 9999" "\<bar>zone u\<bar> < 86400" and su: "s = fmt_fields y' m' d' b (wall u mod 10 ^ 9) (zone u)" by (rule fmt_timeE)
  have eqs: "pad_digits 4 y = pad_digits 4 y'" "pad_digits 2 (int m) = pad_digits 2 (int m')"
    "pad_digits 2 (int d) = pad_digits 2 (int d')"
    "pad_digits 2 (a div 3600) = pad_digits 2 (b div 3600)"
    "pad_digits 2 (a div 60 mod 60) = pad_digits 2 (b div 60 mod 60)"
    "pad_digits 2 (a mod 60) = pad_digits 2 (b mod 60)"
    "fmt_frac (wall t mod 10 ^ 9) @ fmt_zone (zone t) = fmt_frac (wall u mod 10 ^ 9) @ fmt_zone (zone u)"
    using trans [OF st [symmetric] su] unfolding fmt_fields_def by (simp_all del: pad_digits.simps)
  have ab: "0 \<le> a" "a < 86400" "0 \<le> b" "b < 86400" using t(3) u(3) by simp_all
  have "y = y'" using t(4,5) u(4,5) by (intro pad_digits_inject [OF eqs(1)]) simp_all
  moreover have "m = m'" "d = d'"
    using pad_digits_inject [OF eqs(2)] pad_digits_inject [OF eqs(3)]
      date_fields_bounded [OF t(1,2)] date_fields_bounded [OF u(1,2)] by simp_all
  ultimately have day: "local_sec t div 86400 = local_sec u div 86400"
    using t(1,2) u(1,2) month_day_inject [of "month_lengths (is_leap y)" 1 yd yd']
      civil_year_inverse(1) [of "local_sec t div 86400 + 719162" y yd]
      civil_year_inverse(1) [of "local_sec u div 86400 + 719162" y' yd']
    by (simp add: time_year_yday_def)
  have "a div 3600 = b div 3600" "a div 60 mod 60 = b div 60 mod 60" "a mod 60 = b mod 60"
    using ab by (auto intro!: pad_digits_inject [OF eqs(4)] pad_digits_inject [OF eqs(5)]
        pad_digits_inject [OF eqs(6)] simp: zdiv_mono1 pos_imp_zdiv_nonneg_iff order.strict_trans [OF pos_mod_bound])
  then have "a = b" by (rule sod_inject)
  with day t(3) u(3) have sec: "local_sec t = local_sec u" by (metis div_mult_mod_eq)
  from fmt_frac_zone_split [OF eqs(7)]
  have "wall t mod 10 ^ 9 = wall u mod 10 ^ 9" "zone t = zone u"
    using fmt_zone_inject assms(3,4) t(6) u(6) by (auto intro!: fmt_frac_inject)
  with sec show ?thesis by (simp add: local_sec_def) (metis div_mult_mod_eq time.equality unit.exhaust)
qed

lemma is_digit_ascii: "is_digit c \<Longrightarrow> byte c < 0x80"
  by (simp add: is_digit_def)

lemma fmt_zone_ascii: "c \<in> set (fmt_zone z) \<Longrightarrow> byte c < 0x80"
  by (auto simp: fmt_zone_def split: if_splits dest!: pad_digits_are_digits is_digit_ascii
      simp del: pad_digits.simps)

lemma fmt_frac_ascii: "c \<in> set (fmt_frac n) \<Longrightarrow> byte c < 0x80"
  by (auto dest!: fmt_frac_chars simp: frac_char_def is_digit_ascii)

lemma fmt_time_valid_utf8: "fmt_time t = Some s \<Longrightarrow> valid_utf8 s"
  by (erule fmt_timeE, rule ascii_valid_utf8)
    (auto simp: fmt_fields_def fmt_zone_ascii fmt_frac_ascii simp del: pad_digits.simps
      dest!: pad_digits_are_digits is_digit_ascii)

end
