(* ===== verification/Protocol.thy ===== *)
theory Protocol
  imports GoTime
begin

text \<open>
  Package \<open>protocol\<close> (\<open>src/protocol/types.go\<close>): the four wire types, the revocation entry,
  the verify errors and the JSON value that \<open>json.Marshal\<close> writes for the wire types (field order and names from the struct tags). An error value of the source
  is a \<open>goerror\<close>: one of the protocol's sentinel errors, a fresh text, or a text wrapped
  around another error (\<open>%w\<close>). A run-time panic of a library call is also a value, so that no
  path of the code is lost.
\<close>

record VerifyError =
  VE_Code :: string
  VE_Message :: string

datatype goerror =
    Sentinel VerifyError
  | ErrText string
  | Wrap string goerror
  | Panic string

definition VerifyError_Error :: "VerifyError \<Rightarrow> string" where
  "VerifyError_Error e = VE_Code e @ '': '' @ VE_Message e"

fun error_text :: "goerror \<Rightarrow> string" where
  "error_text (Sentinel e) = VerifyError_Error e"
| "error_text (ErrText s) = s"
| "error_text (Wrap s e) = s @ error_text e"
| "error_text (Panic s) = s"

definition Version :: string where "Version = ''hanko/v0.1''"

record Sigil =
  Sigil_ID :: string
  Sigil_Subject :: string
  Sigil_PublicKey :: "char slice"
  Sigil_CreatedAt :: time
  Sigil_ExpiresAt :: "time option"
  Sigil_Metadata :: "(string \<times> string) slice"

record CapabilityToken =
  Cap_ID :: string
  Cap_SigilID :: string
  Cap_Scope :: string
  Cap_IssuedAt :: time
  Cap_ExpiresAt :: time
  Cap_Nonce :: "char slice"

record AttestationEnvelope =
  Env_Version :: string
  Env_SigilID :: string
  Env_Caps :: "CapabilityToken slice"
  Env_Issuer :: string
  Env_IssuedAt :: time
  Env_ExpiresAt :: time
  Env_Signature :: "char slice"

record RevocationEntry =
  Rev_ID :: string
  Rev_TargetType :: string
  Rev_Reason :: string
  Rev_RevokedAt :: time
  Rev_RevokedBy :: string

type_synonym RevocationList = "RevocationEntry list"

subsection \<open>The sentinel errors\<close>

definition ErrSignatureInvalid :: VerifyError where
  "ErrSignatureInvalid = \<lparr>VE_Code = ''signature_invalid'',
     VE_Message = ''attestation signature does not match canonical JSON body''\<rparr>"

definition ErrSigilRevoked :: VerifyError where
  "ErrSigilRevoked = \<lparr>VE_Code = ''sigil_revoked'', VE_Message = ''sigil has been revoked''\<rparr>"

definition ErrCapRevoked :: VerifyError where
  "ErrCapRevoked = \<lparr>VE_Code = ''cap_revoked'', VE_Message = ''capability token has been revoked''\<rparr>"

definition ErrCapExpired :: VerifyError where
  "ErrCapExpired = \<lparr>VE_Code = ''capability_expired'', VE_Message = ''capability token is expired''\<rparr>"

definition ErrNonceReplayed :: VerifyError where
  "ErrNonceReplayed = \<lparr>VE_Code = ''nonce_replayed'',
     VE_Message = ''capability token nonce has already been used''\<rparr>"

text \<open>The message of the next error has a dash beyond ASCII (U+2014) in the source.\<close>

definition ErrReplayAttack :: VerifyError where
  "ErrReplayAttack = \<lparr>VE_Code = ''replay_attack'',
     VE_Message = ''nonce already consumed '' @ [CHR 0xE2, CHR 0x80, CHR 0x94]
       @ '' concurrent or replayed attestation rejected''\<rparr>"

definition ErrScopeMismatch :: VerifyError where
  "ErrScopeMismatch = \<lparr>VE_Code = ''scope_mismatch'',
     VE_Message = ''capability token scope does not cover the requested action''\<rparr>"

definition ErrScopeUnknown :: VerifyError where
  "ErrScopeUnknown = \<lparr>VE_Code = ''unknown_scope_rejected'',
     VE_Message = ''capability token scope is not recognized by this consumer''\<rparr>"

lemmas sentinel_defs = ErrSignatureInvalid_def ErrSigilRevoked_def ErrCapRevoked_def
  ErrCapExpired_def ErrNonceReplayed_def ErrReplayAttack_def ErrScopeMismatch_def ErrScopeUnknown_def

lemma sentinels_distinct [simp]:
  "ErrSignatureInvalid \<noteq> ErrSigilRevoked" "ErrSignatureInvalid \<noteq> ErrCapRevoked"
  "ErrSignatureInvalid \<noteq> ErrCapExpired" "ErrSignatureInvalid \<noteq> ErrReplayAttack"
  "ErrSigilRevoked \<noteq> ErrCapRevoked" "ErrSigilRevoked \<noteq> ErrCapExpired"
  "ErrSigilRevoked \<noteq> ErrReplayAttack" "ErrCapRevoked \<noteq> ErrCapExpired"
  "ErrCapRevoked \<noteq> ErrReplayAttack" "ErrCapExpired \<noteq> ErrReplayAttack"
  "ErrSigilRevoked \<noteq> ErrSignatureInvalid" "ErrCapRevoked \<noteq> ErrSignatureInvalid"
  "ErrCapExpired \<noteq> ErrSignatureInvalid" "ErrReplayAttack \<noteq> ErrSignatureInvalid"
  "ErrCapRevoked \<noteq> ErrSigilRevoked" "ErrCapExpired \<noteq> ErrSigilRevoked"
  "ErrReplayAttack \<noteq> ErrSigilRevoked" "ErrCapExpired \<noteq> ErrCapRevoked"
  "ErrReplayAttack \<noteq> ErrCapRevoked" "ErrReplayAttack \<noteq> ErrCapExpired"
  "ErrScopeMismatch \<noteq> ErrScopeUnknown" "ErrScopeUnknown \<noteq> ErrScopeMismatch"
  by (simp_all add: sentinel_defs)

subsection \<open>JSON of the signed types\<close>

definition bytes_json :: "char slice \<Rightarrow> json" where
  "bytes_json b = (case b of None \<Rightarrow> JNull | Some bs \<Rightarrow> JStr (b64_Std_Encode bs))"

text \<open>\<open>None\<close>: \<open>json.Marshal\<close> fails on a time outside the range of RFC 3339.\<close>

definition CapabilityToken_json :: "CapabilityToken \<Rightarrow> json option" where
  "CapabilityToken_json c =
     (case (fmt_time (Cap_IssuedAt c), fmt_time (Cap_ExpiresAt c)) of
        (Some ia, Some ea) \<Rightarrow>
          Some (JObj [(''id'', JStr (Cap_ID c)), (''sigil_id'', JStr (Cap_SigilID c)),
            (''scope'', JStr (Cap_Scope c)), (''issued_at'', JStr ia), (''expires_at'', JStr ea),
            (''nonce'', bytes_json (Cap_Nonce c))])
      | _ \<Rightarrow> None)"

definition caps_json :: "CapabilityToken slice \<Rightarrow> json option" where
  "caps_json cs = (case cs of None \<Rightarrow> Some JNull
     | Some xs \<Rightarrow> map_option JArr (those (map CapabilityToken_json xs)))"

definition AttestationEnvelope_json :: "AttestationEnvelope \<Rightarrow> json option" where
  "AttestationEnvelope_json e =
     (case (caps_json (Env_Caps e), fmt_time (Env_IssuedAt e), fmt_time (Env_ExpiresAt e)) of
        (Some cs, Some ia, Some ea) \<Rightarrow>
          Some (JObj [(''version'', JStr (Env_Version e)), (''sigil_id'', JStr (Env_SigilID e)),
            (''caps'', cs), (''issuer'', JStr (Env_Issuer e)), (''issued_at'', JStr ia),
            (''expires_at'', JStr ea), (''signature'', bytes_json (Env_Signature e))])
      | _ \<Rightarrow> None)"

text \<open>
  A \<open>map[string]string\<close> that may be \<open>nil\<close> is an optional association list with distinct keys;
  \<open>strmap_get\<close> is the index expression \<open>m[k]\<close>, which gives the empty string for a missing key.
  The encoder writes a map with its keys sorted.
\<close>

definition strmap_get :: "(string \<times> string) slice \<Rightarrow> string \<Rightarrow> string" where
  "strmap_get m k = (case map_of (elems m) k of None \<Rightarrow> [] | Some v \<Rightarrow> v)"

definition strmap_json :: "(string \<times> string) slice \<Rightarrow> json" where
  "strmap_json m = (case m of None \<Rightarrow> JNull
     | Some kvs \<Rightarrow> JObj (sort_key fst (map (\<lambda>(k, v). (k, JStr v)) kvs)))"

definition Sigil_json :: "Sigil \<Rightarrow> json option" where
  "Sigil_json s =
     (case (fmt_time (Sigil_CreatedAt s), Sigil_ExpiresAt s) of
        (Some ca, None) \<Rightarrow>
          Some (JObj [(''id'', JStr (Sigil_ID s)), (''subject'', JStr (Sigil_Subject s)),
            (''public_key'', bytes_json (Sigil_PublicKey s)), (''created_at'', JStr ca),
            (''metadata'', strmap_json (Sigil_Metadata s))])
      | (Some ca, Some t) \<Rightarrow>
          (case fmt_time t of
             Some ea \<Rightarrow>
               Some (JObj [(''id'', JStr (Sigil_ID s)), (''subject'', JStr (Sigil_Subject s)),
                 (''public_key'', bytes_json (Sigil_PublicKey s)), (''created_at'', JStr ca),
                 (''expires_at'', JStr ea), (''metadata'', strmap_json (Sigil_Metadata s))])
           | None \<Rightarrow> None)
      | _ \<Rightarrow> None)"

end
