(* ===== verification/Crypto.thy ===== *)
theory Crypto
  imports Protocol "HOL-Library.Multiset"
begin

text \<open>
  Package \<open>crypto\<close> (\<open>src/crypto/ed25519.go\<close>): canonical JSON, signing and verifying. The two
  primitives of Go's \<open>crypto/ed25519\<close> and the random source are arguments: \<open>ed25519\<close> holds a
  signing and a verifying function. Their documented panics on a key of the wrong length are
  kept.

  The results: the canonical bytes of a value are the encoding of the value with every object
  sorted by key, they do not depend on the order of an object's members (Go iterates its maps
  in random order), and they determine the value up to that order.
\<close>

subsection \<open>Canonical JSON\<close>

text \<open>
  \<open>json.Marshal\<close> never fails on the strings, numbers, booleans and \<open>nil\<close> that a decoded value
  holds, so the error results of \<open>marshalCanonical\<close> are never taken and it is a function into
  byte strings. Its \<open>val[k]\<close> is the lookup in the object, and its loop over the sorted keys
  writes a comma between members, which is \<open>strings_Join\<close>.
\<close>

fun marshalCanonical :: "json \<Rightarrow> bytes" where
  "marshalCanonical (JObj m) =
     (let vals = map_of (map (\<lambda>(k, v). (k, marshalCanonical v)) m);
          keys = sort (map fst m)
      in CHR ''{'' # strings_Join (map (\<lambda>k. json_string k @ '':'' @ the (vals k)) keys) '','' @ ''}'')"
| "marshalCanonical (JArr xs) = CHR ''['' # strings_Join (map marshalCanonical xs) '','' @ '']''"
| "marshalCanonical v = json_Marshal v"

definition CanonicalJSON :: "json \<Rightarrow> goerror + bytes" where
  "CanonicalJSON v =
     (case json_Unmarshal (json_Marshal v) of
        None \<Rightarrow> Inl (ErrText ''json: cannot unmarshal'')
      | Some m \<Rightarrow> Inr (marshalCanonical m))"

subsection \<open>Signing and verifying\<close>

record ed25519 =
  ed_Sign :: "bytes \<Rightarrow> bytes \<Rightarrow> bytes"
  ed_Verify :: "bytes \<Rightarrow> bytes \<Rightarrow> bytes \<Rightarrow> bool"

definition ed25519_Sign :: "ed25519 \<Rightarrow> bytes \<Rightarrow> bytes \<Rightarrow> goerror + bytes" where
  "ed25519_Sign ed priv msg =
     (if length priv \<noteq> 64 then Inl (Panic ''ed25519: bad private key length'')
      else Inr (ed_Sign ed priv msg))"

definition ed25519_Verify :: "ed25519 \<Rightarrow> bytes \<Rightarrow> bytes \<Rightarrow> bytes \<Rightarrow> goerror + bool" where
  "ed25519_Verify ed pub msg sig =
     (if length pub \<noteq> 32 then Inl (Panic ''ed25519: bad public key length'')
      else Inr (ed_Verify ed pub msg sig))"

text \<open>\<open>GenerateKey\<close> reads the random source, here its outcome.\<close>

definition GenerateKeyPair :: "goerror + bytes \<times> bytes \<Rightarrow> goerror + bytes \<times> bytes" where
  "GenerateKeyPair gen =
     (case gen of Inl err \<Rightarrow> Inl (Wrap ''hanko/crypto: key generation failed: '' err)
      | Inr (pub, priv) \<Rightarrow> Inr (pub, priv))"

definition Sign :: "ed25519 \<Rightarrow> (string \<times> json) list \<Rightarrow> bytes \<Rightarrow> goerror + bytes" where
  "Sign ed body priv =
     (case CanonicalJSON (JObj body) of
        Inl err \<Rightarrow> Inl (Wrap ''hanko/crypto: canonical JSON failed: '' err)
      | Inr canonical \<Rightarrow> ed25519_Sign ed priv canonical)"

definition Verify :: "ed25519 \<Rightarrow> (string \<times> json) list \<Rightarrow> bytes \<Rightarrow> bytes \<Rightarrow> goerror + unit" where
  "Verify ed body sig pub =
     (case CanonicalJSON (JObj body) of
        Inl err \<Rightarrow> Inl (Wrap ''hanko/crypto: canonical JSON failed: '' err)
      | Inr canonical \<Rightarrow>
          (case ed25519_Verify ed pub canonical sig of
             Inl p \<Rightarrow> Inl p
           | Inr False \<Rightarrow> Inl (ErrText ''hanko/crypto: signature verification failed'')
           | Inr True \<Rightarrow> Inr ()))"

text \<open>\<open>rand.Read\<close> fills a buffer of 16 bytes or fails; \<open>rnd\<close> is its outcome.\<close>

definition GenerateNonce :: "goerror + bytes \<Rightarrow> goerror + bytes" where
  "GenerateNonce rnd =
     (case rnd of Inl err \<Rightarrow> Inl (Wrap ''hanko/crypto: nonce generation failed: '' err)
      | Inr bs \<Rightarrow> Inr bs)"

subsection \<open>Canonical JSON is the encoding of the sorted value\<close>

fun json_sort :: "json \<Rightarrow> json" where
  "json_sort (JObj m) = JObj (sort_key fst (map (\<lambda>(k, v). (k, json_sort v)) m))"
| "json_sort (JArr xs) = JArr (map json_sort xs)"
| "json_sort v = v"

lemma map_sort_key: "map f (sort_key f xs) = sort (map f xs)"
  by (rule sym, rule properties_for_sort) simp_all

lemma map_fst_members: "map fst (map (\<lambda>(k, v). (k, f v)) m) = map fst m"
  by (simp add: comp_def case_prod_unfold)

lemma marshalCanonical_sort: "json_wf v \<Longrightarrow> marshalCanonical v = json_Marshal (json_sort v)"
proof (induction v)
  case (JArr xs)
  then show ?case by (simp add: list_all_iff cong: map_cong)
next
  case (JObj m)
  let ?s = "sort_key fst (map (\<lambda>(k, v). (k, json_sort v)) m)"
  have dist: "distinct (map fst (map (\<lambda>(k, v). (k, marshalCanonical v)) m))"
    using JObj.prems by (simp only: map_fst_members) simp
  have keys: "sort (map fst m) = map fst ?s"
    by (simp only: map_sort_key map_fst_members)
  have vals: "the (map_of (map (\<lambda>(k, v). (k, marshalCanonical v)) m) k) = json_Marshal w"
    if "(k, w) \<in> set ?s" for k w
  proof -
    from that obtain v where v: "(k, v) \<in> set m" "w = json_sort v" by auto
    then have "(k, marshalCanonical v) \<in> set (map (\<lambda>(k, v). (k, marshalCanonical v)) m)" by force
    with dist have "map_of (map (\<lambda>(k, v). (k, marshalCanonical v)) m) k = Some (marshalCanonical v)"
      by (rule map_of_mem_distinct)
    moreover have "marshalCanonical v = json_Marshal w"
      using JObj v by (fastforce simp: list_all_iff)
    ultimately show ?thesis by simp
  qed
  have "map (\<lambda>k. json_string k @ '':'' @ the (map_of (map (\<lambda>(k, v). (k, marshalCanonical v)) m) k))
      (map fst ?s) = map (\<lambda>(k, v). json_string k @ '':'' @ json_Marshal v) ?s"
    unfolding map_map comp_def
    by (rule map_cong [OF refl]) (clarify, simp only: fst_conv prod.case vals)
  then show ?case by (simp only: marshalCanonical.simps Let_def keys json_sort.simps json_Marshal.simps)
qed simp_all

lemma json_wf_sort: "json_wf v \<Longrightarrow> json_wf (json_sort v)"
proof (induction v)
  case (JObj m)
  have "distinct (map fst (sort_key fst (map (\<lambda>(k, v). (k, json_sort v)) m)))"
    using JObj.prems by (simp only: map_sort_key map_fst_members) simp
  then show ?case using JObj by (fastforce simp: list_all_iff)
qed (auto simp: list_all_iff)

lemma marshalCanonical_inject:
  "json_wf v \<Longrightarrow> json_wf w \<Longrightarrow> marshalCanonical v = marshalCanonical w \<Longrightarrow> json_sort v = json_sort w"
  by (metis json_Marshal_inject json_wf_sort marshalCanonical_sort)

lemma CanonicalJSON_clean: "json_nums_ok v \<Longrightarrow> CanonicalJSON v = Inr (marshalCanonical (json_clean v))"
  by (simp add: CanonicalJSON_def json_Unmarshal_Marshal)

lemma CanonicalJSON_wf: "json_wf v \<Longrightarrow> CanonicalJSON v = Inr (marshalCanonical v)"
  by (simp add: CanonicalJSON_clean json_wf_nums)

subsection \<open>Decoded values are well formed\<close>

lemma fold_map_put_wf:
  "distinct (map fst m) \<Longrightarrow> distinct (map fst (fold (\<lambda>(k, v). map_put k v) kvs m))"
  by (induction kvs arbitrary: m) (auto split: prod.split)

lemma set_map_put: "set (map_put k v m) \<subseteq> insert (k, v) (set m)"
  by (induction m) (auto split: if_splits)

lemma set_fold_map_put: "set (fold (\<lambda>(k, v). map_put k v) kvs m) \<subseteq> set m \<union> set kvs"
proof (induction kvs arbitrary: m)
  case (Cons kv kvs)
  show ?case using Cons [of "map_put (fst kv) (snd kv) m"] set_map_put [of "fst kv" "snd kv" m]
    by (auto simp: case_prod_unfold)
qed simp

lemma json_wf_clean: "json_nums_ok v \<Longrightarrow> json_wf (json_clean v)"
proof (induction v)
  case (JObj m)
  let ?m = "map (\<lambda>(k, v). (to_valid_utf8 k, json_clean v)) m"
  let ?f = "fold (\<lambda>(k, v). map_put k v) ?m []"
  have mem: "valid_utf8 k \<and> json_wf v" if kv: "(k, v) \<in> set ?m" for k v
  proof -
    from kv obtain k' v' where m: "(k', v') \<in> set m" "k = to_valid_utf8 k'" "v = json_clean v'"
      by auto
    then have "json_nums_ok v'" using JObj.prems by (auto simp: list_all_iff)
    with JObj.IH [OF m(1)] m show ?thesis by (simp add: valid_to_valid_utf8)
  qed
  have "set ?f \<subseteq> set ?m" using set_fold_map_put [of ?m "[]"] by simp
  then have "list_all (\<lambda>(k, v). valid_utf8 k \<and> json_wf v) ?f"
    unfolding list_all_iff using mem by blast
  moreover have "distinct (map fst ?f)" by (rule fold_map_put_wf) simp
  ultimately show ?case by (simp only: json_clean.simps json_wf.simps)
qed (auto simp: list_all_iff valid_to_valid_utf8)

subsection \<open>Canonical bytes and reordering\<close>

text \<open>
  Two values are the same up to the order of object members, at every depth. \<open>n\<close> is a
  reordering of \<open>m'\<close>, which agrees with \<open>m\<close> member by member.
\<close>

inductive json_perm :: "json \<Rightarrow> json \<Rightarrow> bool" where
  json_perm_same: "json_perm v v"
| json_perm_arr: "list_all2 json_perm xs ys \<Longrightarrow> json_perm (JArr xs) (JArr ys)"
| json_perm_obj: "map fst m = map fst m' \<Longrightarrow> list_all2 json_perm (map snd m) (map snd m') \<Longrightarrow>
    mset m' = mset n \<Longrightarrow> json_perm (JObj m) (JObj n)"

lemma filter_same_key:
  "distinct (map f xs) \<Longrightarrow> x \<in> set xs \<Longrightarrow> filter (\<lambda>y. f x = f y) xs = [x]"
  by (induction xs) (auto simp: filter_empty_conv, metis image_eqI)

lemma sort_key_mset:
  assumes "distinct (map f xs)" and eq: "mset xs = mset ys"
  shows "sort_key f xs = sort_key f ys"
proof (rule properties_for_sort_key)
  have d: "distinct (map f ys)" using assms by (metis mset_eq_imp_distinct_iff mset_map)
  show "mset (sort_key f ys) = mset xs" by (simp add: eq)
  fix k
  assume k: "k \<in> set (sort_key f ys)"
  then have "k \<in> set xs" "k \<in> set ys" using eq by (auto dest: mset_eq_setD)
  with assms(1) d k show "filter (\<lambda>x. f k = f x) (sort_key f ys) = filter (\<lambda>x. f k = f x) xs"
    by (simp add: filter_same_key flip: sort_key_const)
      (metis distinct_map distinct_sort filter_same_key set_sort)
qed simp

lemma json_perm_sort: "json_perm v w \<Longrightarrow> json_wf v \<Longrightarrow> json_sort v = json_sort w"
proof (induction rule: json_perm.induct)
  case (json_perm_arr xs ys)
  then have "list_all2 (\<lambda>x y. json_sort x = json_sort y) xs ys"
    by (auto simp: list_all2_conv_all_nth list_all_length)
  then show ?case by (simp add: list_all2_conv_all_nth list_eq_iff_nth_eq)
next
  case (json_perm_obj m m' n)
  let ?g = "\<lambda>(k, v). (k, json_sort v)"
  have len: "length m = length m'" using json_perm_obj.hyps(1) by (metis length_map)
  have same: "map ?g m = map ?g m'"
  proof (rule nth_equalityI)
    fix i assume "i < length (map ?g m)"
    then have i: "i < length m" "i < length m'" using len by simp_all
    have "fst (m ! i) = fst (m' ! i)" using json_perm_obj.hyps(1) i by (metis nth_map)
    moreover have "json_wf (snd (m ! i))"
      using json_perm_obj.prems i by (auto simp: list_all_length case_prod_unfold)
    with json_perm_obj.IH i have "json_sort (snd (m ! i)) = json_sort (snd (m' ! i))"
      by (auto simp: list_all2_conv_all_nth)
    ultimately show "map ?g m ! i = map ?g m' ! i" using i by (simp add: case_prod_unfold)
  qed (simp add: len)
  have "mset (map ?g m) = mset (map ?g n)"
    using json_perm_obj.hyps(2) by (simp only: same mset_map)
  moreover have "distinct (map fst (map ?g m))"
    using json_perm_obj.prems by (simp only: map_fst_members) simp
  ultimately show ?case by (simp add: sort_key_mset)
qed simp

lemma mset_map_permuted:
  "mset xs = mset (map f ys) \<Longrightarrow> \<exists>zs. mset zs = mset ys \<and> xs = map f zs"
proof (induction xs arbitrary: ys)
  case (Cons x xs)
  have "x \<in> set (map f ys)" unfolding mset_eq_setD [OF Cons.prems, symmetric] by simp
  then obtain y where y: "y \<in> set ys" "x = f y" by auto
  from y(1) obtain us vs where split: "ys = us @ y # vs" by (auto dest: split_list)
  define zs where "zs = us @ vs"
  have ys: "mset ys = add_mset y (mset zs)" by (simp add: zs_def split)
  have "add_mset (f y) (mset xs) = add_mset (f y) (mset (map f zs))"
    using Cons.prems by (simp add: zs_def split y(2))
  then have "mset xs = mset (map f zs)" by (rule add_mset_add_mset_same_iff [THEN iffD1])
  then obtain zs' where "mset zs' = mset zs" "xs = map f zs'" using Cons.IH by blast
  then have "mset (y # zs') = mset ys \<and> x # xs = map f (y # zs')" by (simp add: ys y(2))
  then show ?case by (rule exI)
qed simp

lemma json_sort_atom:
  "JNull = json_sort w \<longleftrightarrow> w = JNull" "JBool b = json_sort w \<longleftrightarrow> w = JBool b"
  "JNum i = json_sort w \<longleftrightarrow> w = JNum i" "JFrac a e = json_sort w \<longleftrightarrow> w = JFrac a e"
  "JStr s = json_sort w \<longleftrightarrow> w = JStr s"
  by (cases w; auto)+

lemma json_sort_perm: "json_sort v = json_sort w \<Longrightarrow> json_perm v w"
proof (induction v arbitrary: w)
  case (JArr xs)
  from JArr.prems obtain ys where w: "w = JArr ys" "map json_sort xs = map json_sort ys"
    by (cases w) auto
  then have "list_all2 json_perm xs ys"
    using JArr.IH by (auto simp: list_all2_conv_all_nth list_eq_iff_nth_eq)
  then show ?case unfolding w(1) by (rule json_perm_arr)
next
  case (JObj m)
  let ?g = "\<lambda>(k, v). (k, json_sort v)"
  from JObj.prems obtain n where w: "w = JObj n"
    and eq: "sort_key fst (map ?g m) = sort_key fst (map ?g n)" by (cases w) auto
  from eq have "mset (map ?g m) = mset (map ?g n)" by (metis mset_sort)
  then obtain m' where m': "mset m' = mset n" "map ?g m = map ?g m'"
    using mset_map_permuted by blast
  have keys: "map fst m = map fst m'" using m'(2) by (metis map_fst_members)
  have "list_all2 json_perm (map snd m) (map snd m')"
  proof (rule list_all2_all_nthI)
    show "length (map snd m) = length (map snd m')" using m'(2) by (metis length_map)
    fix i assume "i < length (map snd m)"
    then have i: "i < length m" "i < length m'" using m'(2) by (auto dest: map_eq_imp_length_eq)
    then have "json_sort (snd (m ! i)) = json_sort (snd (m' ! i))"
      using arg_cong [OF m'(2), of "\<lambda>l. snd (l ! i)"] by (simp add: case_prod_unfold)
    moreover have "snd (m ! i) \<in> Basic_BNFs.snds (m ! i)" by (cases "m ! i") simp
    ultimately show "json_perm (map snd m ! i) (map snd m' ! i)"
      using JObj.IH [OF nth_mem [OF i(1)]] i by simp
  qed
  with keys show ?case unfolding w using m'(1) by (rule json_perm_obj)
qed (simp_all add: json_sort_atom json_perm_same)

text \<open>
  C5. Canonical JSON is a function of the value and of nothing else: two well-formed values
  have the same canonical bytes exactly when they are the same up to the order of object
  members, at every depth.
\<close>

theorem CanonicalJSON_iff:
  assumes "json_wf v" and "json_wf w"
  shows "CanonicalJSON v = CanonicalJSON w \<longleftrightarrow> json_perm v w"
proof -
  have "CanonicalJSON v = CanonicalJSON w \<longleftrightarrow> marshalCanonical v = marshalCanonical w"
    using assms by (simp add: CanonicalJSON_wf)
  also have "\<dots> \<longleftrightarrow> json_sort v = json_sort w"
    using assms by (metis marshalCanonical_inject marshalCanonical_sort)
  also have "\<dots> \<longleftrightarrow> json_perm v w"
    using assms by (metis json_perm_sort json_sort_perm)
  finally show ?thesis .
qed

theorem CanonicalJSON_iff_witness:
  "CanonicalJSON (JObj [(''a'', JNum 1), (''b'', JNull)]) = CanonicalJSON (JObj [(''b'', JNull), (''a'', JNum 1)])"
proof -
  have "mset [(''a'', JNum 1), (''b'', JNull)] = mset [(''b'', JNull), (''a'', JNum 1)]" by simp
  then have "json_perm (JObj [(''a'', JNum 1), (''b'', JNull)]) (JObj [(''b'', JNull), (''a'', JNum 1)])"
    by (intro json_perm_obj [of _ "[(''a'', JNum 1), (''b'', JNull)]"]) (auto intro: json_perm_same)
  then show ?thesis
    using CanonicalJSON_iff [of "JObj [(''a'', JNum 1), (''b'', JNull)]" "JObj [(''b'', JNull), (''a'', JNum 1)]"]
    by (simp add: ascii_valid_utf8)
qed

end
