(* ===== verification/Envelope.thy ===== *)
theory Envelope
  imports Crypto
begin

text \<open>
  The signed body of an attestation envelope (\<open>envelopeBody\<close> in \<open>src/broker/broker.go\<close>) and what
  the signature over its canonical JSON covers: for texts that are valid UTF-8 and times with a
  whole-minute offset, the signed bytes determine every field of the envelope but the
  signature, capability tokens included.
\<close>

text \<open>
  \<open>json.Marshal\<close> fails when a time has no RFC 3339 text, and its output always decodes again.
  The decoded object loses the member \<open>signature\<close>.
\<close>

definition envelopeBody :: "AttestationEnvelope \<Rightarrow> goerror + (string \<times> json) list" where
  "envelopeBody env =
     (case AttestationEnvelope_json env of
        None \<Rightarrow> Inl (ErrText ''json: error calling MarshalJSON for type time.Time'')
      | Some v \<Rightarrow>
          (case json_Unmarshal (json_Marshal v) of
             Some (JObj m) \<Rightarrow> Inr (filter (\<lambda>(k, v). k \<noteq> ''signature'') m)
           | _ \<Rightarrow> Inl (ErrText ''json: cannot unmarshal'')))"

text \<open>The bytes that are signed and verified.\<close>

definition signed_bytes :: "AttestationEnvelope \<Rightarrow> bytes option" where
  "signed_bytes env =
     (case envelopeBody env of
        Inl e \<Rightarrow> None
      | Inr body \<Rightarrow> (case CanonicalJSON (JObj body) of Inl e \<Rightarrow> None | Inr c \<Rightarrow> Some c))"

subsection \<open>The body in closed form\<close>

abbreviation str_json :: "string \<Rightarrow> json" where
  "str_json s \<equiv> JStr (to_valid_utf8 s)"

lemma b64_valid_utf8: "valid_utf8 (b64_Std_Encode bs)"
proof (rule ascii_valid_utf8, rule ballI)
  have al: "list_all (\<lambda>c. byte c < 0x80) b64_std_alphabet" "length b64_std_alphabet = 64"
    by code_simp+
  fix c assume "c \<in> set (b64_Std_Encode bs)"
  then consider d where "d < 64" "c = b64_std_alphabet ! d" | "c = CHR ''=''"
    by (auto simp: b64_Std_Encode_def b64_Raw_Encode_def dest: b64_digits_less)
  then show "byte c < 0x80" by cases (use al in \<open>auto simp: list_all_length\<close>)
qed

lemma bytes_json_clean [simp]: "json_clean (bytes_json b) = bytes_json b"
  by (cases b) (simp_all add: bytes_json_def to_valid_utf8_id b64_valid_utf8)

lemma bytes_json_nums [simp]: "json_nums_ok (bytes_json b)"
  by (cases b) (simp_all add: bytes_json_def)

lemma bytes_json_sort [simp]: "json_sort (bytes_json b) = bytes_json b"
  by (cases b) (simp_all add: bytes_json_def)

lemma bytes_json_inject [simp]: "bytes_json a = bytes_json b \<longleftrightarrow> a = b"
  by (cases a; cases b) (simp_all add: bytes_json_def)

lemma fmt_time_clean: "fmt_time t = Some s \<Longrightarrow> to_valid_utf8 s = s"
  by (simp add: to_valid_utf8_id fmt_time_valid_utf8)

lemma ascii_key: "list_all (\<lambda>c. byte c < 0x80) k \<Longrightarrow> to_valid_utf8 k = k"
  by (simp add: to_valid_utf8_id ascii_valid_utf8 list_all_iff)

lemma wire_keys [simp]:
  "to_valid_utf8 ''id'' = ''id''" "to_valid_utf8 ''sigil_id'' = ''sigil_id''"
  "to_valid_utf8 ''scope'' = ''scope''" "to_valid_utf8 ''issued_at'' = ''issued_at''"
  "to_valid_utf8 ''expires_at'' = ''expires_at''" "to_valid_utf8 ''nonce'' = ''nonce''"
  "to_valid_utf8 ''version'' = ''version''" "to_valid_utf8 ''caps'' = ''caps''"
  "to_valid_utf8 ''issuer'' = ''issuer''" "to_valid_utf8 ''signature'' = ''signature''"
  by (rule ascii_key, simp)+

definition cap_fields :: "CapabilityToken \<Rightarrow> string \<Rightarrow> string \<Rightarrow> (string \<times> json) list" where
  "cap_fields c ia ea = [(''id'', str_json (Cap_ID c)), (''sigil_id'', str_json (Cap_SigilID c)),
     (''scope'', str_json (Cap_Scope c)), (''issued_at'', JStr ia), (''expires_at'', JStr ea),
     (''nonce'', bytes_json (Cap_Nonce c))]"

lemma CapabilityToken_jsonE:
  assumes "CapabilityToken_json c = Some v"
  obtains ia ea where "fmt_time (Cap_IssuedAt c) = Some ia" "fmt_time (Cap_ExpiresAt c) = Some ea"
    "json_nums_ok v" "json_clean v = JObj (cap_fields c ia ea)"
  using assms
  by (auto simp: CapabilityToken_json_def cap_fields_def fmt_time_clean split: option.splits)

lemma CapabilityToken_json_nums: "CapabilityToken_json c = Some v \<Longrightarrow> json_nums_ok v"
  by (erule CapabilityToken_jsonE)

lemma those_Some: "those (map f xs) = Some ys \<longleftrightarrow> list_all2 (\<lambda>x y. f x = Some y) xs ys"
  by (induction xs arbitrary: ys) (auto split: option.splits simp: list_all2_Cons1)

lemma caps_json_nums: "caps_json cs = Some v \<Longrightarrow> json_nums_ok v"
  by (auto simp: caps_json_def those_Some list_all2_conv_all_nth list_all_length
      split: option.splits) (metis CapabilityToken_json_nums)

definition env_fields :: "AttestationEnvelope \<Rightarrow> json \<Rightarrow> string \<Rightarrow> string \<Rightarrow> (string \<times> json) list" where
  "env_fields e cs ia ea = [(''version'', str_json (Env_Version e)),
     (''sigil_id'', str_json (Env_SigilID e)), (''caps'', json_clean cs),
     (''issuer'', str_json (Env_Issuer e)), (''issued_at'', JStr ia), (''expires_at'', JStr ea)]"

lemma AttestationEnvelope_jsonE:
  assumes "AttestationEnvelope_json e = Some v"
  obtains cs ia ea where "caps_json (Env_Caps e) = Some cs" "fmt_time (Env_IssuedAt e) = Some ia"
    "fmt_time (Env_ExpiresAt e) = Some ea" "json_nums_ok v"
    "json_clean v = JObj (env_fields e cs ia ea @ [(''signature'', bytes_json (Env_Signature e))])"
  using assms
  by (auto simp: AttestationEnvelope_json_def env_fields_def fmt_time_clean caps_json_nums
      split: option.splits)

lemma envelopeBodyE:
  assumes "envelopeBody e = Inr body"
  obtains cs ia ea where "caps_json (Env_Caps e) = Some cs" "fmt_time (Env_IssuedAt e) = Some ia"
    "fmt_time (Env_ExpiresAt e) = Some ea" "body = env_fields e cs ia ea" "json_wf (JObj body)"
proof -
  from assms obtain v where v: "AttestationEnvelope_json e = Some v"
    by (auto simp: envelopeBody_def split: option.splits)
  then obtain cs ia ea where *: "caps_json (Env_Caps e) = Some cs"
      "fmt_time (Env_IssuedAt e) = Some ia" "fmt_time (Env_ExpiresAt e) = Some ea" "json_nums_ok v"
    and clean: "json_clean v = JObj (env_fields e cs ia ea @ [(''signature'', bytes_json (Env_Signature e))])"
    by (rule AttestationEnvelope_jsonE)
  have "body = env_fields e cs ia ea"
    using assms by (simp add: envelopeBody_def v json_Unmarshal_Marshal * clean) (simp add: env_fields_def)
  moreover have "json_wf (json_clean v)" by (rule json_wf_clean) (rule *)
  then have "json_wf (JObj (env_fields e cs ia ea))" unfolding clean by simp
  ultimately show thesis using that * by blast
qed

lemma envelopeBody_eq:
  "envelopeBody e =
     (case (caps_json (Env_Caps e), fmt_time (Env_IssuedAt e), fmt_time (Env_ExpiresAt e)) of
        (Some cs, Some ia, Some ea) \<Rightarrow> Inr (env_fields e cs ia ea)
      | _ \<Rightarrow> Inl (ErrText ''json: error calling MarshalJSON for type time.Time''))"
proof (cases "AttestationEnvelope_json e")
  case None
  then show ?thesis by (auto simp: envelopeBody_def AttestationEnvelope_json_def split: option.splits)
next
  case (Some v)
  then obtain cs ia ea where *: "caps_json (Env_Caps e) = Some cs"
      "fmt_time (Env_IssuedAt e) = Some ia" "fmt_time (Env_ExpiresAt e) = Some ea" "json_nums_ok v"
    and clean: "json_clean v = JObj (env_fields e cs ia ea @ [(''signature'', bytes_json (Env_Signature e))])"
    by (rule AttestationEnvelope_jsonE)
  have "filter (\<lambda>(k, v). k \<noteq> ''signature'') (env_fields e cs ia ea) = env_fields e cs ia ea"
    by (simp add: env_fields_def)
  then show ?thesis by (simp add: envelopeBody_def Some json_Unmarshal_Marshal * clean)
qed

lemma envelopeBody_signature [simp]: "envelopeBody (e\<lparr>Env_Signature := s\<rparr>) = envelopeBody e"
  by (simp add: envelopeBody_eq env_fields_def split: option.split)

lemma signed_bytes_signature [simp]: "signed_bytes (e\<lparr>Env_Signature := s\<rparr>) = signed_bytes e"
  by (simp add: signed_bytes_def)

lemma signed_bytes_body:
  "envelopeBody e = Inr body \<Longrightarrow> signed_bytes e = Some (marshalCanonical (JObj body))"
  by (auto simp: signed_bytes_def CanonicalJSON_wf elim: envelopeBodyE)

lemma signed_bytesE:
  assumes "signed_bytes e = Some bs"
  obtains body where "envelopeBody e = Inr body" "bs = marshalCanonical (JObj body)"
  using assms signed_bytes_body by (auto simp: signed_bytes_def split: sum.splits)

subsection \<open>The signed bytes determine the envelope\<close>

text \<open>
  Invalid UTF-8 is replaced when it is encoded, and RFC 3339 has no seconds in an offset: the
  fields whose text is exact.
\<close>

definition cap_exact :: "CapabilityToken \<Rightarrow> bool" where
  "cap_exact c \<longleftrightarrow> valid_utf8 (Cap_ID c) \<and> valid_utf8 (Cap_SigilID c) \<and> valid_utf8 (Cap_Scope c)
     \<and> zone (Cap_IssuedAt c) mod 60 = 0 \<and> zone (Cap_ExpiresAt c) mod 60 = 0"

definition env_exact :: "AttestationEnvelope \<Rightarrow> bool" where
  "env_exact e \<longleftrightarrow> valid_utf8 (Env_Version e) \<and> valid_utf8 (Env_SigilID e) \<and> valid_utf8 (Env_Issuer e)
     \<and> zone (Env_IssuedAt e) mod 60 = 0 \<and> zone (Env_ExpiresAt e) mod 60 = 0
     \<and> list_all cap_exact (elems (Env_Caps e))"

text \<open>Objects with the same sorted form agree member by member.\<close>

lemma json_sort_member:
  assumes "json_sort (JObj m) = json_sort (JObj n)"
    and "distinct (map fst m)" and "distinct (map fst n)"
  shows "map_option json_sort (map_of m k) = map_option json_sort (map_of n k)"
proof -
  let ?g = "\<lambda>(k, v). (k, json_sort v)"
  have "sort_key fst (map ?g m) = sort_key fst (map ?g n)"
    using assms(1) by (simp only: json_sort.simps json.inject)
  from arg_cong [OF this, of set] have "set (map ?g m) = set (map ?g n)" by (simp only: set_sort)
  moreover have "distinct (map fst (map ?g m))" "distinct (map fst (map ?g n))"
    using assms(2,3) by (simp_all only: map_fst_members)
  ultimately have "map_of (map ?g m) = map_of (map ?g n)" by (simp only: map_of_inject_set)
  then show ?thesis by (simp only: map_of_map) (simp only: fun_eq_iff comp_def)
qed

lemma cap_fields_inject:
  assumes "json_sort (JObj (cap_fields c ia ea)) = json_sort (JObj (cap_fields d ib eb))"
    and "fmt_time (Cap_IssuedAt c) = Some ia" "fmt_time (Cap_ExpiresAt c) = Some ea"
    and "fmt_time (Cap_IssuedAt d) = Some ib" "fmt_time (Cap_ExpiresAt d) = Some eb"
    and "cap_exact c" "cap_exact d"
  shows "c = d"
proof -
  note m = json_sort_member [OF assms(1)]
  have "to_valid_utf8 (Cap_ID c) = to_valid_utf8 (Cap_ID d)"
    "to_valid_utf8 (Cap_SigilID c) = to_valid_utf8 (Cap_SigilID d)"
    "to_valid_utf8 (Cap_Scope c) = to_valid_utf8 (Cap_Scope d)"
    "ia = ib" "ea = eb" "Cap_Nonce c = Cap_Nonce d"
    using m [of "''id''"] m [of "''sigil_id''"] m [of "''scope''"] m [of "''issued_at''"]
      m [of "''expires_at''"] m [of "''nonce''"] by (simp_all add: cap_fields_def)
  moreover from this have "Cap_IssuedAt c = Cap_IssuedAt d" "Cap_ExpiresAt c = Cap_ExpiresAt d"
    using assms by (auto simp: cap_exact_def intro: fmt_time_inject)
  ultimately show ?thesis using assms(6,7) by (simp add: cap_exact_def to_valid_utf8_id)
qed

lemma CapabilityToken_json_inject:
  assumes "CapabilityToken_json c = Some v" "CapabilityToken_json d = Some w"
    and "json_sort (json_clean v) = json_sort (json_clean w)" and "cap_exact c" "cap_exact d"
  shows "c = d"
  using assms by (elim CapabilityToken_jsonE) (auto simp only: intro: cap_fields_inject)

lemma caps_json_inject:
  assumes "caps_json cs = Some v" "caps_json ds = Some w"
    and "json_sort (json_clean v) = json_sort (json_clean w)"
    and "list_all cap_exact (elems cs)" "list_all cap_exact (elems ds)"
  shows "cs = ds"
proof (cases "cs = None \<or> ds = None")
  case True
  then show ?thesis using assms(1-3) by (auto simp: caps_json_def split: option.splits)
next
  case False
  then obtain xs ys us ws where eqs: "cs = Some xs" "ds = Some ys" "v = JArr us" "w = JArr ws"
    and u: "list_all2 (\<lambda>c v. CapabilityToken_json c = Some v) xs us"
    and w: "list_all2 (\<lambda>c v. CapabilityToken_json c = Some v) ys ws"
    using assms(1,2) by (auto simp: caps_json_def those_Some split: option.splits)
  have len: "length us = length ws" and sorted: "\<forall>i < length us. json_sort (json_clean (us ! i)) = json_sort (json_clean (ws ! i))"
    using assms(3) by (auto simp: eqs list_eq_iff_nth_eq)
  have "xs = ys"
  proof (rule nth_equalityI)
    show "length xs = length ys" using u w len by (metis list_all2_lengthD)
    fix i assume i: "i < length xs"
    then have "i < length us" "i < length ys" using u w len by (metis list_all2_lengthD)+
    with i assms(4,5) u w sorted show "xs ! i = ys ! i"
      by (intro CapabilityToken_json_inject [of _ "us ! i" _ "ws ! i"])
        (auto simp: list_all2_conv_all_nth eqs list_all_length)
  qed
  then show ?thesis by (simp add: eqs)
qed

lemma signed_bytes_determine:
  assumes "signed_bytes e = Some bs" "signed_bytes f = Some bs" and "env_exact e" "env_exact f"
  shows "e\<lparr>Env_Signature := s\<rparr> = f\<lparr>Env_Signature := s\<rparr>"
proof -
  obtain b where b: "envelopeBody e = Inr b" "bs = marshalCanonical (JObj b)"
    by (rule signed_bytesE [OF assms(1)])
  obtain c where c: "envelopeBody f = Inr c" "bs = marshalCanonical (JObj c)"
    by (rule signed_bytesE [OF assms(2)])
  obtain cs ia ea where e: "caps_json (Env_Caps e) = Some cs" "fmt_time (Env_IssuedAt e) = Some ia"
    "fmt_time (Env_ExpiresAt e) = Some ea" "b = env_fields e cs ia ea" "json_wf (JObj b)"
    by (rule envelopeBodyE [OF b(1)])
  obtain ds ib eb where f: "caps_json (Env_Caps f) = Some ds" "fmt_time (Env_IssuedAt f) = Some ib"
    "fmt_time (Env_ExpiresAt f) = Some eb" "c = env_fields f ds ib eb" "json_wf (JObj c)"
    by (rule envelopeBodyE [OF c(1)])
  have "json_sort (JObj b) = json_sort (JObj c)"
    using marshalCanonical_inject [OF e(5) f(5)] b(2) c(2) by simp
  note m = json_sort_member [OF this]
  have *: "to_valid_utf8 (Env_Version e) = to_valid_utf8 (Env_Version f)"
    "to_valid_utf8 (Env_SigilID e) = to_valid_utf8 (Env_SigilID f)"
    "to_valid_utf8 (Env_Issuer e) = to_valid_utf8 (Env_Issuer f)"
    "json_sort (json_clean cs) = json_sort (json_clean ds)" "ia = ib" "ea = eb"
    using m [of "''version''"] m [of "''sigil_id''"] m [of "''issuer''"] m [of "''caps''"]
      m [of "''issued_at''"] m [of "''expires_at''"] by (simp_all add: e(4) f(4) env_fields_def)
  have "Env_Caps e = Env_Caps f"
    using e(1) f(1) *(4) assms(3,4) by (auto simp: env_exact_def intro: caps_json_inject)
  moreover have "Env_IssuedAt e = Env_IssuedAt f" "Env_ExpiresAt e = Env_ExpiresAt f"
    using e f * assms(3,4) by (auto simp: env_exact_def intro: fmt_time_inject)
  ultimately show ?thesis using * assms(3,4) by (simp add: env_exact_def to_valid_utf8_id)
qed

end
