(* ===== verification/StoreSpec.thy ===== *)
theory StoreSpec
  imports Protocol "HOL-Library.Monad_Syntax"
begin

text \<open>
  The interface \<open>broker.Store\<close> (\<open>src/broker/broker.go\<close>, and \<open>StoreCloser\<close> of
  \<open>src/store/interface.go\<close>). A value of a Go interface type is a table of methods together
  with the value they work on: \<open>'s store_ops\<close> is the table and \<open>'s\<close> the state of an
  implementation. Every method passes the state on, queries included, because a query of the
  Postgres stores uses up a round trip to the database.

  \<open>store_step\<close> is one call of any method, so a run of other goroutines between two calls of
  one verifier is a sequence of \<open>store_step\<close>s. The locales are the contract the comments of the
  interface state. \<open>store_contract\<close> is what every implementation keeps, faults included;
  \<open>reliable_store\<close> adds what holds while the store is healthy, and \<open>sigil_store\<close> that a saved
  sigil is found.
\<close>

record 's store_ops =
  st_SaveSigil :: "Sigil \<Rightarrow> 's \<Rightarrow> (goerror + unit) \<times> 's"
  st_GetSigil :: "string \<Rightarrow> 's \<Rightarrow> (goerror + Sigil) \<times> 's"
  st_SaveCap :: "CapabilityToken \<Rightarrow> 's \<Rightarrow> (goerror + unit) \<times> 's"
  st_GetCap :: "string \<Rightarrow> 's \<Rightarrow> (goerror + CapabilityToken) \<times> 's"
  st_NonceUsed :: "char slice \<Rightarrow> 's \<Rightarrow> bool \<times> 's"
  st_RecordNonce :: "char slice \<Rightarrow> 's \<Rightarrow> 's"
  st_TryRecordNonce :: "char slice \<Rightarrow> 's \<Rightarrow> bool \<times> 's"
  st_IsRevoked :: "string \<Rightarrow> 's \<Rightarrow> bool \<times> 's"
  st_RevocationList :: "'s \<Rightarrow> RevocationList \<times> 's"
  st_Revoke :: "RevocationEntry \<Rightarrow> 's \<Rightarrow> (goerror + unit) \<times> 's"

inductive store_step :: "'s store_ops \<Rightarrow> 's \<Rightarrow> 's \<Rightarrow> bool" for ops where
  step_SaveSigil: "store_step ops s (snd (st_SaveSigil ops x s))"
| step_GetSigil: "store_step ops s (snd (st_GetSigil ops i s))"
| step_SaveCap: "store_step ops s (snd (st_SaveCap ops c s))"
| step_GetCap: "store_step ops s (snd (st_GetCap ops i s))"
| step_NonceUsed: "store_step ops s (snd (st_NonceUsed ops n s))"
| step_RecordNonce: "store_step ops s (st_RecordNonce ops n s)"
| step_TryRecordNonce: "store_step ops s (snd (st_TryRecordNonce ops n s))"
| step_IsRevoked: "store_step ops s (snd (st_IsRevoked ops i s))"
| step_RevocationList: "store_step ops s (snd (st_RevocationList ops s))"
| step_Revoke: "store_step ops s (snd (st_Revoke ops e s))"

inductive_cases store_stepE: "store_step ops s s'"

abbreviation store_steps :: "'s store_ops \<Rightarrow> 's \<Rightarrow> 's \<Rightarrow> bool" where
  "store_steps ops \<equiv> (store_step ops)\<^sup>*\<^sup>*"

text \<open>A call whose result is already split into value and state.\<close>

lemma store_step_results:
  "st_SaveSigil ops x s = (r, s') \<Longrightarrow> store_step ops s s'"
  "st_GetSigil ops i s = (rs, s') \<Longrightarrow> store_step ops s s'"
  "st_SaveCap ops c s = (r, s') \<Longrightarrow> store_step ops s s'"
  "st_GetCap ops i s = (rc, s') \<Longrightarrow> store_step ops s s'"
  "st_TryRecordNonce ops n s = (b, s') \<Longrightarrow> store_step ops s s'"
  "st_IsRevoked ops i s = (b, s') \<Longrightarrow> store_step ops s s'"
  "st_Revoke ops e s = (r, s') \<Longrightarrow> store_step ops s s'"
  using store_step.intros(1) [of ops s x] store_step.intros(2) [of ops s i]
    store_step.intros(3) [of ops s c] store_step.intros(4) [of ops s i]
    store_step.intros(7) [of ops s n] store_step.intros(8) [of ops s i]
    store_step.intros(10) [of ops s e]
  by simp_all

subsection \<open>The contract every store keeps\<close>

locale store_contract =
  fixes ops :: "'s store_ops"
    and consumed :: "'s \<Rightarrow> bytes set"
    and revoked :: "'s \<Rightarrow> string set"
  assumes step_keeps: "store_step ops s s' \<Longrightarrow> consumed s \<subseteq> consumed s' \<and> revoked s \<subseteq> revoked s'"
    and try_first: "st_TryRecordNonce ops n s = (True, s') \<Longrightarrow>
      elems n \<notin> consumed s \<and> elems n \<in> consumed s'"
    and revoke_records: "st_Revoke ops e s = (Inr u, s') \<Longrightarrow> Rev_ID e \<in> revoked s'"
    and revoked_sound: "st_IsRevoked ops i s = (True, s') \<Longrightarrow> i \<in> revoked s"
begin

lemma steps_keep: "store_steps ops s s' \<Longrightarrow> consumed s \<subseteq> consumed s' \<and> revoked s \<subseteq> revoked s'"
  by (induction rule: rtranclp_induct) (blast dest: step_keeps)+

lemma consumed_try_fails:
  "store_steps ops s s' \<Longrightarrow> elems n \<in> consumed s \<Longrightarrow> \<not> fst (st_TryRecordNonce ops n s')"
  using steps_keep [of s s'] try_first [of n s'] by (cases "st_TryRecordNonce ops n s'") auto

text \<open>One nonce is accepted once, whatever calls happen in between.\<close>

lemma try_at_most_once:
  assumes "st_TryRecordNonce ops n s0 = (True, s1)" and "store_steps ops s1 s2"
    and "elems m = elems n"
  shows "\<not> fst (st_TryRecordNonce ops m s2)"
  using assms try_first consumed_try_fails by metis

lemma revoked_stays:
  "st_Revoke ops e s0 = (Inr u, s1) \<Longrightarrow> store_steps ops s1 s2 \<Longrightarrow> Rev_ID e \<in> revoked s2"
  using revoke_records steps_keep by blast

end

subsection \<open>A healthy store\<close>

locale reliable_store = store_contract +
  fixes healthy :: "'a \<Rightarrow> bool"
  assumes healthy_step: "healthy s \<Longrightarrow> store_step ops s s' \<Longrightarrow> healthy s'"
    and revoked_complete: "healthy s \<Longrightarrow> i \<in> revoked s \<Longrightarrow> fst (st_IsRevoked ops i s)"
    and try_complete: "healthy s \<Longrightarrow> n \<notin> consumed s \<Longrightarrow> fst (st_TryRecordNonce ops (Some n) s)"
    and only_nonces: "consumed (snd (st_IsRevoked ops i s)) = consumed s"
      "revoked (snd (st_IsRevoked ops i s)) = revoked s"
      "consumed (snd (st_TryRecordNonce ops (Some n) s)) \<subseteq> insert n (consumed s)"
      "revoked (snd (st_TryRecordNonce ops (Some n) s)) = revoked s"
begin

lemma healthy_steps: "store_steps ops s s' \<Longrightarrow> healthy s \<Longrightarrow> healthy s'"
  by (induction rule: rtranclp_induct) (auto intro: healthy_step)

lemma IsRevoked_exact: "healthy s \<Longrightarrow> fst (st_IsRevoked ops i s) \<longleftrightarrow> i \<in> revoked s"
  using revoked_complete revoked_sound by (metis prod.collapse)

lemma TryRecordNonce_exact: "healthy s \<Longrightarrow> fst (st_TryRecordNonce ops (Some n) s) \<longleftrightarrow> n \<notin> consumed s"
  using try_complete try_first [of "Some n"] by (metis elems_simps(2) prod.collapse)

end

subsection \<open>A store that finds what was saved\<close>

locale sigil_store = reliable_store +
  fixes known :: "'a \<Rightarrow> string set"
  assumes known_step: "store_step ops s s' \<Longrightarrow> known s \<subseteq> known s'"
    and save_known: "st_SaveSigil ops x s = (Inr u, s') \<Longrightarrow> Sigil_ID x \<in> known s'"
    and known_found: "healthy s \<Longrightarrow> i \<in> known s \<Longrightarrow> \<exists>x. fst (st_GetSigil ops i s) = Inr x"
begin

lemma known_steps: "store_steps ops s s' \<Longrightarrow> known s \<subseteq> known s'"
  by (induction rule: rtranclp_induct) (auto dest: known_step)

lemma saved_found:
  assumes "st_SaveSigil ops x s0 = (Inr u, s1)" and "store_steps ops s1 s2" and "healthy s2"
  shows "\<exists>y. fst (st_GetSigil ops (Sigil_ID x) s2) = Inr y"
  using assms known_found known_steps save_known by blast

end

end
