(* ===== verification/Subject.thy ===== *)
theory Subject
  imports Protocol
begin

text \<open>
  NATS subjects and event payloads (\<open>src/internal/observability/subject.go\<close> and
  \<open>events.go\<close>). An event is a value of one datatype with a constructor per payload struct; its
  JSON is what \<open>json.Marshal\<close> writes for the struct, fields with \<open>omitempty\<close> left out when they
  are empty.
\<close>

subsection \<open>Subjects\<close>

definition Domain :: string where "Domain = ''broker''"
definition SubDomain :: string where "SubDomain = ''hanko''"

definition EntityOIDC :: string where "EntityOIDC = ''oidc''"
definition EntitySigil :: string where "EntitySigil = ''sigil''"
definition EntityJWKS :: string where "EntityJWKS = ''jwks''"
definition EntitySecurity :: string where "EntitySecurity = ''security''"
definition EntityCDC :: string where "EntityCDC = ''cdc''"
definition EntityConfig :: string where "EntityConfig = ''config''"
definition EntityScope :: string where "EntityScope = ''scope''"

definition ActionSigilIssued :: string where "ActionSigilIssued = ''issued''"
definition ActionSigilRevoked :: string where "ActionSigilRevoked = ''revoked''"
definition ActionBruteForceDetected :: string where "ActionBruteForceDetected = ''brute_force_detected''"
definition ActionAuditRowInserted :: string where "ActionAuditRowInserted = ''audit_row_inserted''"
definition ActionAuditRowUpdated :: string where "ActionAuditRowUpdated = ''audit_row_updated''"
definition ActionAuditRowDeleted :: string where "ActionAuditRowDeleted = ''audit_row_deleted''"
definition ActionConfigReloadRequested :: string where "ActionConfigReloadRequested = ''reload_requested''"
definition ActionConfigReloaded :: string where "ActionConfigReloaded = ''reloaded''"
definition ActionConfigReloadFailed :: string where "ActionConfigReloadFailed = ''reload_failed''"
definition ActionUnknownScopeRejected :: string where "ActionUnknownScopeRejected = ''unknown_scope_rejected''"
definition ActionAuthRequest :: string where "ActionAuthRequest = ''auth_request''"
definition ActionCodeIssued :: string where "ActionCodeIssued = ''code_issued''"
definition ActionUserInfoServed :: string where "ActionUserInfoServed = ''userinfo_served''"
definition ActionSessionRevoked :: string where "ActionSessionRevoked = ''session_revoked''"
definition ActionFailed :: string where "ActionFailed = ''failed''"
definition ActionUserInfoFailed :: string where "ActionUserInfoFailed = ''userinfo_failed''"
definition ActionJWKSRotated :: string where "ActionJWKSRotated = ''rotated''"
definition ActionTokenIssued :: string where "ActionTokenIssued = ''token_issued''"
definition ActionTokenFailed :: string where "ActionTokenFailed = ''token_failed''"

lemmas subject_const_defs = Domain_def SubDomain_def EntityOIDC_def EntitySigil_def EntityJWKS_def
  EntitySecurity_def EntityCDC_def EntityConfig_def EntityScope_def ActionSigilIssued_def
  ActionSigilRevoked_def ActionBruteForceDetected_def ActionAuditRowInserted_def
  ActionAuditRowUpdated_def ActionAuditRowDeleted_def ActionConfigReloadRequested_def
  ActionConfigReloaded_def ActionConfigReloadFailed_def ActionUnknownScopeRejected_def
  ActionTokenIssued_def ActionTokenFailed_def ActionAuthRequest_def ActionCodeIssued_def
  ActionUserInfoServed_def ActionSessionRevoked_def ActionFailed_def ActionUserInfoFailed_def
  ActionJWKSRotated_def

record NATSSubject =
  Subj_WorkspaceID :: string
  Subj_Domain :: string
  Subj_SubDomain :: string
  Subj_Entity :: string
  Subj_Action :: string
  Subj_CorrID :: string

definition NATSSubject_String :: "NATSSubject \<Rightarrow> string" where
  "NATSSubject_String s =
     ''shikki.'' @ Subj_WorkspaceID s @ ''.'' @ Subj_Domain s @ ''.'' @ Subj_SubDomain s @ ''.''
       @ Subj_Entity s @ ''.'' @ Subj_Action s @ ''.'' @ Subj_CorrID s"

definition entity_subject :: "string \<Rightarrow> string \<Rightarrow> string \<Rightarrow> string \<Rightarrow> NATSSubject" where
  "entity_subject entity workspaceID action corrID =
     \<lparr>Subj_WorkspaceID = workspaceID, Subj_Domain = Domain, Subj_SubDomain = SubDomain,
      Subj_Entity = entity, Subj_Action = action, Subj_CorrID = corrID\<rparr>"

definition OIDCSubject :: "string \<Rightarrow> string \<Rightarrow> string \<Rightarrow> NATSSubject" where
  "OIDCSubject = entity_subject EntityOIDC"
definition SigilSubject :: "string \<Rightarrow> string \<Rightarrow> string \<Rightarrow> NATSSubject" where
  "SigilSubject = entity_subject EntitySigil"
definition JWKSSubject :: "string \<Rightarrow> string \<Rightarrow> string \<Rightarrow> NATSSubject" where
  "JWKSSubject = entity_subject EntityJWKS"
definition SecuritySubject :: "string \<Rightarrow> string \<Rightarrow> string \<Rightarrow> NATSSubject" where
  "SecuritySubject = entity_subject EntitySecurity"
definition CDCSubject :: "string \<Rightarrow> string \<Rightarrow> string \<Rightarrow> NATSSubject" where
  "CDCSubject = entity_subject EntityCDC"
definition ConfigSubject :: "string \<Rightarrow> string \<Rightarrow> string \<Rightarrow> NATSSubject" where
  "ConfigSubject = entity_subject EntityConfig"
definition ScopeSubject :: "string \<Rightarrow> string \<Rightarrow> string \<Rightarrow> NATSSubject" where
  "ScopeSubject = entity_subject EntityScope"

subsection \<open>Event payloads\<close>

record OIDCEvent =
  OE_TS :: string
  OE_CorrID :: string
  OE_WorkspaceID :: string
  OE_ClientID :: string
  OE_SubjectID :: string
  OE_Scopes :: "string slice"
  OE_Endpoint :: string
  OE_DurationMS :: int
  OE_Outcome :: string
  OE_FailureReason :: string

record SigilIssuedEvent =
  SI_TS :: string
  SI_CorrID :: string
  SI_WorkspaceID :: string
  SI_SubjectID :: string
  SI_CapabilitySet :: "string slice"
  SI_ExpiresAt :: "time option"
  SI_Outcome :: string

record SigilRevokedEvent =
  SR_TS :: string
  SR_CorrID :: string
  SR_WorkspaceID :: string
  SR_SubjectID :: string
  SR_Reason :: string
  SR_Outcome :: string

record JWKSRotatedEvent =
  JR_TS :: string
  JR_CorrID :: string
  JR_WorkspaceID :: string
  JR_KidOld :: string
  JR_KidNew :: string
  JR_RotationReason :: string

record BruteForceEvent =
  BF_TS :: string
  BF_CorrID :: string
  BF_WorkspaceID :: string
  BF_ClientID :: string
  BF_AttemptCount :: int
  BF_WindowSeconds :: int
  BF_FirstSeen :: time
  BF_LastSeen :: time

record CDCEvent =
  CE_TS :: string
  CE_CorrID :: string
  CE_WorkspaceID :: string
  CE_Table :: string
  CE_RowID :: string
  CE_Op :: string
  CE_FieldsHashed :: "(string \<times> string) slice"
  CE_DiffSummary :: "string slice"
  CE_TombstoneReason :: string

record ConfigReloadedEvent =
  CR_TS :: string
  CR_CorrID :: string
  CR_WorkspaceID :: string
  CR_KeysApplied :: "string slice"
  CR_DurationMS :: int
  CR_HankoKidInUse :: string

record ConfigReloadFailedEvent =
  CF_TS :: string
  CF_CorrID :: string
  CF_WorkspaceID :: string
  CF_KeysAttempted :: "string slice"
  CF_FailureReason :: string
  CF_RollbackApplied :: bool

record ScopeRejectedEvent =
  SX_TS :: string
  SX_CorrID :: string
  SX_WorkspaceID :: string
  SX_Event :: string
  SX_TokenID :: string
  SX_SigilID :: string
  SX_Scope :: string
  SX_RequestedAction :: string
  SX_Outcome :: string

datatype event =
    EvOIDC OIDCEvent
  | EvSigilIssued SigilIssuedEvent
  | EvSigilRevoked SigilRevokedEvent
  | EvJWKSRotated JWKSRotatedEvent
  | EvBruteForce BruteForceEvent
  | EvCDC CDCEvent
  | EvConfigReloaded ConfigReloadedEvent
  | EvConfigReloadFailed ConfigReloadFailedEvent
  | EvScopeRejected ScopeRejectedEvent

text \<open>\<open>nowRFC3339\<close>, and the same expression written out in the broker, of a clock reading.\<close>

definition nowRFC3339 :: "time \<Rightarrow> string" where
  "nowRFC3339 now = Format_RFC3339Nano (Time_UTC now)"

subsection \<open>JSON of the payloads\<close>

definition omit_str :: "string \<Rightarrow> string \<Rightarrow> (string \<times> json) list" where
  "omit_str k s = (if s = [] then [] else [(k, JStr s)])"

definition omit_strs :: "string \<Rightarrow> string slice \<Rightarrow> (string \<times> json) list" where
  "omit_strs k ss = (if elems ss = [] then [] else [(k, JArr (map JStr (elems ss)))])"

definition strs_json :: "string slice \<Rightarrow> json" where
  "strs_json ss = (case ss of None \<Rightarrow> JNull | Some xs \<Rightarrow> JArr (map JStr xs))"

fun event_json :: "event \<Rightarrow> json option" where
  "event_json (EvOIDC e) = Some (JObj (
     [(''ts'', JStr (OE_TS e)), (''corr_id'', JStr (OE_CorrID e)),
      (''workspace_id'', JStr (OE_WorkspaceID e)), (''client_id'', JStr (OE_ClientID e))]
     @ omit_str ''subject_id'' (OE_SubjectID e) @ omit_strs ''scopes'' (OE_Scopes e)
     @ omit_str ''endpoint'' (OE_Endpoint e)
     @ [(''duration_ms'', JNum (OE_DurationMS e)), (''outcome'', JStr (OE_Outcome e))]
     @ omit_str ''failure_reason'' (OE_FailureReason e)))"
| "event_json (EvSigilIssued e) =
     (let pre = [(''ts'', JStr (SI_TS e)), (''corr_id'', JStr (SI_CorrID e)),
          (''workspace_id'', JStr (SI_WorkspaceID e)), (''subject_id'', JStr (SI_SubjectID e))]
          @ omit_strs ''capability_set'' (SI_CapabilitySet e);
          post = [(''outcome'', JStr (SI_Outcome e))]
      in case SI_ExpiresAt e of
           None \<Rightarrow> Some (JObj (pre @ post))
         | Some t \<Rightarrow> map_option (\<lambda>ea. JObj (pre @ [(''expires_at'', JStr ea)] @ post)) (fmt_time t))"
| "event_json (EvSigilRevoked e) = Some (JObj
     [(''ts'', JStr (SR_TS e)), (''corr_id'', JStr (SR_CorrID e)),
      (''workspace_id'', JStr (SR_WorkspaceID e)), (''subject_id'', JStr (SR_SubjectID e)),
      (''reason'', JStr (SR_Reason e)), (''outcome'', JStr (SR_Outcome e))])"
| "event_json (EvJWKSRotated e) = Some (JObj
     [(''ts'', JStr (JR_TS e)), (''corr_id'', JStr (JR_CorrID e)),
      (''workspace_id'', JStr (JR_WorkspaceID e)), (''kid_old'', JStr (JR_KidOld e)),
      (''kid_new'', JStr (JR_KidNew e)), (''rotation_reason'', JStr (JR_RotationReason e))])"
| "event_json (EvBruteForce e) =
     (case (fmt_time (BF_FirstSeen e), fmt_time (BF_LastSeen e)) of
        (Some f, Some l) \<Rightarrow> Some (JObj
          [(''ts'', JStr (BF_TS e)), (''corr_id'', JStr (BF_CorrID e)),
           (''workspace_id'', JStr (BF_WorkspaceID e)), (''client_id'', JStr (BF_ClientID e)),
           (''attempt_count'', JNum (BF_AttemptCount e)),
           (''window_seconds'', JNum (BF_WindowSeconds e)),
           (''first_seen'', JStr f), (''last_seen'', JStr l)])
      | _ \<Rightarrow> None)"
| "event_json (EvCDC e) = Some (JObj (
     [(''ts'', JStr (CE_TS e)), (''corr_id'', JStr (CE_CorrID e)),
      (''workspace_id'', JStr (CE_WorkspaceID e)), (''table'', JStr (CE_Table e)),
      (''row_id'', JStr (CE_RowID e)), (''op'', JStr (CE_Op e))]
     @ (if elems (CE_FieldsHashed e) = [] then []
        else [(''fields_hashed'', strmap_json (CE_FieldsHashed e))])
     @ omit_strs ''diff_summary'' (CE_DiffSummary e)
     @ omit_str ''tombstone_reason'' (CE_TombstoneReason e)))"
| "event_json (EvConfigReloaded e) = Some (JObj
     [(''ts'', JStr (CR_TS e)), (''corr_id'', JStr (CR_CorrID e)),
      (''workspace_id'', JStr (CR_WorkspaceID e)), (''keys_applied'', strs_json (CR_KeysApplied e)),
      (''duration_ms'', JNum (CR_DurationMS e)), (''hanko_kid_in_use'', JStr (CR_HankoKidInUse e))])"
| "event_json (EvConfigReloadFailed e) = Some (JObj
     [(''ts'', JStr (CF_TS e)), (''corr_id'', JStr (CF_CorrID e)),
      (''workspace_id'', JStr (CF_WorkspaceID e)),
      (''keys_attempted'', strs_json (CF_KeysAttempted e)),
      (''failure_reason'', JStr (CF_FailureReason e)),
      (''rollback_applied'', JBool (CF_RollbackApplied e))])"
| "event_json (EvScopeRejected e) = Some (JObj
     [(''ts'', JStr (SX_TS e)), (''corr_id'', JStr (SX_CorrID e)),
      (''workspace_id'', JStr (SX_WorkspaceID e)), (''event'', JStr (SX_Event e)),
      (''token_id'', JStr (SX_TokenID e)), (''sigil_id'', JStr (SX_SigilID e)),
      (''scope'', JStr (SX_Scope e)), (''requested_action'', JStr (SX_RequestedAction e)),
      (''outcome'', JStr (SX_Outcome e))])"

subsection \<open>Subjects do not collide\<close>

lemma split_last_dot:
  assumes "a @ d # b = a' @ d # b'" and "d \<notin> set b" and "d \<notin> set b'"
  shows "a = a' \<and> b = b'"
proof -
  have "takeWhile (\<lambda>c. c \<noteq> d) (rev (a @ d # b)) = rev b"
    using assms(2) by (simp, subst takeWhile_append2) auto
  moreover have "takeWhile (\<lambda>c. c \<noteq> d) (rev (a' @ d # b')) = rev b'"
    using assms(3) by (simp, subst takeWhile_append2) auto
  ultimately have "b = b'" using assms(1) by simp
  with assms(1) show ?thesis by simp
qed

lemma entity_subject_inject:
  assumes "NATSSubject_String (entity_subject e w a c) = NATSSubject_String (entity_subject e' w' a' c')"
    and "CHR ''.'' \<notin> set c" "CHR ''.'' \<notin> set c'" "CHR ''.'' \<notin> set a" "CHR ''.'' \<notin> set a'"
      "CHR ''.'' \<notin> set e" "CHR ''.'' \<notin> set e'"
  shows "e = e' \<and> w = w' \<and> a = a' \<and> c = c'"
proof -
  let ?p = "\<lambda>w e. ''shikki.'' @ w @ ''.broker.hanko.'' @ e"
  have str: "NATSSubject_String (entity_subject e w a c) = ((?p w e @ CHR ''.'' # a) @ CHR ''.'' # c)"
    for e w a c by (simp add: NATSSubject_String_def entity_subject_def subject_const_defs)
  from split_last_dot [OF assms(1) [unfolded str] assms(2,3)]
  have "?p w e @ CHR ''.'' # a = ?p w' e' @ CHR ''.'' # a'" "c = c'" by simp_all
  from split_last_dot [OF this(1) assms(4,5)]
  have "(''shikki.'' @ w @ ''.broker.hanko'') @ CHR ''.'' # e =
      (''shikki.'' @ w' @ ''.broker.hanko'') @ CHR ''.'' # e'" "a = a'" by simp_all
  from split_last_dot [OF this(1) assms(6,7)] \<open>a = a'\<close> \<open>c = c'\<close> show ?thesis by simp
qed

end
