(* ===== verification/Metrics.thy ===== *)
theory Metrics
  imports GoTime
begin

text \<open>
  The Prometheus surface (\<open>src/internal/observability/metrics.go\<close>): the six metric families as
  the registry holds them, each a function from label values to what was recorded under them.
  A histogram is the list of its observations, newest first. Durations stay durations; their
  conversion to floating-point seconds and the text exposition belong to the Prometheus client
  library. The gauges hold the integer or duration that is handed to them, and the cache ratio
  the pair of counts it is the quotient of.
\<close>

record Metrics =
  oidcRequestDuration :: "string \<times> string \<times> string \<Rightarrow> duration list"
  sigilIssuedTotal :: "string \<times> string \<Rightarrow> nat"
  bruteForceWindow :: "string \<rightharpoonup> int"
  jwksCacheHitRatio :: "nat \<times> nat"
  cdcLagSeconds :: "string \<rightharpoonup> duration"
  configReloadTotal :: "string \<Rightarrow> nat"

definition NewMetrics :: Metrics where
  "NewMetrics = \<lparr>oidcRequestDuration = (\<lambda>_. []), sigilIssuedTotal = (\<lambda>_. 0),
     bruteForceWindow = Map.empty, jwksCacheHitRatio = (0, 1), cdcLagSeconds = Map.empty,
     configReloadTotal = (\<lambda>_. 0)\<rparr>"

definition ObserveOIDCRequest :: "string \<Rightarrow> string \<Rightarrow> string \<Rightarrow> duration \<Rightarrow> Metrics \<Rightarrow> Metrics" where
  "ObserveOIDCRequest endpoint outcome clientID d m =
     (let l = (endpoint, outcome, clientID)
      in m\<lparr>oidcRequestDuration := (oidcRequestDuration m)(l := d # oidcRequestDuration m l)\<rparr>)"

definition IncSigilIssued :: "string \<Rightarrow> string \<Rightarrow> Metrics \<Rightarrow> Metrics" where
  "IncSigilIssued capabilitySetHash clientID m =
     (let l = (capabilitySetHash, clientID)
      in m\<lparr>sigilIssuedTotal := (sigilIssuedTotal m)(l := Suc (sigilIssuedTotal m l))\<rparr>)"

definition SetBruteForceWindowAttempts :: "string \<Rightarrow> int \<Rightarrow> Metrics \<Rightarrow> Metrics" where
  "SetBruteForceWindowAttempts clientID n m =
     m\<lparr>bruteForceWindow := (bruteForceWindow m)(clientID \<mapsto> n)\<rparr>"

definition SetJWKSCacheHitRatio :: "nat \<times> nat \<Rightarrow> Metrics \<Rightarrow> Metrics" where
  "SetJWKSCacheHitRatio ratio m = m\<lparr>jwksCacheHitRatio := ratio\<rparr>"

definition SetCDCLagSeconds :: "string \<Rightarrow> duration \<Rightarrow> Metrics \<Rightarrow> Metrics" where
  "SetCDCLagSeconds table sec m = m\<lparr>cdcLagSeconds := (cdcLagSeconds m)(table \<mapsto> sec)\<rparr>"

definition IncConfigReload :: "string \<Rightarrow> Metrics \<Rightarrow> Metrics" where
  "IncConfigReload outcome m =
     m\<lparr>configReloadTotal := (configReloadTotal m)(outcome := Suc (configReloadTotal m outcome))\<rparr>"

end
