(* ===== verification/Sha256.thy ===== *)
theory Sha256
  imports GoLib
begin

unbundle bit_operations_syntax

text \<open>
  The hash \<open>crypto/sha256\<close> of Go's standard library (FIPS 180-4) on 32-bit words. The broker uses
  it for the metric label of a capability set, the change-data-capture tail for the values it
  must not publish.
\<close>

type_synonym w32 = "32 word"

text \<open>
  The initial hash value and the round constants: the first 32 bits of the fractional parts of
  the square roots of the first 8 primes and of the cube roots of the first 64 primes.
\<close>

definition sha_H :: "w32 list" where
  "sha_H = [1779033703, 3144134277, 1013904242, 2773480762, 1359893119, 2600822924,
      528734635, 1541459225]"

definition sha_K :: "w32 list" where
  "sha_K = [1116352408, 1899447441, 3049323471, 3921009573, 961987163, 1508970993,
      2453635748, 2870763221, 3624381080, 310598401, 607225278, 1426881987,
      1925078388, 2162078206, 2614888103, 3248222580, 3835390401, 4022224774,
      264347078, 604807628, 770255983, 1249150122, 1555081692, 1996064986,
      2554220882, 2821834349, 2952996808, 3210313671, 3336571891, 3584528711,
      113926993, 338241895, 666307205, 773529912, 1294757372, 1396182291,
      1695183700, 1986661051, 2177026350, 2456956037, 2730485921, 2820302411,
      3259730800, 3345764771, 3516065817, 3600352804, 4094571909, 275423344,
      430227734, 506948616, 659060556, 883997877, 958139571, 1322822218,
      1537002063, 1747873779, 1955562222, 2024104815, 2227730452, 2361852424,
      2428436474, 2756734187, 3204031479, 3329325298]"

definition rotr :: "nat \<Rightarrow> w32 \<Rightarrow> w32" where
  "rotr n x = (drop_bit n x OR push_bit (32 - n) x)"

definition sha_S0 :: "w32 \<Rightarrow> w32" where "sha_S0 x = (rotr 2 x XOR rotr 13 x XOR rotr 22 x)"
definition sha_S1 :: "w32 \<Rightarrow> w32" where "sha_S1 x = (rotr 6 x XOR rotr 11 x XOR rotr 25 x)"
definition sha_s0 :: "w32 \<Rightarrow> w32" where "sha_s0 x = (rotr 7 x XOR rotr 18 x XOR drop_bit 3 x)"
definition sha_s1 :: "w32 \<Rightarrow> w32" where "sha_s1 x = (rotr 17 x XOR rotr 19 x XOR drop_bit 10 x)"

text \<open>Padding: a one bit, zeros up to 56 modulo 64 bytes, the length in bits as eight bytes.\<close>

fun be_bytes :: "nat \<Rightarrow> int \<Rightarrow> bytes" where
  "be_bytes 0 n = []"
| "be_bytes (Suc k) n = be_bytes k (n div 256) @ [char_of (n mod 256)]"

definition sha_pad :: "bytes \<Rightarrow> bytes" where
  "sha_pad m = m @ [CHR 0x80] @ replicate ((119 - length m mod 64) mod 64) (CHR 0x00)
     @ be_bytes 8 (8 * int (length m))"

definition be_word :: "char \<Rightarrow> char \<Rightarrow> char \<Rightarrow> char \<Rightarrow> w32" where
  "be_word a b c d = word_of_int (of_char a * 16777216 + of_char b * 65536 + of_char c * 256 + of_char d)"

fun be_words :: "bytes \<Rightarrow> w32 list" where
  "be_words (a # b # c # d # r) = be_word a b c d # be_words r"
| "be_words _ = []"

text \<open>The message schedule, newest word first, and the 64 rounds on it.\<close>

fun sha_extend :: "nat \<Rightarrow> w32 list \<Rightarrow> w32 list" where
  "sha_extend 0 w = w"
| "sha_extend (Suc k) w =
     sha_extend k ((sha_s1 (w ! 1) + w ! 6 + sha_s0 (w ! 14) + w ! 15) # w)"

type_synonym sha_regs = "w32 \<times> w32 \<times> w32 \<times> w32 \<times> w32 \<times> w32 \<times> w32 \<times> w32"

fun sha_round :: "w32 \<times> w32 \<Rightarrow> sha_regs \<Rightarrow> sha_regs" where
  "sha_round (k, w) (a, b, c, d, e, f, g, h) =
     (let t1 = h + sha_S1 e + ((e AND f) XOR ((NOT e) AND g)) + k + w;
          t2 = sha_S0 a + ((a AND b) XOR (a AND c) XOR (b AND c))
      in (t1 + t2, a, b, c, d + t1, e, f, g))"

fun sha_block :: "w32 list \<Rightarrow> sha_regs \<Rightarrow> sha_regs" where
  "sha_block ws (a, b, c, d, e, f, g, h) =
     (let (a', b', c', d', e', f', g', h') =
            fold sha_round (zip sha_K (rev (sha_extend 48 (rev ws)))) (a, b, c, d, e, f, g, h)
      in (a + a', b + b', c + c', d + d', e + e', f + f', g + g', h + h'))"

function sha_blocks :: "w32 list \<Rightarrow> sha_regs \<Rightarrow> sha_regs" where
  "sha_blocks ws r = (if ws = [] then r else sha_blocks (drop 16 ws) (sha_block (take 16 ws) r))"
  by auto
termination
  by (relation "measure (\<lambda>(ws, r). length ws)") auto

declare sha_blocks.simps [simp del]

definition sha_regs_init :: sha_regs where
  "sha_regs_init = (sha_H ! 0, sha_H ! 1, sha_H ! 2, sha_H ! 3, sha_H ! 4, sha_H ! 5, sha_H ! 6, sha_H ! 7)"

definition word_bytes :: "w32 \<Rightarrow> bytes" where
  "word_bytes w = be_bytes 4 (uint w)"

definition sha256_Sum256 :: "bytes \<Rightarrow> bytes" where
  "sha256_Sum256 m =
     (case sha_blocks (be_words (sha_pad m)) sha_regs_init of
        (a, b, c, d, e, f, g, h) \<Rightarrow> concat (map word_bytes [a, b, c, d, e, f, g, h]))"

lemma length_be_bytes [simp]: "length (be_bytes k n) = k"
  by (induction k arbitrary: n) simp_all

lemma length_sha256 [simp]: "length (sha256_Sum256 m) = 32"
  by (simp add: sha256_Sum256_def word_bytes_def split: prod.split)

end
