(* ===== verification/Broker.thy ===== *)
theory Broker
  imports Envelope StoreSpec Subject Metrics Sha256
begin

text \<open>
  The broker (\<open>src/broker/broker.go\<close> and \<open>src/broker/scope_registry.go\<close>) over any store.
  Calls of the outside world are read from a record \<open>reads\<close>: the successive results of
  \<open>uuid.New\<close>, \<open>time.Now\<close> and the random source within one call. The calls of the publisher are
  appended to \<open>bk_published\<close>: \<open>Publish\<close> returns nothing and the broker never reads the
  publisher, so the sequence of calls is all it sees of the broker.

  The client lemmas on verification are proved once from the store contract, in the two locales
  of \<open>StoreSpec\<close>, and hold for every store that is interpreted there.
\<close>

record reads =
  rd_uuid :: "nat \<Rightarrow> string"
  rd_now :: "nat \<Rightarrow> time"
  rd_rand :: "goerror + bytes"

definition IssuerName :: string where "IssuerName = ''hanko-broker@obyw.one''"

record 's Broker =
  bk_store :: 's
  bk_signerPriv :: bytes
  bk_signerPub :: bytes
  bk_workspaceID :: string
  bk_metrics :: "Metrics option"
  bk_revocationAllowed :: "64 word"
  bk_revocationDenied :: "64 word"
  bk_published :: "(NATSSubject \<times> event) list"

definition New :: "'s \<Rightarrow> bytes \<Rightarrow> bytes \<Rightarrow> 's Broker" where
  "New store signerPub signerPriv =
     \<lparr>bk_store = store, bk_signerPriv = signerPriv, bk_signerPub = signerPub, bk_workspaceID = [],
      bk_metrics = None, bk_revocationAllowed = 0, bk_revocationDenied = 0, bk_published = []\<rparr>"

definition WithPublisher :: "string \<Rightarrow> 's Broker \<Rightarrow> 's Broker" where
  "WithPublisher workspaceID b = b\<lparr>bk_workspaceID := workspaceID\<rparr>"

definition WithMetrics :: "Metrics option \<Rightarrow> 's Broker \<Rightarrow> 's Broker" where
  "WithMetrics m b = b\<lparr>bk_metrics := m\<rparr>"

record BrokerMetrics =
  RevocationAllowed :: "64 word"
  RevocationDenied :: "64 word"

definition MetricsSnapshot :: "'s Broker \<Rightarrow> BrokerMetrics" where
  "MetricsSnapshot b =
     \<lparr>RevocationAllowed = bk_revocationAllowed b, RevocationDenied = bk_revocationDenied b\<rparr>"

definition Publish :: "NATSSubject \<Rightarrow> event \<Rightarrow> 's Broker \<Rightarrow> 's Broker" where
  "Publish subject payload b = b\<lparr>bk_published := bk_published b @ [(subject, payload)]\<rparr>"

subsection \<open>Issuing\<close>

definition capabilitySetHash :: "(string \<times> string) slice \<Rightarrow> string" where
  "capabilitySetHash meta =
     (let scopes = strmap_get meta ''scopes''
      in if scopes = [] then ''none''
         else hex_EncodeToString (take 8 (sha256_Sum256 scopes)))"

definition IssueSigil :: "'s store_ops \<Rightarrow> reads \<Rightarrow> string \<Rightarrow> char slice \<Rightarrow> time option \<Rightarrow>
    (string \<times> string) slice \<Rightarrow> 's Broker \<Rightarrow> (goerror + Sigil) \<times> 's Broker" where
  "IssueSigil ops rd subject pubKey expiresAt meta0 b =
     (let meta = (if meta0 = None then Some [] else meta0);
          s = \<lparr>Sigil_ID = rd_uuid rd 0, Sigil_Subject = subject, Sigil_PublicKey = pubKey,
               Sigil_CreatedAt = Time_UTC (rd_now rd 0), Sigil_ExpiresAt = expiresAt,
               Sigil_Metadata = meta\<rparr>;
          (res, st) = st_SaveSigil ops s (bk_store b);
          b1 = b\<lparr>bk_store := st\<rparr>
      in case res of
           Inl err \<Rightarrow> (Inl (Wrap ''broker.IssueSigil: '' err), b1)
         | Inr _ \<Rightarrow>
             (let corrID = rd_uuid rd 1;
                  b2 = Publish (SigilSubject (bk_workspaceID b) ActionSigilIssued corrID)
                    (EvSigilIssued \<lparr>SI_TS = nowRFC3339 (rd_now rd 1), SI_CorrID = corrID,
                       SI_WorkspaceID = bk_workspaceID b, SI_SubjectID = subject,
                       SI_CapabilitySet = None, SI_ExpiresAt = expiresAt,
                       SI_Outcome = ''success''\<rparr>) b1;
                  b3 = b2\<lparr>bk_metrics :=
                    map_option (IncSigilIssued (capabilitySetHash meta) (strmap_get meta ''client_id''))
                      (bk_metrics b2)\<rparr>
              in (Inr s, b3)))"

definition IssueCap :: "'s store_ops \<Rightarrow> reads \<Rightarrow> string \<Rightarrow> string \<Rightarrow> time \<Rightarrow> 's Broker \<Rightarrow>
    (goerror + CapabilityToken) \<times> 's Broker" where
  "IssueCap ops rd sigilID scope expiresAt b =
     (let (got, st) = st_GetSigil ops sigilID (bk_store b);
          b1 = b\<lparr>bk_store := st\<rparr>
      in case got of
           Inl err \<Rightarrow> (Inl (Wrap ''broker.IssueCap: sigil not found: '' err), b1)
         | Inr _ \<Rightarrow>
             (case GenerateNonce (rd_rand rd) of
                Inl err \<Rightarrow> (Inl err, b1)
              | Inr nonce \<Rightarrow>
                  (let c = \<lparr>Cap_ID = rd_uuid rd 0, Cap_SigilID = sigilID, Cap_Scope = scope,
                            Cap_IssuedAt = Time_UTC (rd_now rd 0), Cap_ExpiresAt = expiresAt,
                            Cap_Nonce = Some nonce\<rparr>;
                       (saved, st2) = st_SaveCap ops c (bk_store b1);
                       b2 = b1\<lparr>bk_store := st2\<rparr>
                   in case saved of
                        Inl err \<Rightarrow> (Inl (Wrap ''broker.IssueCap: '' err), b2)
                      | Inr _ \<Rightarrow> (Inr c, b2))))"

definition IssueAttestation :: "ed25519 \<Rightarrow> reads \<Rightarrow> string \<Rightarrow> CapabilityToken slice \<Rightarrow> time \<Rightarrow>
    's Broker \<Rightarrow> goerror + AttestationEnvelope" where
  "IssueAttestation ed rd sigilID caps expiresAt b =
     (let env = \<lparr>Env_Version = Version, Env_SigilID = sigilID, Env_Caps = caps,
                 Env_Issuer = IssuerName, Env_IssuedAt = Time_UTC (rd_now rd 0),
                 Env_ExpiresAt = expiresAt, Env_Signature = None\<rparr>
      in case envelopeBody env of
           Inl err \<Rightarrow> Inl (Wrap ''broker.IssueAttestation: '' err)
         | Inr body \<Rightarrow>
             (case Sign ed body (bk_signerPriv b) of
                Inl (Panic p) \<Rightarrow> Inl (Panic p)
              | Inl err \<Rightarrow> Inl (Wrap ''broker.IssueAttestation: '' err)
              | Inr sig \<Rightarrow> Inr (env\<lparr>Env_Signature := Some sig\<rparr>)))"

subsection \<open>Verifying\<close>

text \<open>
  The loop over the capability tokens; \<open>now k\<close> is the clock reading of iteration \<open>k\<close>. The
  counters are \<open>atomic.Uint64\<close> and wrap around.
\<close>

fun verify_caps :: "'s store_ops \<Rightarrow> (nat \<Rightarrow> time) \<Rightarrow> nat \<Rightarrow> CapabilityToken list \<Rightarrow> 's Broker \<Rightarrow>
    (goerror + unit) \<times> 's Broker" where
  "verify_caps ops now k [] b = (Inr (), b)"
| "verify_caps ops now k (c # cs) b =
     (let (rev, st1) = st_IsRevoked ops (Cap_ID c) (bk_store b);
          b1 = b\<lparr>bk_store := st1\<rparr>
      in if rev then (Inl (Sentinel ErrCapRevoked), b1\<lparr>bk_revocationDenied := bk_revocationDenied b + 1\<rparr>)
         else if Time_After (now k) (Cap_ExpiresAt c) then (Inl (Sentinel ErrCapExpired), b1)
         else let (fresh, st2) = st_TryRecordNonce ops (Cap_Nonce c) st1;
                  b2 = b1\<lparr>bk_store := st2\<rparr>
              in if \<not> fresh then (Inl (Sentinel ErrReplayAttack), b2)
                 else verify_caps ops now (Suc k) cs b2)"

definition VerifyAttestation :: "ed25519 \<Rightarrow> 's store_ops \<Rightarrow> reads \<Rightarrow> AttestationEnvelope \<Rightarrow> 's Broker \<Rightarrow>
    (goerror + unit) \<times> 's Broker" where
  "VerifyAttestation ed ops rd env b =
     (case envelopeBody env of
        Inl err \<Rightarrow> (Inl (Wrap ''broker.VerifyAttestation: '' err), b)
      | Inr body \<Rightarrow>
          (case Verify ed body (elems (Env_Signature env)) (bk_signerPub b) of
             Inl (Panic p) \<Rightarrow> (Inl (Panic p), b)
           | Inl err \<Rightarrow> (Inl (Sentinel ErrSignatureInvalid), b)
           | Inr _ \<Rightarrow>
               (let (rev, st1) = st_IsRevoked ops (Env_SigilID env) (bk_store b);
                    b1 = b\<lparr>bk_store := st1\<rparr>
                in if rev then (Inl (Sentinel ErrSigilRevoked),
                                b1\<lparr>bk_revocationDenied := bk_revocationDenied b + 1\<rparr>)
                   else if Time_After (rd_now rd 0) (Env_ExpiresAt env)
                   then (Inl (Sentinel ErrCapExpired), b1)
                   else (case verify_caps ops (rd_now rd) 1 (elems (Env_Caps env)) b1 of
                           (Inl err, b2) \<Rightarrow> (Inl err, b2)
                         | (Inr _, b2) \<Rightarrow>
                             (Inr (), b2\<lparr>bk_revocationAllowed := bk_revocationAllowed b2 + 1\<rparr>)))))"

definition VerifyCapScope :: "CapabilityToken \<Rightarrow> string \<Rightarrow> goerror + unit" where
  "VerifyCapScope c requestedAction =
     (if Cap_Scope c \<noteq> requestedAction then Inl (Sentinel ErrScopeMismatch) else Inr ())"

subsection \<open>Revoking\<close>

definition RevokeSigil :: "'s store_ops \<Rightarrow> reads \<Rightarrow> string \<Rightarrow> string \<Rightarrow> string \<Rightarrow> 's Broker \<Rightarrow>
    (goerror + unit) \<times> 's Broker" where
  "RevokeSigil ops rd sigilID reason revokedBy b =
     (let entry = \<lparr>Rev_ID = sigilID, Rev_TargetType = ''sigil'', Rev_Reason = reason,
                   Rev_RevokedAt = Time_UTC (rd_now rd 0), Rev_RevokedBy = revokedBy\<rparr>;
          (res, st) = st_Revoke ops entry (bk_store b);
          b1 = b\<lparr>bk_store := st\<rparr>
      in case res of
           Inl err \<Rightarrow> (Inl err, b1)
         | Inr _ \<Rightarrow>
             (let corrID = rd_uuid rd 0
              in (Inr (), Publish (SigilSubject (bk_workspaceID b) ActionSigilRevoked corrID)
                    (EvSigilRevoked \<lparr>SR_TS = nowRFC3339 (rd_now rd 1), SR_CorrID = corrID,
                       SR_WorkspaceID = bk_workspaceID b, SR_SubjectID = sigilID,
                       SR_Reason = reason, SR_Outcome = ''success''\<rparr>) b1)))"

definition RevokeCap :: "'s store_ops \<Rightarrow> reads \<Rightarrow> string \<Rightarrow> string \<Rightarrow> string \<Rightarrow> 's Broker \<Rightarrow>
    (goerror + unit) \<times> 's Broker" where
  "RevokeCap ops rd capID reason revokedBy b =
     (let entry = \<lparr>Rev_ID = capID, Rev_TargetType = ''cap'', Rev_Reason = reason,
                   Rev_RevokedAt = Time_UTC (rd_now rd 0), Rev_RevokedBy = revokedBy\<rparr>;
          (res, st) = st_Revoke ops entry (bk_store b)
      in (res, b\<lparr>bk_store := st\<rparr>))"

definition Broker_GetCap :: "'s store_ops \<Rightarrow> string \<Rightarrow> 's Broker \<Rightarrow> (goerror + CapabilityToken) \<times> 's Broker" where
  "Broker_GetCap ops i b = (let (res, st) = st_GetCap ops i (bk_store b) in (res, b\<lparr>bk_store := st\<rparr>))"

subsection \<open>The scope registry\<close>

text \<open>A nil registry is \<open>None\<close>; the set of known scopes is a Go map to empty structs.\<close>

type_synonym ScopeRegistry = "(string \<times> unit) list option"

definition NewScopeRegistry :: "string list \<Rightarrow> ScopeRegistry" where
  "NewScopeRegistry scopes = Some (fold (\<lambda>s. map_put s ()) scopes [])"

definition Knows :: "string \<Rightarrow> ScopeRegistry \<Rightarrow> bool" where
  "Knows scope r = (case r of None \<Rightarrow> False | Some known \<Rightarrow> map_of known scope \<noteq> None)"

definition Scopes :: "ScopeRegistry \<Rightarrow> string slice" where
  "Scopes r = (case r of None \<Rightarrow> None | Some known \<Rightarrow> Some (map fst known))"

definition emitUnknownScopeRejected :: "reads \<Rightarrow> CapabilityToken \<Rightarrow> string \<Rightarrow> 's Broker \<Rightarrow> 's Broker" where
  "emitUnknownScopeRejected rd c requestedAction b =
     (let corrID = rd_uuid rd 0
      in Publish (ScopeSubject (bk_workspaceID b) ActionUnknownScopeRejected corrID)
           (EvScopeRejected \<lparr>SX_TS = nowRFC3339 (rd_now rd 0), SX_CorrID = corrID,
              SX_WorkspaceID = bk_workspaceID b, SX_Event = ActionUnknownScopeRejected,
              SX_TokenID = Cap_ID c, SX_SigilID = Cap_SigilID c, SX_Scope = Cap_Scope c,
              SX_RequestedAction = requestedAction, SX_Outcome = ''rejected''\<rparr>) b)"

definition VerifyCapScopeWithRegistry :: "reads \<Rightarrow> CapabilityToken \<Rightarrow> string \<Rightarrow> ScopeRegistry \<Rightarrow>
    's Broker \<Rightarrow> (goerror + unit) \<times> 's Broker" where
  "VerifyCapScopeWithRegistry rd c requestedAction registry b =
     (if \<not> Knows (Cap_Scope c) registry
      then (Inl (Sentinel ErrScopeUnknown), emitUnknownScopeRejected rd c requestedAction b)
      else if Cap_Scope c \<noteq> requestedAction then (Inl (Sentinel ErrScopeMismatch), b)
      else (Inr (), b))"

end
