(* ===== verification/VerifyProps.thy ===== *)
theory VerifyProps
  imports Broker
begin

text \<open>
  What verification guarantees. The lemmas that need only the store contract are proved in the
  locale \<open>store_contract\<close>, those that need a healthy store in \<open>reliable_store\<close>; the
  interpretations of the two for a store carry them over to it.
\<close>

subsection \<open>The signature check\<close>

definition sig_ok :: "ed25519 \<Rightarrow> bytes \<Rightarrow> AttestationEnvelope \<Rightarrow> bool" where
  "sig_ok ed pub env =
     (case signed_bytes env of None \<Rightarrow> False
      | Some bs \<Rightarrow> length pub = 32 \<and> ed_Verify ed pub bs (elems (Env_Signature env)))"

text \<open>The part of \<open>VerifyAttestation\<close> after the signature check.\<close>

definition verify_signed :: "'s store_ops \<Rightarrow> reads \<Rightarrow> AttestationEnvelope \<Rightarrow> 's Broker \<Rightarrow>
    (goerror + unit) \<times> 's Broker" where
  "verify_signed ops rd env b =
     (let (rv, st1) = st_IsRevoked ops (Env_SigilID env) (bk_store b); b1 = b\<lparr>bk_store := st1\<rparr>
      in if rv then (Inl (Sentinel ErrSigilRevoked),
                      b1\<lparr>bk_revocationDenied := bk_revocationDenied b + 1\<rparr>)
         else if Time_After (rd_now rd 0) (Env_ExpiresAt env) then (Inl (Sentinel ErrCapExpired), b1)
         else (case verify_caps ops (rd_now rd) 1 (elems (Env_Caps env)) b1 of
                 (Inl err, b2) \<Rightarrow> (Inl err, b2)
               | (Inr _, b2) \<Rightarrow> (Inr (), b2\<lparr>bk_revocationAllowed := bk_revocationAllowed b2 + 1\<rparr>)))"

lemma Verify_sig_ok:
  assumes "envelopeBody env = Inr body"
  shows "Verify ed body (elems (Env_Signature env)) pub = Inr () \<longleftrightarrow> sig_ok ed pub env"
proof -
  have "CanonicalJSON (JObj body) = Inr (marshalCanonical (JObj body))"
    using assms by (auto simp: CanonicalJSON_wf elim: envelopeBodyE)
  with signed_bytes_body [OF assms] show ?thesis
    by (simp add: Verify_def sig_ok_def ed25519_Verify_def split: bool.split)
qed

lemma VerifyAttestation_sig_ok:
  assumes "sig_ok ed (bk_signerPub b) env"
  shows "VerifyAttestation ed ops rd env b = verify_signed ops rd env b"
proof -
  from assms obtain body where b: "envelopeBody env = Inr body"
    by (auto simp: sig_ok_def split: option.splits elim: signed_bytesE)
  with assms have "Verify ed body (elems (Env_Signature env)) (bk_signerPub b) = Inr ()"
    by (simp add: Verify_sig_ok)
  then show ?thesis by (simp add: VerifyAttestation_def b verify_signed_def)
qed

lemma VerifyAttestation_sig_bad:
  assumes "\<not> sig_ok ed (bk_signerPub b) env"
  shows "\<exists>err. VerifyAttestation ed ops rd env b = (Inl err, b)
     \<and> err \<notin> {Sentinel ErrSigilRevoked, Sentinel ErrCapRevoked}"
proof (cases "envelopeBody env")
  case (Inr body)
  with Verify_sig_ok [OF Inr] assms show ?thesis
    by (auto simp: VerifyAttestation_def split: sum.split goerror.split)
qed (simp add: VerifyAttestation_def)

lemma VerifyAttestation_InrD:
  "VerifyAttestation ed ops rd env b = (Inr u, b') \<Longrightarrow>
     sig_ok ed (bk_signerPub b) env \<and> verify_signed ops rd env b = (Inr u, b')"
  using VerifyAttestation_sig_bad [of ed b env ops rd] VerifyAttestation_sig_ok [of ed b env ops rd]
  by (cases "sig_ok ed (bk_signerPub b) env") auto

lemma signed_bytes_exists:
  "AttestationEnvelope_json env \<noteq> None \<Longrightarrow> \<exists>bs. signed_bytes env = Some bs"
proof -
  assume "AttestationEnvelope_json env \<noteq> None"
  then obtain body where "envelopeBody env = Inr body"
    by (auto simp: envelopeBody_eq AttestationEnvelope_json_def split: option.splits)
  then show ?thesis by (auto dest: signed_bytes_body)
qed

text \<open>What the issuer signed verifies, when the signature scheme is correct for its key pair.\<close>

definition keys_match :: "ed25519 \<Rightarrow> bytes \<Rightarrow> bytes \<Rightarrow> bool" where
  "keys_match ed pub priv \<longleftrightarrow> length pub = 32 \<and> (\<forall>m. ed_Verify ed pub m (ed_Sign ed priv m))"

lemma IssueAttestationE:
  assumes "IssueAttestation ed rd sigilID caps expiresAt b = Inr env"
  obtains body where "envelopeBody env = Inr body" "length (bk_signerPriv b) = 64"
    "env = \<lparr>Env_Version = Version, Env_SigilID = sigilID, Env_Caps = caps, Env_Issuer = IssuerName,
       Env_IssuedAt = Time_UTC (rd_now rd 0), Env_ExpiresAt = expiresAt,
       Env_Signature = Some (ed_Sign ed (bk_signerPriv b) (marshalCanonical (JObj body)))\<rparr>"
proof -
  let ?e = "\<lparr>Env_Version = Version, Env_SigilID = sigilID, Env_Caps = caps, Env_Issuer = IssuerName,
       Env_IssuedAt = Time_UTC (rd_now rd 0), Env_ExpiresAt = expiresAt, Env_Signature = None\<rparr>"
  from assms obtain body sig where body: "envelopeBody ?e = Inr body"
    and sig: "Sign ed body (bk_signerPriv b) = Inr sig" and env: "env = ?e\<lparr>Env_Signature := Some sig\<rparr>"
    by (auto simp: IssueAttestation_def Let_def split: sum.splits goerror.splits)
  have "CanonicalJSON (JObj body) = Inr (marshalCanonical (JObj body))"
    using body by (auto simp: CanonicalJSON_wf elim: envelopeBodyE)
  with sig have "length (bk_signerPriv b) = 64" "sig = ed_Sign ed (bk_signerPriv b) (marshalCanonical (JObj body))"
    by (auto simp: Sign_def ed25519_Sign_def split: if_splits)
  moreover have "envelopeBody env = Inr body" unfolding env using body by (simp only: envelopeBody_signature)
  ultimately show thesis using that env by simp
qed

lemma IssueAttestation_succeeds:
  assumes "caps_json caps \<noteq> None" "fmt_time (Time_UTC (rd_now rd 0)) \<noteq> None" "fmt_time expiresAt \<noteq> None"
    and "length (bk_signerPriv b) = 64"
  shows "\<exists>env. IssueAttestation ed rd sigilID caps expiresAt b = Inr env"
proof -
  let ?e = "\<lparr>Env_Version = Version, Env_SigilID = sigilID, Env_Caps = caps, Env_Issuer = IssuerName,
       Env_IssuedAt = Time_UTC (rd_now rd 0), Env_ExpiresAt = expiresAt, Env_Signature = None\<rparr>"
  from assms obtain body where body: "envelopeBody ?e = Inr body" by (auto simp: envelopeBody_eq)
  then have "CanonicalJSON (JObj body) = Inr (marshalCanonical (JObj body))"
    by (auto simp: CanonicalJSON_wf elim: envelopeBodyE)
  with body assms(4) show ?thesis by (simp add: IssueAttestation_def Sign_def ed25519_Sign_def)
qed

lemma IssueAttestation_sig_ok:
  assumes "IssueAttestation ed rd sigilID caps expiresAt b = Inr env"
    and "keys_match ed (bk_signerPub b) (bk_signerPriv b)"
  shows "sig_ok ed (bk_signerPub b) env"
  using assms(1)
proof (rule IssueAttestationE)
  fix body assume b: "envelopeBody env = Inr body" "length (bk_signerPriv b) = 64"
    "env = \<lparr>Env_Version = Version, Env_SigilID = sigilID, Env_Caps = caps, Env_Issuer = IssuerName,
       Env_IssuedAt = Time_UTC (rd_now rd 0), Env_ExpiresAt = expiresAt,
       Env_Signature = Some (ed_Sign ed (bk_signerPriv b) (marshalCanonical (JObj body)))\<rparr>"
  have "Env_Signature env = Some (ed_Sign ed (bk_signerPriv b) (marshalCanonical (JObj body)))"
    by (subst b(3)) simp
  with signed_bytes_body [OF b(1)] assms(2) show ?thesis by (simp add: sig_ok_def keys_match_def)
qed

subsection \<open>Frame: what verification changes of the broker\<close>

text \<open>
  Everything but the store and the two counters stays, and the counters move by exactly the
  outcome of the call.
\<close>

definition same_broker :: "'s Broker \<Rightarrow> 's Broker \<Rightarrow> bool" where
  "same_broker b b' \<longleftrightarrow> bk_signerPriv b' = bk_signerPriv b \<and> bk_signerPub b' = bk_signerPub b
     \<and> bk_workspaceID b' = bk_workspaceID b \<and> bk_metrics b' = bk_metrics b
     \<and> bk_published b' = bk_published b"

lemma verify_caps_Cons:
  assumes "st_IsRevoked ops (Cap_ID c) (bk_store b) = (rv, st1)"
    and "st_TryRecordNonce ops (Cap_Nonce c) st1 = (f, st2)"
  shows "verify_caps ops now k (c # cs) b =
     (if rv then (Inl (Sentinel ErrCapRevoked),
         b\<lparr>bk_store := st1, bk_revocationDenied := bk_revocationDenied b + 1\<rparr>)
      else if Time_After (now k) (Cap_ExpiresAt c) then (Inl (Sentinel ErrCapExpired), b\<lparr>bk_store := st1\<rparr>)
      else if \<not> f then (Inl (Sentinel ErrReplayAttack), b\<lparr>bk_store := st2\<rparr>)
      else verify_caps ops now (Suc k) cs (b\<lparr>bk_store := st2\<rparr>))"
  using assms by (simp add: Let_def)

declare verify_caps.simps(2) [simp del]

lemma verify_signed_eq:
  assumes "st_IsRevoked ops (Env_SigilID env) (bk_store b) = (rv, st1)"
    and "verify_caps ops (rd_now rd) (Suc 0) (elems (Env_Caps env)) (b\<lparr>bk_store := st1\<rparr>) = (r2, b2)"
  shows "verify_signed ops rd env b =
     (if rv then (Inl (Sentinel ErrSigilRevoked),
         b\<lparr>bk_store := st1, bk_revocationDenied := bk_revocationDenied b + 1\<rparr>)
      else if Time_After (rd_now rd 0) (Env_ExpiresAt env)
      then (Inl (Sentinel ErrCapExpired), b\<lparr>bk_store := st1\<rparr>)
      else (r2, if r2 = Inr () then b2\<lparr>bk_revocationAllowed := bk_revocationAllowed b2 + 1\<rparr> else b2))"
  using assms by (cases r2) (simp_all add: verify_signed_def Let_def)

lemma verify_caps_frame:
  "verify_caps ops now k cs b = (r, b') \<Longrightarrow> same_broker b b'
     \<and> bk_revocationAllowed b' = bk_revocationAllowed b
     \<and> bk_revocationDenied b' = bk_revocationDenied b + (if r = Inl (Sentinel ErrCapRevoked) then 1 else 0)
     \<and> r \<noteq> Inl (Sentinel ErrSigilRevoked)"
proof (induction cs arbitrary: k b)
  case (Cons c cs)
  obtain rv st1 where 1: "st_IsRevoked ops (Cap_ID c) (bk_store b) = (rv, st1)" by fastforce
  obtain f st2 where 2: "st_TryRecordNonce ops (Cap_Nonce c) st1 = (f, st2)" by fastforce
  show ?case
    using Cons.prems Cons.IH [of "Suc k" "b\<lparr>bk_store := st2\<rparr>"]
    by (auto simp: verify_caps_Cons [OF 1 2] same_broker_def split: if_splits)
qed (auto simp: same_broker_def)

lemma verify_signed_frame:
  assumes "verify_signed ops rd env b = (r, b')"
  shows "same_broker b b'
     \<and> bk_revocationAllowed b' = bk_revocationAllowed b + (if r = Inr () then 1 else 0)
     \<and> bk_revocationDenied b' = bk_revocationDenied b
          + (if r \<in> {Inl (Sentinel ErrSigilRevoked), Inl (Sentinel ErrCapRevoked)} then 1 else 0)"
proof -
  obtain rv st1 where 1: "st_IsRevoked ops (Env_SigilID env) (bk_store b) = (rv, st1)" by fastforce
  obtain r2 b2 where 2: "verify_caps ops (rd_now rd) (Suc 0) (elems (Env_Caps env)) (b\<lparr>bk_store := st1\<rparr>) = (r2, b2)"
    by fastforce
  from verify_caps_frame [OF 2] assms show ?thesis
    by (auto simp: verify_signed_eq [OF 1 2] same_broker_def split: if_splits)
qed

subsection \<open>Verification only calls store methods\<close>

lemma verify_caps_steps:
  "store_steps ops (bk_store b) (bk_store (snd (verify_caps ops now k cs b)))"
proof (induction cs arbitrary: k b)
  case (Cons c cs)
  obtain rv st1 where 1: "st_IsRevoked ops (Cap_ID c) (bk_store b) = (rv, st1)" by fastforce
  obtain f st2 where 2: "st_TryRecordNonce ops (Cap_Nonce c) st1 = (f, st2)" by fastforce
  have s1: "store_steps ops (bk_store b) st1" using store_step_results(6) [OF 1] by blast
  then have s2: "store_steps ops (bk_store b) st2"
    using store_step_results(5) [OF 2] by (rule rtranclp.rtrancl_into_rtrancl)
  show ?case using s1 s2 rtranclp_trans [OF s2 Cons.IH [of "b\<lparr>bk_store := st2\<rparr>" "Suc k", simplified]]
    by (simp add: verify_caps_Cons [OF 1 2])
qed simp

lemma verify_signed_steps:
  "store_steps ops (bk_store b) (bk_store (snd (verify_signed ops rd env b)))"
proof -
  obtain rv st1 where 1: "st_IsRevoked ops (Env_SigilID env) (bk_store b) = (rv, st1)" by fastforce
  have s1: "store_steps ops (bk_store b) st1" using store_step_results(6) [OF 1] by blast
  obtain r2 b2 where 2: "verify_caps ops (rd_now rd) (Suc 0) (elems (Env_Caps env)) (b\<lparr>bk_store := st1\<rparr>) = (r2, b2)"
    by fastforce
  from verify_caps_steps [of ops "b\<lparr>bk_store := st1\<rparr>" "rd_now rd" "Suc 0" "elems (Env_Caps env)"]
  have s2: "store_steps ops (bk_store b) (bk_store b2)"
    using rtranclp_trans [OF s1] unfolding 2 by simp
  show ?thesis using s1 s2 by (simp add: verify_signed_eq [OF 1 2])
qed

lemma VerifyAttestation_steps:
  "store_steps ops (bk_store b) (bk_store (snd (VerifyAttestation ed ops rd env b)))"
  using VerifyAttestation_sig_ok [of ed b env ops rd] VerifyAttestation_sig_bad [of ed b env ops rd]
    verify_signed_steps [of ops b rd env] by (cases "sig_ok ed (bk_signerPub b) env") auto

subsection \<open>From the contract of any store\<close>

abbreviation cap_nonce :: "CapabilityToken \<Rightarrow> bytes" where
  "cap_nonce c \<equiv> elems (Cap_Nonce c)"

context store_contract
begin

lemma verify_caps_accept:
  "verify_caps ops now k cs b = (Inr u, b') \<Longrightarrow>
     distinct (map cap_nonce cs) \<and> set (map cap_nonce cs) \<inter> consumed (bk_store b) = {}
     \<and> set (map cap_nonce cs) \<subseteq> consumed (bk_store b')
     \<and> (\<forall>i < length cs. \<not> Time_After (now (k + i)) (Cap_ExpiresAt (cs ! i)))"
proof (induction cs arbitrary: k b)
  case (Cons c cs)
  obtain rv st1 where 1: "st_IsRevoked ops (Cap_ID c) (bk_store b) = (rv, st1)" by fastforce
  obtain f st2 where 2: "st_TryRecordNonce ops (Cap_Nonce c) st1 = (f, st2)" by fastforce
  let ?b = "b\<lparr>bk_store := st2\<rparr>"
  from Cons.prems have f: "f" "\<not> Time_After (now k) (Cap_ExpiresAt c)"
    and rest: "verify_caps ops now (Suc k) cs ?b = (Inr u, b')"
    by (auto simp: verify_caps_Cons [OF 1 2] split: if_splits)
  note IH = Cons.IH [OF rest]
  have c: "cap_nonce c \<notin> consumed st1" "cap_nonce c \<in> consumed st2"
    using try_first [of "Cap_Nonce c" st1 st2] 2 f(1) by auto
  have "consumed (bk_store b) \<subseteq> consumed st1" "consumed st1 \<subseteq> consumed st2"
    using step_keeps [OF store_step_results(6) [OF 1]] step_keeps [OF store_step_results(5) [OF 2]]
    by simp_all
  moreover have "consumed st2 \<subseteq> consumed (bk_store b')"
    using steps_keep [OF verify_caps_steps [of ops ?b now "Suc k" cs]] rest by simp
  ultimately show ?case using IH c f(2)
    by (auto simp: less_Suc_eq_0_disj subset_iff disjoint_iff image_iff)
qed simp

lemma verify_signed_accept:
  assumes "verify_signed ops rd env b = (Inr u, b')"
  shows "distinct (map cap_nonce (elems (Env_Caps env)))
     \<and> set (map cap_nonce (elems (Env_Caps env))) \<inter> consumed (bk_store b) = {}
     \<and> set (map cap_nonce (elems (Env_Caps env))) \<subseteq> consumed (bk_store b')
     \<and> \<not> Time_After (rd_now rd 0) (Env_ExpiresAt env)"
proof -
  obtain rv st1 where 1: "st_IsRevoked ops (Env_SigilID env) (bk_store b) = (rv, st1)" by fastforce
  obtain r2 b2 where 2: "verify_caps ops (rd_now rd) (Suc 0) (elems (Env_Caps env)) (b\<lparr>bk_store := st1\<rparr>) = (r2, b2)"
    by fastforce
  from assms have "r2 = Inr u" "bk_store b' = bk_store b2" "\<not> Time_After (rd_now rd 0) (Env_ExpiresAt env)"
    by (auto simp: verify_signed_eq [OF 1 2] split: if_splits)
  moreover have "consumed (bk_store b) \<subseteq> consumed st1"
    using step_keeps [OF store_step_results(6) [OF 1]] by simp
  ultimately show ?thesis
    using verify_caps_accept [of "rd_now rd" "Suc 0" "elems (Env_Caps env)" "b\<lparr>bk_store := st1\<rparr>" u b2] 2
    by (auto simp: subset_iff disjoint_iff)
qed

text \<open>
  Two accepted verifications, with any calls of any goroutines between them, share no nonce.
\<close>

lemma verify_no_replay:
  assumes "VerifyAttestation ed ops rd env b = (Inr u, b1)"
    and "store_steps ops (bk_store b1) (bk_store b2)"
    and "c \<in> set (elems (Env_Caps env))" and "c' \<in> set (elems (Env_Caps env'))"
    and "cap_nonce c = cap_nonce c'"
  shows "fst (VerifyAttestation ed' ops rd' env' b2) \<noteq> Inr v"
proof
  assume acc: "fst (VerifyAttestation ed' ops rd' env' b2) = Inr v"
  then obtain b3 where "VerifyAttestation ed' ops rd' env' b2 = (Inr v, b3)" by (metis prod.collapse)
  then have "verify_signed ops rd' env' b2 = (Inr v, b3)" by (auto dest: VerifyAttestation_InrD)
  from verify_signed_accept [OF this] have "cap_nonce c' \<notin> consumed (bk_store b2)"
    using assms(4) by auto
  moreover have "verify_signed ops rd env b = (Inr u, b1)"
    using assms(1) by (auto dest: VerifyAttestation_InrD)
  from verify_signed_accept [OF this] have "cap_nonce c \<in> consumed (bk_store b1)"
    using assms(3) by auto
  ultimately show False using steps_keep [OF assms(2)] assms(5) by auto
qed

end

subsection \<open>With a healthy store\<close>

context reliable_store
begin

lemma verify_caps_iff:
  "healthy (bk_store b) \<Longrightarrow> \<forall>c \<in> set cs. Cap_Nonce c \<noteq> None \<Longrightarrow>
   fst (verify_caps ops now k cs b) = Inr () \<longleftrightarrow>
     (\<forall>c \<in> set cs. Cap_ID c \<notin> revoked (bk_store b))
     \<and> (\<forall>i < length cs. \<not> Time_After (now (k + i)) (Cap_ExpiresAt (cs ! i)))
     \<and> distinct (map cap_nonce cs) \<and> set (map cap_nonce cs) \<inter> consumed (bk_store b) = {}"
proof (induction cs arbitrary: k b)
  case (Cons c cs)
  obtain n where n: "Cap_Nonce c = Some n" using Cons.prems(2) by auto
  obtain rv st1 where 1: "st_IsRevoked ops (Cap_ID c) (bk_store b) = (rv, st1)" by fastforce
  obtain f st2 where 2: "st_TryRecordNonce ops (Cap_Nonce c) st1 = (f, st2)" by fastforce
  let ?b = "b\<lparr>bk_store := st2\<rparr>"
  have h: "healthy st1" "healthy st2"
    using Cons.prems(1) healthy_step store_step_results(6) [OF 1] store_step_results(5) [OF 2] by blast+
  have st1: "consumed st1 = consumed (bk_store b)" "revoked st1 = revoked (bk_store b)"
    using only_nonces(1,2) [of "Cap_ID c" "bk_store b"] 1 by simp_all
  have rv: "rv \<longleftrightarrow> Cap_ID c \<in> revoked (bk_store b)"
    using IsRevoked_exact [OF Cons.prems(1), of "Cap_ID c"] 1 by simp
  have f: "f \<longleftrightarrow> n \<notin> consumed (bk_store b)"
    using TryRecordNonce_exact [OF h(1), of n] 2 n st1 by simp
  have st2: "revoked st2 = revoked (bk_store b)" "f \<Longrightarrow> consumed st2 = insert n (consumed (bk_store b))"
    using only_nonces(3,4) [of n st1] try_first [of "Some n" st1 st2]
      step_keeps [OF store_step_results(5) [OF 2]] 2 n st1 by auto
  have IH: "fst (verify_caps ops now (Suc k) cs ?b) = Inr () \<longleftrightarrow>
     (\<forall>c \<in> set cs. Cap_ID c \<notin> revoked st2)
     \<and> (\<forall>i < length cs. \<not> Time_After (now (Suc k + i)) (Cap_ExpiresAt (cs ! i)))
     \<and> distinct (map cap_nonce cs) \<and> set (map cap_nonce cs) \<inter> consumed st2 = {}"
    using Cons.IH [of ?b "Suc k"] Cons.prems(2) h(2) by simp
  have "(\<forall>i < length (c # cs). \<not> Time_After (now (k + i)) (Cap_ExpiresAt ((c # cs) ! i))) \<longleftrightarrow>
      \<not> Time_After (now k) (Cap_ExpiresAt c) \<and>
      (\<forall>i < length cs. \<not> Time_After (now (Suc k + i)) (Cap_ExpiresAt (cs ! i)))"
    by (simp add: All_less_Suc2)
  with IH rv f st2 n show ?case by (auto simp: verify_caps_Cons [OF 1 2])
qed simp

lemma verify_signed_iff:
  assumes "healthy (bk_store b)" and "\<forall>c \<in> set (elems (Env_Caps env)). Cap_Nonce c \<noteq> None"
  shows "fst (verify_signed ops rd env b) = Inr () \<longleftrightarrow>
     Env_SigilID env \<notin> revoked (bk_store b) \<and> \<not> Time_After (rd_now rd 0) (Env_ExpiresAt env)
     \<and> (\<forall>c \<in> set (elems (Env_Caps env)). Cap_ID c \<notin> revoked (bk_store b))
     \<and> (\<forall>i < length (elems (Env_Caps env)).
          \<not> Time_After (rd_now rd (Suc i)) (Cap_ExpiresAt (elems (Env_Caps env) ! i)))
     \<and> distinct (map cap_nonce (elems (Env_Caps env)))
     \<and> set (map cap_nonce (elems (Env_Caps env))) \<inter> consumed (bk_store b) = {}"
proof -
  obtain rv st1 where 1: "st_IsRevoked ops (Env_SigilID env) (bk_store b) = (rv, st1)" by fastforce
  obtain r2 b2 where 2: "verify_caps ops (rd_now rd) (Suc 0) (elems (Env_Caps env)) (b\<lparr>bk_store := st1\<rparr>) = (r2, b2)"
    by fastforce
  have h: "healthy st1" using assms(1) healthy_step store_step_results(6) [OF 1] by blast
  have st1: "consumed st1 = consumed (bk_store b)" "revoked st1 = revoked (bk_store b)"
    using only_nonces(1,2) [of "Env_SigilID env" "bk_store b"] 1 by simp_all
  have rv: "rv \<longleftrightarrow> Env_SigilID env \<in> revoked (bk_store b)"
    using IsRevoked_exact [OF assms(1), of "Env_SigilID env"] 1 by simp
  show ?thesis
    using verify_caps_iff [of "b\<lparr>bk_store := st1\<rparr>" "elems (Env_Caps env)" "rd_now rd" "Suc 0"]
      assms(2) h st1 rv 2 by (auto simp: verify_signed_eq [OF 1 2])
qed

text \<open>A revoked sigil or token is refused by the next verification.\<close>

lemma verify_revoked_sigil:
  assumes "healthy (bk_store b)" and "Env_SigilID env \<in> revoked (bk_store b)"
  shows "verify_signed ops rd env b = (Inl (Sentinel ErrSigilRevoked),
     b\<lparr>bk_store := snd (st_IsRevoked ops (Env_SigilID env) (bk_store b)),
       bk_revocationDenied := bk_revocationDenied b + 1\<rparr>)"
  using IsRevoked_exact [OF assms(1), of "Env_SigilID env"] assms(2)
  by (cases "st_IsRevoked ops (Env_SigilID env) (bk_store b)") (simp add: verify_signed_def Let_def)

lemma verify_caps_revoked:
  "healthy (bk_store b) \<Longrightarrow> c \<in> set cs \<Longrightarrow> Cap_ID c \<in> revoked (bk_store b) \<Longrightarrow>
     fst (verify_caps ops now k cs b) \<noteq> Inr u"
proof (induction cs arbitrary: k b)
  case (Cons d cs)
  obtain rv st1 where 1: "st_IsRevoked ops (Cap_ID d) (bk_store b) = (rv, st1)" by fastforce
  obtain f st2 where 2: "st_TryRecordNonce ops (Cap_Nonce d) st1 = (f, st2)" by fastforce
  have s: "store_steps ops (bk_store b) st2"
    using store_step_results(6) [OF 1] store_step_results(5) [OF 2] by (meson rtranclp.simps)
  have h: "healthy st2" "Cap_ID c \<in> revoked st2"
    using healthy_steps [OF s Cons.prems(1)] steps_keep [OF s] Cons.prems(3) by auto
  have rv: "rv \<longleftrightarrow> Cap_ID d \<in> revoked (bk_store b)"
    using IsRevoked_exact [OF Cons.prems(1), of "Cap_ID d"] 1 by simp
  show ?case
    using Cons.prems rv Cons.IH [of "b\<lparr>bk_store := st2\<rparr>" "Suc k"] h
    by (auto simp: verify_caps_Cons [OF 1 2])
qed simp

lemma verify_revoked_cap:
  assumes "healthy (bk_store b)" and "c \<in> set (elems (Env_Caps env))"
    and "Cap_ID c \<in> revoked (bk_store b)"
  shows "fst (VerifyAttestation ed ops rd env b) \<noteq> Inr u"
proof
  assume "fst (VerifyAttestation ed ops rd env b) = Inr u"
  then obtain b' where "VerifyAttestation ed ops rd env b = (Inr u, b')" by (metis prod.collapse)
  then have acc: "verify_signed ops rd env b = (Inr u, b')" by (auto dest: VerifyAttestation_InrD)
  obtain rv st1 where 1: "st_IsRevoked ops (Env_SigilID env) (bk_store b) = (rv, st1)" by fastforce
  obtain r2 b2 where 2: "verify_caps ops (rd_now rd) (Suc 0) (elems (Env_Caps env)) (b\<lparr>bk_store := st1\<rparr>) = (r2, b2)"
    by fastforce
  have "healthy st1" "Cap_ID c \<in> revoked st1"
    using assms healthy_step store_step_results(6) [OF 1] step_keeps by blast+
  then have "r2 \<noteq> Inr u"
    using verify_caps_revoked [of "b\<lparr>bk_store := st1\<rparr>" c "elems (Env_Caps env)" "rd_now rd" "Suc 0"] assms(2) 2
    by simp
  with acc show False by (auto simp: verify_signed_eq [OF 1 2] split: if_splits)
qed

end

end
