(* ===== verification/Interleaving.thy ===== *)
theory Interleaving
  imports VerifyProps
begin

text \<open>
  Concurrent verification. \<open>VerifyAttestation\<close> runs in one goroutine per request and touches
  shared state only through the methods of the store, each of which is atomic. A verifier is a
  small state machine that makes one store call per step; a configuration is the store and any
  number of verifiers, and a run interleaves their steps with arbitrary other store calls. The
  clock readings are arbitrary.

  One verifier that runs alone computes what \<open>VerifyAttestation\<close> of the theory \<open>Broker\<close> computes.
  In every run, verifiers that accept have consumed pairwise disjoint sets of nonces.
\<close>

datatype vpc =
    AtSigil
  | AtCap "CapabilityToken list"
  | AtNonce CapabilityToken "CapabilityToken list"
  | Finished "goerror + unit"

text \<open>\<open>vt_won\<close> records the nonces the verifier consumed, oldest first.\<close>

record vthread =
  vt_env :: AttestationEnvelope
  vt_pc :: vpc
  vt_won :: "bytes list"

definition start :: "AttestationEnvelope \<Rightarrow> vthread" where
  "start env = \<lparr>vt_env = env, vt_pc = AtSigil, vt_won = []\<rparr>"

definition thread_step :: "'s store_ops \<Rightarrow> time \<Rightarrow> vthread \<Rightarrow> 's \<Rightarrow> vthread \<times> 's" where
  "thread_step ops now t s =
     (case vt_pc t of
        AtSigil \<Rightarrow>
          (let (rv, s') = st_IsRevoked ops (Env_SigilID (vt_env t)) s
           in (t\<lparr>vt_pc := if rv then Finished (Inl (Sentinel ErrSigilRevoked))
                else if Time_After now (Env_ExpiresAt (vt_env t)) then Finished (Inl (Sentinel ErrCapExpired))
                else AtCap (elems (Env_Caps (vt_env t)))\<rparr>, s'))
      | AtCap [] \<Rightarrow> (t\<lparr>vt_pc := Finished (Inr ())\<rparr>, s)
      | AtCap (c # cs) \<Rightarrow>
          (let (rv, s') = st_IsRevoked ops (Cap_ID c) s
           in (t\<lparr>vt_pc := if rv then Finished (Inl (Sentinel ErrCapRevoked))
                else if Time_After now (Cap_ExpiresAt c) then Finished (Inl (Sentinel ErrCapExpired))
                else AtNonce c cs\<rparr>, s'))
      | AtNonce c cs \<Rightarrow>
          (let (fresh, s') = st_TryRecordNonce ops (Cap_Nonce c) s
           in if fresh then (t\<lparr>vt_pc := AtCap cs, vt_won := vt_won t @ [cap_nonce c]\<rparr>, s')
              else (t\<lparr>vt_pc := Finished (Inl (Sentinel ErrReplayAttack))\<rparr>, s'))
      | Finished r \<Rightarrow> (t, s))"

inductive run_step :: "'s store_ops \<Rightarrow> 's \<times> (nat \<Rightarrow> vthread) \<Rightarrow> 's \<times> (nat \<Rightarrow> vthread) \<Rightarrow> bool" for ops where
  run_verifier: "thread_step ops now (ts i) s = (t, s') \<Longrightarrow> run_step ops (s, ts) (s', ts(i := t))"
| run_other: "store_step ops s s' \<Longrightarrow> run_step ops (s, ts) (s', ts)"

abbreviation runs :: "'s store_ops \<Rightarrow> 's \<times> (nat \<Rightarrow> vthread) \<Rightarrow> 's \<times> (nat \<Rightarrow> vthread) \<Rightarrow> bool" where
  "runs ops \<equiv> (run_step ops)\<^sup>*\<^sup>*"

subsection \<open>A verifier alone\<close>

definition solo :: "'s store_ops \<Rightarrow> vthread \<times> 's \<Rightarrow> vthread \<times> 's \<Rightarrow> bool" where
  "solo ops ts ts' \<longleftrightarrow> (\<exists>now. thread_step ops now (fst ts) (snd ts) = ts')"

lemma soloI: "thread_step ops now t s = ts' \<Longrightarrow> (solo ops)\<^sup>*\<^sup>* (t, s) ts'"
  by (rule r_into_rtranclp) (auto simp: solo_def)

lemma solo_caps:
  "verify_caps ops now k cs b = (r, b') \<Longrightarrow> vt_pc t = AtCap cs \<Longrightarrow>
     \<exists>t'. (solo ops)\<^sup>*\<^sup>* (t, bk_store b) (t', bk_store b') \<and> vt_pc t' = Finished r \<and> vt_env t' = vt_env t"
proof (induction cs arbitrary: k b t)
  case Nil
  then have "thread_step ops undefined t (bk_store b) = (t\<lparr>vt_pc := Finished (Inr ())\<rparr>, bk_store b)"
    by (simp add: thread_step_def)
  with Nil show ?case by (intro exI [of _ "t\<lparr>vt_pc := Finished (Inr ())\<rparr>"]) (auto dest: soloI)
next
  case (Cons c cs)
  obtain rv st1 where 1: "st_IsRevoked ops (Cap_ID c) (bk_store b) = (rv, st1)" by fastforce
  obtain f st2 where 2: "st_TryRecordNonce ops (Cap_Nonce c) st1 = (f, st2)" by fastforce
  define pc where "pc = (if rv then Finished (Inl (Sentinel ErrCapRevoked))
     else if Time_After (now k) (Cap_ExpiresAt c) then Finished (Inl (Sentinel ErrCapExpired)) else AtNonce c cs)"
  have s1: "(solo ops)\<^sup>*\<^sup>* (t, bk_store b) (t\<lparr>vt_pc := pc\<rparr>, st1)"
    by (rule soloI [of _ "now k"]) (simp add: thread_step_def Cons.prems(2) 1 pc_def)
  show ?case
  proof (cases "rv \<or> Time_After (now k) (Cap_ExpiresAt c)")
    case True
    then show ?thesis
      using Cons.prems(1) s1 by (intro exI [of _ "t\<lparr>vt_pc := pc\<rparr>"]) (auto simp: verify_caps_Cons [OF 1 2] pc_def)
  next
    case False
    define t2 where "t2 = (if f then t\<lparr>vt_pc := AtCap cs, vt_won := vt_won t @ [cap_nonce c]\<rparr>
       else t\<lparr>vt_pc := Finished (Inl (Sentinel ErrReplayAttack))\<rparr>)"
    have "(solo ops)\<^sup>*\<^sup>* (t\<lparr>vt_pc := pc\<rparr>, st1) (t2, st2)"
      using False by (intro soloI [of _ undefined]) (auto simp: thread_step_def pc_def 2 t2_def)
    with s1 have s2: "(solo ops)\<^sup>*\<^sup>* (t, bk_store b) (t2, st2)" by (rule rtranclp_trans)
    show ?thesis
    proof (cases f)
      case True
      then have "verify_caps ops now (Suc k) cs (b\<lparr>bk_store := st2\<rparr>) = (r, b')" "vt_pc t2 = AtCap cs" "vt_env t2 = vt_env t"
        using Cons.prems(1) False by (auto simp: verify_caps_Cons [OF 1 2] t2_def)
      from Cons.IH [OF this(1,2)] this(3) s2 show ?thesis by (auto intro: rtranclp_trans)
    next
      case nf: False
      then show ?thesis using Cons.prems(1) False s2
        by (intro exI [of _ t2]) (auto simp: verify_caps_Cons [OF 1 2] t2_def)
    qed
  qed
qed

lemma solo_verify_signed:
  assumes "verify_signed ops rd env b = (r, b')"
  shows "\<exists>t'. (solo ops)\<^sup>*\<^sup>* (start env, bk_store b) (t', bk_store b') \<and> vt_pc t' = Finished r"
proof -
  obtain rv st1 where 1: "st_IsRevoked ops (Env_SigilID env) (bk_store b) = (rv, st1)" by fastforce
  obtain r2 b2 where 2: "verify_caps ops (rd_now rd) (Suc 0) (elems (Env_Caps env)) (b\<lparr>bk_store := st1\<rparr>) = (r2, b2)"
    by fastforce
  define pc where "pc = (if rv then Finished (Inl (Sentinel ErrSigilRevoked))
     else if Time_After (rd_now rd 0) (Env_ExpiresAt env) then Finished (Inl (Sentinel ErrCapExpired))
     else AtCap (elems (Env_Caps env)))"
  have s1: "(solo ops)\<^sup>*\<^sup>* (start env, bk_store b) ((start env)\<lparr>vt_pc := pc\<rparr>, st1)"
    by (rule soloI [of _ "rd_now rd 0"]) (simp add: thread_step_def start_def 1 pc_def)
  show ?thesis
  proof (cases "rv \<or> Time_After (rd_now rd 0) (Env_ExpiresAt env)")
    case True
    then show ?thesis using assms s1
      by (intro exI [of _ "(start env)\<lparr>vt_pc := pc\<rparr>"]) (auto simp: verify_signed_eq [OF 1 2] pc_def)
  next
    case False
    then have "vt_pc ((start env)\<lparr>vt_pc := pc\<rparr>) = AtCap (elems (Env_Caps env))" by (simp add: pc_def)
    from solo_caps [OF 2 this] obtain t' where
      "(solo ops)\<^sup>*\<^sup>* ((start env)\<lparr>vt_pc := pc\<rparr>, st1) (t', bk_store b2)" "vt_pc t' = Finished r2" by auto
    moreover have "r = r2" "bk_store b' = bk_store b2"
      using assms False by (auto simp: verify_signed_eq [OF 1 2] split: if_splits)
    ultimately show ?thesis using s1 by (auto intro: rtranclp_trans)
  qed
qed

lemma solo_runs:
  "(solo ops)\<^sup>*\<^sup>* (ts i, s) (t, s') \<Longrightarrow> runs ops (s, ts) (s', ts(i := t))"
proof (induction "(t, s')" arbitrary: t s' rule: rtranclp_induct)
  case (step y)
  obtain t1 s1 where y: "y = (t1, s1)" by (cases y)
  with step.hyps(2) obtain now where "thread_step ops now ((ts(i := t1)) i) s1 = (t, s')"
    by (auto simp: solo_def)
  from run_verifier [of ops now "ts(i := t1)" i, OF this] have "run_step ops (s1, ts(i := t1)) (s', ts(i := t))" by simp
  with step.hyps(3) [OF y] show ?case by (rule rtranclp.rtrancl_into_rtrancl)
qed simp

lemma signed_runs:
  assumes "verify_signed ops rd env b = (r, b')" and "ts i = start env"
  shows "\<exists>t. runs ops (bk_store b, ts) (bk_store b', ts(i := t)) \<and> vt_pc t = Finished r"
  using solo_verify_signed [OF assms(1)] solo_runs assms(2) by metis

subsection \<open>The invariant of interleaved runs\<close>

fun remaining :: "vpc \<Rightarrow> AttestationEnvelope \<Rightarrow> bytes list option" where
  "remaining AtSigil env = Some (map cap_nonce (elems (Env_Caps env)))"
| "remaining (AtCap cs) env = Some (map cap_nonce cs)"
| "remaining (AtNonce c cs) env = Some (map cap_nonce (c # cs))"
| "remaining (Finished (Inr u)) env = Some []"
| "remaining (Finished (Inl e)) env = None"

text \<open>What a verifier consumed and what it still has to consume are the nonces of its envelope.\<close>

definition thread_ok :: "vthread \<Rightarrow> bool" where
  "thread_ok t \<longleftrightarrow> (case remaining (vt_pc t) (vt_env t) of None \<Rightarrow> True
     | Some ns \<Rightarrow> map cap_nonce (elems (Env_Caps (vt_env t))) = vt_won t @ ns)"

lemma thread_ok_step: "thread_step ops now t s = (t', s') \<Longrightarrow> thread_ok t \<Longrightarrow> thread_ok t' \<and> vt_env t' = vt_env t"
  by (auto simp: thread_step_def thread_ok_def split: vpc.splits list.splits prod.splits if_splits
      sum.splits)

lemma thread_store_step: "thread_step ops now t s = (t', s') \<Longrightarrow> s' = s \<or> store_step ops s s'"
  by (auto simp: thread_step_def split: vpc.splits list.splits prod.splits if_splits
      dest: store_step_results)

lemma thread_step_won:
  "thread_step ops now t s = (t', s') \<Longrightarrow> vt_won t' = vt_won t \<or>
     (\<exists>n. st_TryRecordNonce ops n s = (True, s') \<and> vt_won t' = vt_won t @ [elems n])"
  by (auto simp: thread_step_def split: vpc.splits list.splits prod.splits if_splits)

definition won_ok :: "('s \<Rightarrow> bytes set) \<Rightarrow> 's \<times> (nat \<Rightarrow> vthread) \<Rightarrow> bool" where
  "won_ok consumed c \<longleftrightarrow> (\<forall>i. thread_ok (snd c i) \<and> distinct (vt_won (snd c i))
     \<and> set (vt_won (snd c i)) \<subseteq> consumed (fst c))
     \<and> (\<forall>i j. i \<noteq> j \<longrightarrow> set (vt_won (snd c i)) \<inter> set (vt_won (snd c j)) = {})"

context store_contract
begin

lemma won_ok_step: "run_step ops c c' \<Longrightarrow> won_ok consumed c \<Longrightarrow> won_ok consumed c'"
proof (induction rule: run_step.induct)
  case (run_verifier now ts i s t s')
  have keep: "consumed s \<subseteq> consumed s'"
    using thread_store_step [OF run_verifier.hyps] step_keeps by auto
  have ok: "thread_ok t" using thread_ok_step [OF run_verifier.hyps] run_verifier.prems by (simp add: won_ok_def)
  from thread_step_won [OF run_verifier.hyps] show ?case
  proof
    assume "vt_won t = vt_won (ts i)"
    with run_verifier.prems keep ok show ?case by (simp add: won_ok_def) (meson subset_trans)
  next
    assume "\<exists>n. st_TryRecordNonce ops n s = (True, s') \<and> vt_won t = vt_won (ts i) @ [elems n]"
    then obtain n where n: "st_TryRecordNonce ops n s = (True, s')" "vt_won t = vt_won (ts i) @ [elems n]" by blast
    with try_first have "elems n \<notin> consumed s" "elems n \<in> consumed s'" by blast+
    with run_verifier.prems keep ok n(2) show ?case
      by (simp add: won_ok_def) (meson in_mono subset_trans)
  qed
next
  case (run_other s s' ts)
  then show ?case using step_keeps [OF run_other.hyps] by (simp add: won_ok_def) (meson subset_trans)
qed

lemma won_ok_runs: "runs ops c c' \<Longrightarrow> won_ok consumed c \<Longrightarrow> won_ok consumed c'"
  by (induction rule: rtranclp_induct) (auto intro: won_ok_step)

lemma won_ok_start: "won_ok consumed (s, \<lambda>i. start (envs i))"
  by (simp add: won_ok_def start_def thread_ok_def)

text \<open>Verifiers that accept share no nonce, and none accepts an envelope that repeats one.\<close>

lemma accepted_disjoint:
  assumes "runs ops (s, \<lambda>i. start (envs i)) (s', ts)"
    and "vt_pc (ts i) = Finished (Inr ())" and "vt_pc (ts j) = Finished (Inr ())" and "i \<noteq> j"
  shows "distinct (map cap_nonce (elems (Env_Caps (vt_env (ts i)))))
     \<and> set (map cap_nonce (elems (Env_Caps (vt_env (ts i)))))
        \<inter> set (map cap_nonce (elems (Env_Caps (vt_env (ts j))))) = {}"
proof -
  have ok: "won_ok consumed (s', ts)" using won_ok_runs [OF assms(1) won_ok_start] .
  have acc: "map cap_nonce (elems (Env_Caps (vt_env (ts k)))) = vt_won (ts k)"
    if "vt_pc (ts k) = Finished (Inr ())" for k
  proof -
    have "thread_ok (ts k)" using ok by (simp add: won_ok_def)
    with that show ?thesis by (simp add: thread_ok_def)
  qed
  have "map cap_nonce (elems (Env_Caps (vt_env (ts i)))) = vt_won (ts i)"
    "map cap_nonce (elems (Env_Caps (vt_env (ts j)))) = vt_won (ts j)"
    using acc assms(2,3) by simp_all
  with ok assms(4) show ?thesis by (simp add: won_ok_def)
qed

end

lemma runs_env: "runs ops (s, ts) (s', ts') \<Longrightarrow> vt_env (ts' i) = vt_env (ts i)"
proof (induction "(s', ts')" arbitrary: s' ts' rule: rtranclp_induct)
  case (step y)
  from step.hyps(2) have "vt_env (ts' i) = vt_env (snd y i)"
    by cases (auto simp: thread_step_def split: vpc.splits list.splits prod.splits if_splits)
  with step.hyps(3) [of "fst y" "snd y"] show ?case by simp
qed simp

end
