(* ===== verification/MemStore.thy ===== *)
theory MemStore
  imports Interleaving
begin

text \<open>
  The in-memory store (\<open>src/store/mem.go\<close>) and its test wrapper (\<open>src/store/interface.go\<close>).
  Every method of the source holds the mutex from its first access to its last, so a call is
  one atomic state transition. Stored pointers are modelled by the values they point to: no
  code of the repository changes a sigil or token after it was saved.
\<close>

record MemStore =
  ms_sigils :: "string \<rightharpoonup> Sigil"
  ms_caps :: "string \<rightharpoonup> CapabilityToken"
  ms_revs :: RevocationList
  ms_revokedIDs :: "string \<rightharpoonup> unit"
  ms_nonces :: "string \<rightharpoonup> unit"

definition NewMemStore :: MemStore where
  "NewMemStore = \<lparr>ms_sigils = Map.empty, ms_caps = Map.empty, ms_revs = [],
     ms_revokedIDs = Map.empty, ms_nonces = Map.empty\<rparr>"

definition hexEncodeNonce :: "char slice \<Rightarrow> string" where
  "hexEncodeNonce nonce = hex_EncodeToString (elems nonce)"

definition MemStore_SaveSigil :: "Sigil \<Rightarrow> MemStore \<Rightarrow> (goerror + unit) \<times> MemStore" where
  "MemStore_SaveSigil s m = (Inr (), m\<lparr>ms_sigils := (ms_sigils m)(Sigil_ID s \<mapsto> s)\<rparr>)"

definition MemStore_GetSigil :: "string \<Rightarrow> MemStore \<Rightarrow> (goerror + Sigil) \<times> MemStore" where
  "MemStore_GetSigil i m =
     (case ms_sigils m i of
        None \<Rightarrow> (Inl (ErrText (''store: sigil '' @ i @ '' not found'')), m)
      | Some s \<Rightarrow> (Inr s, m))"

definition MemStore_SaveCap :: "CapabilityToken \<Rightarrow> MemStore \<Rightarrow> (goerror + unit) \<times> MemStore" where
  "MemStore_SaveCap c m = (Inr (), m\<lparr>ms_caps := (ms_caps m)(Cap_ID c \<mapsto> c)\<rparr>)"

definition MemStore_GetCap :: "string \<Rightarrow> MemStore \<Rightarrow> (goerror + CapabilityToken) \<times> MemStore" where
  "MemStore_GetCap i m =
     (case ms_caps m i of
        None \<Rightarrow> (Inl (ErrText (''store: cap '' @ i @ '' not found'')), m)
      | Some c \<Rightarrow> (Inr c, m))"

definition MemStore_NonceUsed :: "char slice \<Rightarrow> MemStore \<Rightarrow> bool \<times> MemStore" where
  "MemStore_NonceUsed nonce m = (ms_nonces m (hexEncodeNonce nonce) \<noteq> None, m)"

definition MemStore_RecordNonce :: "char slice \<Rightarrow> MemStore \<Rightarrow> MemStore" where
  "MemStore_RecordNonce nonce m = m\<lparr>ms_nonces := (ms_nonces m)(hexEncodeNonce nonce \<mapsto> ())\<rparr>"

definition MemStore_TryRecordNonce :: "char slice \<Rightarrow> MemStore \<Rightarrow> bool \<times> MemStore" where
  "MemStore_TryRecordNonce nonce m =
     (let key = hexEncodeNonce nonce
      in if ms_nonces m key \<noteq> None then (False, m)
         else (True, m\<lparr>ms_nonces := (ms_nonces m)(key \<mapsto> ())\<rparr>))"

definition MemStore_IsRevoked :: "string \<Rightarrow> MemStore \<Rightarrow> bool \<times> MemStore" where
  "MemStore_IsRevoked i m = (ms_revokedIDs m i \<noteq> None, m)"

definition MemStore_RevocationList :: "MemStore \<Rightarrow> RevocationList \<times> MemStore" where
  "MemStore_RevocationList m = (ms_revs m, m)"

definition MemStore_Revoke :: "RevocationEntry \<Rightarrow> MemStore \<Rightarrow> (goerror + unit) \<times> MemStore" where
  "MemStore_Revoke entry m =
     (Inr (), m\<lparr>ms_revs := ms_revs m @ [entry],
                ms_revokedIDs := (ms_revokedIDs m)(Rev_ID entry \<mapsto> ())\<rparr>)"

text \<open>The wrapper \<open>MemStoreCloser\<close>: the store itself, with \<open>RecordNonceStrict\<close> and a \<open>Close\<close> that does
  nothing.\<close>

definition NewMemStoreCloser :: MemStore where "NewMemStoreCloser = NewMemStore"

definition MemStoreCloser_RecordNonceStrict ::
    "char slice \<Rightarrow> MemStore \<Rightarrow> (goerror + bool) \<times> MemStore" where
  "MemStoreCloser_RecordNonceStrict nonce m =
     (let key = hexEncodeNonce nonce
      in if ms_nonces m key \<noteq> None then (Inr False, m)
         else (Inr True, m\<lparr>ms_nonces := (ms_nonces m)(key \<mapsto> ())\<rparr>))"

definition MemStoreCloser_Close :: "MemStore \<Rightarrow> MemStore" where
  "MemStoreCloser_Close m = m"

definition mem_ops :: "MemStore store_ops" where
  "mem_ops = \<lparr>st_SaveSigil = MemStore_SaveSigil, st_GetSigil = MemStore_GetSigil,
     st_SaveCap = MemStore_SaveCap, st_GetCap = MemStore_GetCap,
     st_NonceUsed = MemStore_NonceUsed, st_RecordNonce = MemStore_RecordNonce,
     st_TryRecordNonce = MemStore_TryRecordNonce, st_IsRevoked = MemStore_IsRevoked,
     st_RevocationList = MemStore_RevocationList, st_Revoke = MemStore_Revoke\<rparr>"

lemmas MemStore_defs [go_defs] = MemStore_SaveSigil_def MemStore_GetSigil_def MemStore_SaveCap_def
  MemStore_GetCap_def MemStore_NonceUsed_def MemStore_RecordNonce_def MemStore_TryRecordNonce_def
  MemStore_IsRevoked_def MemStore_RevocationList_def MemStore_Revoke_def

lemma mem_ops_simps [simp]:
  "st_SaveSigil mem_ops = MemStore_SaveSigil" "st_GetSigil mem_ops = MemStore_GetSigil"
  "st_SaveCap mem_ops = MemStore_SaveCap" "st_GetCap mem_ops = MemStore_GetCap"
  "st_NonceUsed mem_ops = MemStore_NonceUsed" "st_RecordNonce mem_ops = MemStore_RecordNonce"
  "st_TryRecordNonce mem_ops = MemStore_TryRecordNonce" "st_IsRevoked mem_ops = MemStore_IsRevoked"
  "st_RevocationList mem_ops = MemStore_RevocationList" "st_Revoke mem_ops = MemStore_Revoke"
  by (simp_all add: mem_ops_def)

subsection \<open>The contract\<close>

lemma unit_option [simp]: "x \<noteq> Some () \<longleftrightarrow> x = None"
  by (cases x) auto


definition mem_consumed :: "MemStore \<Rightarrow> bytes set" where
  "mem_consumed m = {n. ms_nonces m (hex_EncodeToString n) \<noteq> None}"

definition mem_revoked :: "MemStore \<Rightarrow> string set" where
  "mem_revoked m = dom (ms_revokedIDs m)"

definition mem_known :: "MemStore \<Rightarrow> string set" where
  "mem_known m = dom (ms_sigils m)"

lemmas mem_abs_defs = mem_consumed_def mem_revoked_def mem_known_def hexEncodeNonce_def

lemma mem_step_keeps:
  "store_step mem_ops m m' \<Longrightarrow>
     mem_consumed m \<subseteq> mem_consumed m' \<and> mem_revoked m \<subseteq> mem_revoked m' \<and> mem_known m \<subseteq> mem_known m'"
  by (erule store_stepE)
    (auto simp: MemStore_defs mem_abs_defs Let_def split: option.splits if_splits)

interpretation mem: sigil_store mem_ops mem_consumed mem_revoked "\<lambda>_. True" mem_known
proof
  fix m m' assume step: "store_step mem_ops m m'"
  show "mem_consumed m \<subseteq> mem_consumed m' \<and> mem_revoked m \<subseteq> mem_revoked m'"
    "mem_known m \<subseteq> mem_known m'" using mem_step_keeps [OF step] by simp_all
next
  fix n m m' assume "st_TryRecordNonce mem_ops n m = (True, m')"
  then show "elems n \<notin> mem_consumed m \<and> elems n \<in> mem_consumed m'"
    by (auto simp: MemStore_defs mem_abs_defs Let_def split: if_splits)
next
  fix n m assume "n \<notin> mem_consumed m"
  then show "fst (st_TryRecordNonce mem_ops (Some n) m)"
    by (auto simp: MemStore_defs mem_abs_defs Let_def)
next
  fix n m
  show "mem_consumed (snd (st_TryRecordNonce mem_ops (Some n) m)) \<subseteq> insert n (mem_consumed m)"
    by (auto simp: MemStore_defs mem_abs_defs Let_def hex_Encode_inject split: if_splits)
qed (auto simp: MemStore_defs mem_abs_defs Let_def split: option.splits)

subsection \<open>The revocation index\<close>

text \<open>The hash index answers exactly what a scan of the revocation list would.\<close>

definition MemStore_inv :: "MemStore \<Rightarrow> bool" where
  "MemStore_inv m \<longleftrightarrow> (\<forall>i. (ms_revokedIDs m i \<noteq> None) = (i \<in> Rev_ID ` set (ms_revs m)))
     \<and> (\<forall>i s. ms_sigils m i = Some s \<longrightarrow> Sigil_ID s = i)
     \<and> (\<forall>i c. ms_caps m i = Some c \<longrightarrow> Cap_ID c = i)"

lemma MemStore_inv_step: "store_step mem_ops m m' \<Longrightarrow> MemStore_inv m \<Longrightarrow> MemStore_inv m'"
  by (erule store_stepE)
    (auto simp: MemStore_defs MemStore_inv_def Let_def split: option.splits if_splits)

lemma MemStore_inv_New: "MemStore_inv NewMemStore"
  by (simp add: MemStore_inv_def NewMemStore_def)

lemma MemStore_inv_steps: "store_steps mem_ops m m' \<Longrightarrow> MemStore_inv m \<Longrightarrow> MemStore_inv m'"
  by (induction rule: rtranclp_induct) (auto intro: MemStore_inv_step)

end
