(* ===== verification/Postgres.thy ===== *)
theory Postgres
  imports Interleaving
begin

text \<open>
  What the two Postgres stores (\<open>src/store/postgres.go\<close>, \<open>src/store/pgstore/pgstore.go\<close>) use of
  the database.

  Postgres and its driver are not part of the repository. \<open>pgtypes\<close> holds the conversions of
  values to and from column types, as arguments: the input function of \<open>UUID\<close> with the
  canonical text it stores, which texts a \<open>TEXT\<close> column takes, what a \<open>TIMESTAMPTZ\<close> column gives
  back for a time, the value a \<open>JSONB\<close> column holds for a text, and \<open>LIKE\<close>. A statement works on
  the tables, with the constraints of the migration files. A connection adds the network: each
  round trip may fail before the statement runs or after it ran, which the client cannot tell
  apart, and it brings the database's clock and a fresh row id.
\<close>

subsection \<open>Connections and faults\<close>

record pgtypes =
  uuid_in :: "string \<Rightarrow> string option"
  text_in :: "string \<Rightarrow> bool"
  ts_in :: "time \<Rightarrow> time option"
  jsonb_in :: "string \<Rightarrow> json option"
  sql_like :: "string \<Rightarrow> string \<Rightarrow> bool"

datatype fault = NoFault | LostRequest | LostReply

record round =
  rnd_fault :: fault
  rnd_now :: time
  rnd_uuid :: string

record 'd pgconn =
  net :: "nat \<Rightarrow> round"
  tick :: nat
  db :: 'd

type_synonym ('d, 'a) stmt = "round \<Rightarrow> 'd \<Rightarrow> (goerror + 'a) \<times> 'd"

definition pg_call :: "('d, 'a) stmt \<Rightarrow> 'd pgconn \<Rightarrow> (goerror + 'a) \<times> 'd pgconn" where
  "pg_call stmt c =
     (let r = net c (tick c); c1 = c\<lparr>tick := Suc (tick c)\<rparr>
      in case rnd_fault r of
           NoFault \<Rightarrow> (fst (stmt r (db c)), c1\<lparr>db := snd (stmt r (db c))\<rparr>)
         | LostRequest \<Rightarrow> (Inl (ErrText ''connection lost''), c1)
         | LostReply \<Rightarrow> (Inl (ErrText ''connection lost''), c1\<lparr>db := snd (stmt r (db c))\<rparr>))"

definition pg_healthy :: "'d pgconn \<Rightarrow> bool" where
  "pg_healthy c \<longleftrightarrow> (\<forall>k \<ge> tick c. rnd_fault (net c k) = NoFault)"

lemma pg_call_healthy:
  "pg_healthy c \<Longrightarrow> pg_call stmt c =
     (fst (stmt (net c (tick c)) (db c)),
      c\<lparr>tick := Suc (tick c), db := snd (stmt (net c (tick c)) (db c))\<rparr>)"
  by (simp add: pg_call_def pg_healthy_def Let_def)

lemma pg_call_keeps_healthy: "pg_healthy c \<Longrightarrow> pg_healthy (snd (pg_call stmt c))"
  by (simp add: pg_call_healthy) (simp add: pg_healthy_def)

text \<open>A relation that every run of the statement establishes holds across the call.\<close>

lemma pg_call_rel:
  assumes "\<And>d. R d d" and "\<And>r d. R d (snd (stmt r d))"
  shows "R (db c) (db (snd (pg_call stmt c)))"
  using assms by (simp add: pg_call_def Let_def split: fault.split)

lemma pg_call_Inr:
  "pg_call stmt c = (Inr x, c') \<Longrightarrow>
     fst (stmt (net c (tick c)) (db c)) = Inr x \<and> db c' = snd (stmt (net c (tick c)) (db c))"
  by (auto simp: pg_call_def Let_def split: fault.splits)

subsection \<open>Rows shared by the two schemas\<close>

record SigilRow =
  sr_id :: string
  sr_subject :: string
  sr_public_key :: bytes
  sr_created_at :: time
  sr_expires_at :: "time option"
  sr_metadata :: json

record CapRow =
  cr_id :: string
  cr_sigil_id :: string
  cr_scope :: string
  cr_issued_at :: time
  cr_expires_at :: time
  cr_nonce :: bytes

text \<open>
  The parameters of an insert, converted; \<open>None\<close> is an error of the conversion or a \<open>NULL\<close> in a
  column that is \<open>NOT NULL\<close>.
\<close>

definition ts_opt :: "pgtypes \<Rightarrow> time option \<Rightarrow> time option option" where
  "ts_opt T t = (case t of None \<Rightarrow> Some None | Some u \<Rightarrow> map_option Some (ts_in T u))"

definition sigil_row :: "pgtypes \<Rightarrow> Sigil \<Rightarrow> string \<Rightarrow> SigilRow option" where
  "sigil_row T s meta =
     (case (uuid_in T (Sigil_ID s), text_in T (Sigil_Subject s), Sigil_PublicKey s,
            ts_in T (Sigil_CreatedAt s), ts_opt T (Sigil_ExpiresAt s), jsonb_in T meta) of
        (Some i, True, Some pk, Some ca, Some ea, Some m) \<Rightarrow>
          Some \<lparr>sr_id = i, sr_subject = Sigil_Subject s, sr_public_key = pk, sr_created_at = ca,
                sr_expires_at = ea, sr_metadata = m\<rparr>
      | _ \<Rightarrow> None)"

definition cap_row :: "pgtypes \<Rightarrow> CapabilityToken \<Rightarrow> CapRow option" where
  "cap_row T c =
     (case (uuid_in T (Cap_ID c), uuid_in T (Cap_SigilID c), text_in T (Cap_Scope c),
            ts_in T (Cap_IssuedAt c), ts_in T (Cap_ExpiresAt c), Cap_Nonce c) of
        (Some i, Some si, True, Some ia, Some ea, Some n) \<Rightarrow>
          Some \<lparr>cr_id = i, cr_sigil_id = si, cr_scope = Cap_Scope c, cr_issued_at = ia,
                cr_expires_at = ea, cr_nonce = n\<rparr>
      | _ \<Rightarrow> None)"

text \<open>\<open>json.Unmarshal\<close> of a metadata column into a \<open>map[string]string\<close>; \<open>None\<close> is its error.\<close>

definition json_strmap :: "json \<Rightarrow> (string \<times> string) slice option" where
  "json_strmap j =
     (case j of JNull \<Rightarrow> Some None
      | JObj m \<Rightarrow> map_option Some (those (map (\<lambda>(k, v).
          case v of JStr s \<Rightarrow> Some (k, s) | JNull \<Rightarrow> Some (k, []) | _ \<Rightarrow> None) m))
      | _ \<Rightarrow> None)"

definition row_sigil :: "SigilRow \<Rightarrow> (string \<times> string) slice \<Rightarrow> Sigil" where
  "row_sigil r meta = \<lparr>Sigil_ID = sr_id r, Sigil_Subject = sr_subject r,
     Sigil_PublicKey = Some (sr_public_key r), Sigil_CreatedAt = sr_created_at r,
     Sigil_ExpiresAt = sr_expires_at r, Sigil_Metadata = meta\<rparr>"

definition row_cap :: "CapRow \<Rightarrow> CapabilityToken" where
  "row_cap r = \<lparr>Cap_ID = cr_id r, Cap_SigilID = cr_sigil_id r, Cap_Scope = cr_scope r,
     Cap_IssuedAt = cr_issued_at r, Cap_ExpiresAt = cr_expires_at r, Cap_Nonce = Some (cr_nonce r)\<rparr>"

abbreviation sql_error :: "goerror" where "sql_error \<equiv> ErrText ''ERROR: statement rejected''"

text \<open>\<open>ORDER BY .. DESC\<close> and \<open>LIMIT n\<close>, which the source adds only for a positive \<open>n\<close>.\<close>

definition order_desc :: "('r \<Rightarrow> time) \<Rightarrow> 'r list \<Rightarrow> 'r list" where
  "order_desc f rs = sort_key (\<lambda>r. - wall (f r)) rs"

definition sql_limit :: "int \<Rightarrow> 'r list \<Rightarrow> 'r list" where
  "sql_limit n rs = (if n > 0 then take (nat n) rs else rs)"

text \<open>
  The upserts both schemas have: on a conflict of the primary key only the columns named by
  \<open>DO UPDATE\<close> change. A token's sigil must exist, which an insert checks and an update of other
  columns does not.
\<close>

fun upsert_sigil :: "SigilRow \<Rightarrow> SigilRow list \<Rightarrow> SigilRow list" where
  "upsert_sigil r [] = [r]"
| "upsert_sigil r (x # xs) =
     (if sr_id x = sr_id r then r\<lparr>sr_created_at := sr_created_at x\<rparr> # xs else x # upsert_sigil r xs)"

fun update_cap :: "CapRow \<Rightarrow> CapRow list \<Rightarrow> CapRow list option" where
  "update_cap r [] = None"
| "update_cap r (x # xs) =
     (if cr_id x = cr_id r
      then Some (r\<lparr>cr_sigil_id := cr_sigil_id x, cr_issued_at := cr_issued_at x\<rparr> # xs)
      else map_option ((#) x) (update_cap r xs))"

definition upsert_cap :: "CapRow \<Rightarrow> SigilRow list \<Rightarrow> CapRow list \<Rightarrow> CapRow list option" where
  "upsert_cap r sigils caps =
     (case update_cap r caps of
        Some caps' \<Rightarrow> Some caps'
      | None \<Rightarrow> if cr_sigil_id r \<in> sr_id ` set sigils then Some (caps @ [r]) else None)"

definition find_row :: "('r \<Rightarrow> string) \<Rightarrow> string \<Rightarrow> 'r list \<Rightarrow> 'r option" where
  "find_row key i rs = find (\<lambda>r. key r = i) rs"

lemma find_row_some: "i \<in> key ` set rs \<longleftrightarrow> (\<exists>r. find_row key i rs = Some r)"
  by (induction rs) (auto simp: find_row_def)

lemma upsert_sigil_ids: "sr_id ` set (upsert_sigil r rs) = insert (sr_id r) (sr_id ` set rs)"
  by (induction rs) auto

end
