(* ===== verification/PgStore.thy ===== *)
theory PgStore
  imports Postgres
begin

text \<open>
  The store of \<open>src/store/postgres.go\<close>, with the schema of
  \<open>src/store/migrations_sql/001_initial.sql\<close>. Its statements are definitions \<open>sql_\<close>\<dots>, its
  methods call them through \<open>pg_call\<close>. It keeps the store contract under any schedule of
  network faults, and is reliable while there are none.
\<close>

record RevEntryRow =
  re_id :: string
  re_target_type :: string
  re_reason :: string
  re_revoked_at :: time
  re_revoked_by :: string

record pgdb =
  t_sigils :: "SigilRow list"
  t_caps :: "CapRow list"
  t_revs :: "RevEntryRow list"
  t_nonces :: "bytes list"

type_synonym PgStore = "pgdb pgconn"

definition sql_ok_target :: "string \<Rightarrow> bool" where
  "sql_ok_target t \<longleftrightarrow> t \<in> set [''sigil'', ''cap'', ''attestation'']"

subsection \<open>Opening the store\<close>

text \<open>\<open>getenv\<close> is the value of \<open>HANKO_PG_DSN\<close>; the outcomes of connecting, pinging and migrating
  are those of the driver.\<close>

definition NewPgStore :: "string \<Rightarrow> string \<Rightarrow> (string \<Rightarrow> goerror + 'p) \<Rightarrow> ('p \<Rightarrow> goerror + unit) \<Rightarrow>
    ('p \<Rightarrow> goerror + unit) \<Rightarrow> goerror + 'p" where
  "NewPgStore getenv dsn0 pool_new ping migrate =
     (let dsn = (if dsn0 = [] then getenv else dsn0)
      in if dsn = [] then Inl (ErrText ''store: HANKO_PG_DSN is not set'')
         else (case pool_new dsn of
                 Inl err \<Rightarrow> Inl (Wrap ''store: pgxpool.New: '' err)
               | Inr pool \<Rightarrow>
                   (case ping pool of
                      Inl err \<Rightarrow> Inl (Wrap ''store: ping failed: '' err)
                    | Inr _ \<Rightarrow>
                        (case migrate pool of
                           Inl err \<Rightarrow> Inl (Wrap ''store: migration failed: '' err)
                         | Inr _ \<Rightarrow> Inr pool))))"

subsection \<open>Methods\<close>

definition sql_save_sigil :: "pgtypes \<Rightarrow> Sigil \<Rightarrow> string \<Rightarrow> (pgdb, unit) stmt" where
  "sql_save_sigil T s meta r d =
     (case sigil_row T s meta of
        None \<Rightarrow> (Inl sql_error, d)
      | Some row \<Rightarrow> (Inr (), d\<lparr>t_sigils := upsert_sigil row (t_sigils d)\<rparr>))"

definition PgStore_SaveSigil :: "pgtypes \<Rightarrow> Sigil \<Rightarrow> PgStore \<Rightarrow> (goerror + unit) \<times> PgStore" where
  "PgStore_SaveSigil T s p =
     (let meta = json_Marshal (strmap_json (Sigil_Metadata s))
      in case pg_call (sql_save_sigil T s meta) p of
           (Inl err, p') \<Rightarrow> (Inl (Wrap (''store: SaveSigil '' @ Sigil_ID s @ '': '') err), p')
         | (Inr _, p') \<Rightarrow> (Inr (), p'))"

definition sql_get_sigil :: "pgtypes \<Rightarrow> string \<Rightarrow> (pgdb, SigilRow option) stmt" where
  "sql_get_sigil T i r d =
     (case uuid_in T i of None \<Rightarrow> (Inl sql_error, d) | Some u \<Rightarrow> (Inr (find_row sr_id u (t_sigils d)), d))"

definition PgStore_GetSigil :: "pgtypes \<Rightarrow> string \<Rightarrow> PgStore \<Rightarrow> (goerror + Sigil) \<times> PgStore" where
  "PgStore_GetSigil T i p =
     (case pg_call (sql_get_sigil T i) p of
        (Inl err, p') \<Rightarrow> (Inl (Wrap (''store: GetSigil '' @ i @ '': '') err), p')
      | (Inr None, p') \<Rightarrow> (Inl (ErrText (''store: sigil '' @ i @ '' not found'')), p')
      | (Inr (Some row), p') \<Rightarrow>
          (Inr (row_sigil row (case json_strmap (sr_metadata row) of None \<Rightarrow> Some [] | Some m \<Rightarrow> m)), p'))"

definition PgStore_ListSigils :: "PgStore \<Rightarrow> (goerror + Sigil slice) \<times> PgStore" where
  "PgStore_ListSigils p =
     (case pg_call (\<lambda>r d. (Inr (order_desc sr_created_at (t_sigils d)), d)) p of
        (Inl err, p') \<Rightarrow> (Inl (Wrap ''store: ListSigils: '' err), p')
      | (Inr rows, p') \<Rightarrow>
          (Inr (if rows = [] then None else Some (map (\<lambda>row. row_sigil row
             (case json_strmap (sr_metadata row) of None \<Rightarrow> Some [] | Some m \<Rightarrow> m)) rows)), p'))"

definition sql_save_cap :: "pgtypes \<Rightarrow> CapabilityToken \<Rightarrow> (pgdb, unit) stmt" where
  "sql_save_cap T c r d =
     (case Option.bind (cap_row T c) (\<lambda>row. upsert_cap row (t_sigils d) (t_caps d)) of
        None \<Rightarrow> (Inl sql_error, d)
      | Some caps \<Rightarrow> (Inr (), d\<lparr>t_caps := caps\<rparr>))"

definition PgStore_SaveCap :: "pgtypes \<Rightarrow> CapabilityToken \<Rightarrow> PgStore \<Rightarrow> (goerror + unit) \<times> PgStore" where
  "PgStore_SaveCap T c p =
     (case pg_call (sql_save_cap T c) p of
        (Inl err, p') \<Rightarrow> (Inl (Wrap (''store: SaveCap '' @ Cap_ID c @ '': '') err), p')
      | (Inr _, p') \<Rightarrow> (Inr (), p'))"

definition sql_get_cap :: "pgtypes \<Rightarrow> string \<Rightarrow> (pgdb, CapRow option) stmt" where
  "sql_get_cap T i r d =
     (case uuid_in T i of None \<Rightarrow> (Inl sql_error, d) | Some u \<Rightarrow> (Inr (find_row cr_id u (t_caps d)), d))"

definition PgStore_GetCap :: "pgtypes \<Rightarrow> string \<Rightarrow> PgStore \<Rightarrow> (goerror + CapabilityToken) \<times> PgStore" where
  "PgStore_GetCap T i p =
     (case pg_call (sql_get_cap T i) p of
        (Inl err, p') \<Rightarrow> (Inl (Wrap (''store: GetCap '' @ i @ '': '') err), p')
      | (Inr None, p') \<Rightarrow> (Inl (ErrText (''store: cap '' @ i @ '' not found'')), p')
      | (Inr (Some row), p') \<Rightarrow> (Inr (row_cap row), p'))"

text \<open>A \<open>nil\<close> nonce is \<open>NULL\<close>: equal to no key, and refused by the primary key.\<close>

definition sql_nonce_exists :: "char slice \<Rightarrow> (pgdb, bool) stmt" where
  "sql_nonce_exists nonce r d =
     (Inr (case nonce of None \<Rightarrow> False | Some n \<Rightarrow> n \<in> set (t_nonces d)), d)"

definition PgStore_NonceUsed :: "char slice \<Rightarrow> PgStore \<Rightarrow> bool \<times> PgStore" where
  "PgStore_NonceUsed nonce p =
     (case pg_call (sql_nonce_exists nonce) p of (Inl _, p') \<Rightarrow> (False, p') | (Inr b, p') \<Rightarrow> (b, p'))"

text \<open>\<open>INSERT .. ON CONFLICT DO NOTHING\<close> with the number of rows it affected.\<close>

definition sql_insert_nonce :: "char slice \<Rightarrow> (pgdb, nat) stmt" where
  "sql_insert_nonce nonce r d =
     (case nonce of
        None \<Rightarrow> (Inl sql_error, d)
      | Some n \<Rightarrow> if n \<in> set (t_nonces d) then (Inr 0, d)
                  else (Inr 1, d\<lparr>t_nonces := t_nonces d @ [n]\<rparr>))"

definition PgStore_RecordNonce :: "char slice \<Rightarrow> PgStore \<Rightarrow> PgStore" where
  "PgStore_RecordNonce nonce p = snd (pg_call (sql_insert_nonce nonce) p)"

definition PgStore_RecordNonceStrict :: "char slice \<Rightarrow> PgStore \<Rightarrow> (goerror + bool) \<times> PgStore" where
  "PgStore_RecordNonceStrict nonce p =
     (case pg_call (sql_insert_nonce nonce) p of
        (Inl err, p') \<Rightarrow> (Inl (Wrap ''store: RecordNonceStrict: '' err), p')
      | (Inr rows, p') \<Rightarrow> (Inr (rows = 1), p'))"

definition PgStore_TryRecordNonce :: "char slice \<Rightarrow> PgStore \<Rightarrow> bool \<times> PgStore" where
  "PgStore_TryRecordNonce nonce p =
     (case PgStore_RecordNonceStrict nonce p of (Inl _, p') \<Rightarrow> (False, p') | (Inr ok, p') \<Rightarrow> (ok, p'))"

definition row_entry :: "RevEntryRow \<Rightarrow> RevocationEntry" where
  "row_entry r = \<lparr>Rev_ID = re_id r, Rev_TargetType = re_target_type r, Rev_Reason = re_reason r,
     Rev_RevokedAt = re_revoked_at r, Rev_RevokedBy = re_revoked_by r\<rparr>"

definition PgStore_RevocationList :: "PgStore \<Rightarrow> RevocationList \<times> PgStore" where
  "PgStore_RevocationList p =
     (case pg_call (\<lambda>r d. (Inr (sort_key (\<lambda>x. wall (re_revoked_at x)) (t_revs d)), d)) p of
        (Inl _, p') \<Rightarrow> ([], p')
      | (Inr rows, p') \<Rightarrow> (map row_entry rows, p'))"

definition sql_is_revoked :: "pgtypes \<Rightarrow> string \<Rightarrow> (pgdb, bool) stmt" where
  "sql_is_revoked T i r d =
     (case uuid_in T i of None \<Rightarrow> (Inl sql_error, d) | Some u \<Rightarrow> (Inr (u \<in> re_id ` set (t_revs d)), d))"

definition PgStore_IsRevoked :: "pgtypes \<Rightarrow> string \<Rightarrow> PgStore \<Rightarrow> bool \<times> PgStore" where
  "PgStore_IsRevoked T i p =
     (case pg_call (sql_is_revoked T i) p of (Inl _, p') \<Rightarrow> (False, p') | (Inr b, p') \<Rightarrow> (b, p'))"

definition sql_revoke :: "pgtypes \<Rightarrow> RevocationEntry \<Rightarrow> (pgdb, unit) stmt" where
  "sql_revoke T e r d =
     (case (uuid_in T (Rev_ID e), ts_in T (Rev_RevokedAt e)) of
        (Some u, Some at) \<Rightarrow>
          if \<not> (text_in T (Rev_TargetType e) \<and> text_in T (Rev_Reason e) \<and> text_in T (Rev_RevokedBy e)
                \<and> sql_ok_target (Rev_TargetType e)) then (Inl sql_error, d)
          else if u \<in> re_id ` set (t_revs d) then (Inr (), d)
          else (Inr (), d\<lparr>t_revs := t_revs d @ [\<lparr>re_id = u, re_target_type = Rev_TargetType e,
                 re_reason = Rev_Reason e, re_revoked_at = at, re_revoked_by = Rev_RevokedBy e\<rparr>]\<rparr>)
      | _ \<Rightarrow> (Inl sql_error, d))"

definition PgStore_Revoke :: "pgtypes \<Rightarrow> RevocationEntry \<Rightarrow> PgStore \<Rightarrow> (goerror + unit) \<times> PgStore" where
  "PgStore_Revoke T e p =
     (case pg_call (sql_revoke T e) p of
        (Inl err, p') \<Rightarrow> (Inl (Wrap (''store: Revoke '' @ Rev_ID e @ '': '') err), p')
      | (Inr _, p') \<Rightarrow> (Inr (), p'))"

definition pg_ops :: "pgtypes \<Rightarrow> PgStore store_ops" where
  "pg_ops T = \<lparr>st_SaveSigil = PgStore_SaveSigil T, st_GetSigil = PgStore_GetSigil T,
     st_SaveCap = PgStore_SaveCap T, st_GetCap = PgStore_GetCap T, st_NonceUsed = PgStore_NonceUsed,
     st_RecordNonce = PgStore_RecordNonce, st_TryRecordNonce = PgStore_TryRecordNonce,
     st_IsRevoked = PgStore_IsRevoked T, st_RevocationList = PgStore_RevocationList,
     st_Revoke = PgStore_Revoke T\<rparr>"

lemma pg_ops_simps [simp]:
  "st_SaveSigil (pg_ops T) = PgStore_SaveSigil T" "st_GetSigil (pg_ops T) = PgStore_GetSigil T"
  "st_SaveCap (pg_ops T) = PgStore_SaveCap T" "st_GetCap (pg_ops T) = PgStore_GetCap T"
  "st_NonceUsed (pg_ops T) = PgStore_NonceUsed" "st_RecordNonce (pg_ops T) = PgStore_RecordNonce"
  "st_TryRecordNonce (pg_ops T) = PgStore_TryRecordNonce" "st_IsRevoked (pg_ops T) = PgStore_IsRevoked T"
  "st_RevocationList (pg_ops T) = PgStore_RevocationList" "st_Revoke (pg_ops T) = PgStore_Revoke T"
  by (simp_all add: pg_ops_def)

subsection \<open>Every method is one round trip\<close>

text \<open>The connection after a method is the connection after its call.\<close>

lemma pg_snd [simp]:
  "snd (PgStore_SaveSigil T s p) =
     snd (pg_call (sql_save_sigil T s (json_Marshal (strmap_json (Sigil_Metadata s)))) p)"
  "snd (PgStore_GetSigil T i p) = snd (pg_call (sql_get_sigil T i) p)"
  "snd (PgStore_SaveCap T c p) = snd (pg_call (sql_save_cap T c) p)"
  "snd (PgStore_GetCap T i p) = snd (pg_call (sql_get_cap T i) p)"
  "snd (PgStore_NonceUsed n p) = snd (pg_call (sql_nonce_exists n) p)"
  "snd (PgStore_TryRecordNonce n p) = snd (pg_call (sql_insert_nonce n) p)"
  "snd (PgStore_IsRevoked T i p) = snd (pg_call (sql_is_revoked T i) p)"
  "snd (PgStore_RevocationList p) =
     snd (pg_call (\<lambda>r d. (Inr (sort_key (\<lambda>x. wall (re_revoked_at x)) (t_revs d)) :: goerror + _, d)) p)"
  "snd (PgStore_Revoke T e p) = snd (pg_call (sql_revoke T e) p)"
  by (auto simp: PgStore_SaveSigil_def PgStore_GetSigil_def PgStore_SaveCap_def PgStore_GetCap_def
      PgStore_NonceUsed_def PgStore_TryRecordNonce_def PgStore_RecordNonceStrict_def
      PgStore_IsRevoked_def PgStore_RevocationList_def PgStore_Revoke_def Let_def
      split: prod.split sum.split option.split)

lemmas sql_defs = sql_save_sigil_def sql_get_sigil_def sql_save_cap_def sql_get_cap_def
  sql_nonce_exists_def sql_insert_nonce_def sql_is_revoked_def sql_revoke_def

text \<open>No statement removes a nonce, a revocation or a sigil.\<close>

definition db_grows :: "pgdb \<Rightarrow> pgdb \<Rightarrow> bool" where
  "db_grows d d' \<longleftrightarrow> set (t_nonces d) \<subseteq> set (t_nonces d')
     \<and> re_id ` set (t_revs d) \<subseteq> re_id ` set (t_revs d') \<and> sr_id ` set (t_sigils d) \<subseteq> sr_id ` set (t_sigils d')"

lemma sql_grows:
  "db_grows d (snd (sql_save_sigil T s m r d))" "db_grows d (snd (sql_get_sigil T i r d))"
  "db_grows d (snd (sql_save_cap T c r d))" "db_grows d (snd (sql_get_cap T i r d))"
  "db_grows d (snd (sql_nonce_exists n r d))" "db_grows d (snd (sql_insert_nonce n r d))"
  "db_grows d (snd (sql_is_revoked T i r d))" "db_grows d (snd (sql_revoke T e r d))"
  by (auto simp: sql_defs db_grows_def upsert_sigil_ids split: option.split)

lemma db_grows_refl: "db_grows d d"
  by (simp add: db_grows_def)

lemma pg_step_grows: "store_step (pg_ops T) p p' \<Longrightarrow> db_grows (db p) (db p')"
  by (erule store_stepE)
    (simp_all add: PgStore_RecordNonce_def pg_call_rel [of db_grows] sql_grows db_grows_refl)

lemma pg_step_healthy: "store_step (pg_ops T) p p' \<Longrightarrow> pg_healthy p \<Longrightarrow> pg_healthy p'"
  by (erule store_stepE)
    (simp_all add: PgStore_RecordNonce_def pg_call_keeps_healthy)

subsection \<open>The contract\<close>

definition pg_consumed :: "PgStore \<Rightarrow> bytes set" where
  "pg_consumed p = set (t_nonces (db p))"

text \<open>A text names a revoked entity when it is some spelling of a revoked id.\<close>

definition pg_revoked :: "pgtypes \<Rightarrow> PgStore \<Rightarrow> string set" where
  "pg_revoked T p = {i. \<exists>u. uuid_in T i = Some u \<and> u \<in> re_id ` set (t_revs (db p))}"

definition pg_known :: "pgtypes \<Rightarrow> PgStore \<Rightarrow> string set" where
  "pg_known T p = {i. \<exists>u. uuid_in T i = Some u \<and> u \<in> sr_id ` set (t_sigils (db p))}"

lemma pg_try_true:
  assumes "PgStore_TryRecordNonce n p = (True, p')"
  shows "elems n \<notin> pg_consumed p \<and> elems n \<in> pg_consumed p'"
proof -
  from assms obtain k where "pg_call (sql_insert_nonce n) p = (Inr k, p')" "k = 1"
    by (auto simp: PgStore_TryRecordNonce_def PgStore_RecordNonceStrict_def split: prod.splits sum.splits)
  from pg_call_Inr [OF this(1)] this(2) show ?thesis
    by (auto simp: sql_insert_nonce_def pg_consumed_def split: option.splits if_splits)
qed

lemma pg_call_effect:
  "db (snd (pg_call (sql_is_revoked T i) p)) = db p"
  "t_revs (db (snd (pg_call (sql_insert_nonce n) p))) = t_revs (db p)"
  "set (t_nonces (db (snd (pg_call (sql_insert_nonce (Some m)) p)))) \<subseteq> insert m (set (t_nonces (db p)))"
  by (auto simp: pg_call_def Let_def sql_is_revoked_def sql_insert_nonce_def
      split: fault.splits option.splits if_splits)

interpretation pg: sigil_store "pg_ops T" pg_consumed "pg_revoked T" pg_healthy "pg_known T" for T
proof
  fix p p' assume step: "store_step (pg_ops T) p p'"
  show "pg_consumed p \<subseteq> pg_consumed p' \<and> pg_revoked T p \<subseteq> pg_revoked T p'" "pg_known T p \<subseteq> pg_known T p'"
    using pg_step_grows [OF step] by (auto simp: db_grows_def pg_consumed_def pg_revoked_def pg_known_def)
  show "pg_healthy p \<Longrightarrow> pg_healthy p'" using step by (rule pg_step_healthy)
next
  fix n p p' assume "st_TryRecordNonce (pg_ops T) n p = (True, p')"
  then show "elems n \<notin> pg_consumed p \<and> elems n \<in> pg_consumed p'" by (simp add: pg_try_true)
next
  fix e p u p' assume "st_Revoke (pg_ops T) e p = (Inr u, p')"
  then obtain v where "pg_call (sql_revoke T e) p = (Inr v, p')"
    by (auto simp: PgStore_Revoke_def split: prod.splits sum.splits)
  from pg_call_Inr [OF this] show "Rev_ID e \<in> pg_revoked T p'"
    by (auto simp: sql_revoke_def pg_revoked_def split: option.splits if_splits)
next
  fix i p p' assume "st_IsRevoked (pg_ops T) i p = (True, p')"
  then have "pg_call (sql_is_revoked T i) p = (Inr True, p')"
    by (auto simp: PgStore_IsRevoked_def split: prod.splits sum.splits)
  from pg_call_Inr [OF this] show "i \<in> pg_revoked T p"
    by (auto simp: sql_is_revoked_def pg_revoked_def split: option.splits)
next
  fix x p u p' assume "st_SaveSigil (pg_ops T) x p = (Inr u, p')"
  then obtain v where "pg_call (sql_save_sigil T x (json_Marshal (strmap_json (Sigil_Metadata x)))) p = (Inr v, p')"
    by (auto simp: PgStore_SaveSigil_def split: prod.splits sum.splits)
  from pg_call_Inr [OF this] show "Sigil_ID x \<in> pg_known T p'"
    by (auto simp: sql_save_sigil_def sigil_row_def pg_known_def upsert_sigil_ids
        split: option.splits bool.splits)
next
  fix i p assume "pg_healthy p" "i \<in> pg_known T p"
  then show "\<exists>x. fst (st_GetSigil (pg_ops T) i p) = Inr x"
    by (auto simp: PgStore_GetSigil_def pg_call_healthy sql_get_sigil_def pg_known_def find_row_some)
next
  fix i p n
  show "pg_consumed (snd (st_IsRevoked (pg_ops T) i p)) = pg_consumed p"
    "pg_revoked T (snd (st_IsRevoked (pg_ops T) i p)) = pg_revoked T p"
    "pg_consumed (snd (st_TryRecordNonce (pg_ops T) (Some n) p)) \<subseteq> insert n (pg_consumed p)"
    "pg_revoked T (snd (st_TryRecordNonce (pg_ops T) (Some n) p)) = pg_revoked T p"
    using pg_call_effect(3) by (simp_all add: pg_consumed_def pg_revoked_def pg_call_effect)
qed (auto simp: PgStore_IsRevoked_def PgStore_TryRecordNonce_def PgStore_RecordNonceStrict_def
    pg_call_healthy sql_is_revoked_def sql_insert_nonce_def pg_revoked_def pg_consumed_def)

end
