(* ===== verification/PoolStore.thy ===== *)
theory PoolStore
  imports Postgres
begin

text \<open>
  The store of \<open>src/store/pgstore/pgstore.go\<close> (\<open>PGStore\<close>), with the schema that its embedded
  migration creates. It has more tables than \<open>PgStore\<close> (attestations and an audit log), takes
  the time of a revocation from the database's clock, and keeps the nonces that
  \<open>TryRecordNonce\<close> consumes apart from those that \<open>RecordNonce\<close> writes to the audit log.
\<close>

record RevocationRow =
  rr_id :: string
  rr_target_type :: string
  rr_target_id :: string
  rr_reason :: "string option"
  rr_revoked_at :: time
  rr_revoked_by :: string

record AttestationRow =
  at_id :: string
  at_sigil_id :: string
  at_envelope :: json
  at_signature :: bytes
  at_issued_at :: time
  at_expires_at :: time
  at_issuer :: string

record AuditRow =
  au_id :: string
  au_occurred_at :: time
  au_action :: string
  au_actor_sigil :: "string option"
  au_target_type :: "string option"
  au_target_id :: "string option"
  au_outcome :: string
  au_detail :: json

record hankodb =
  h_sigils :: "SigilRow list"
  h_caps :: "CapRow list"
  h_attestations :: "AttestationRow list"
  h_revocations :: "RevocationRow list"
  h_audit :: "AuditRow list"
  h_nonces :: "bytes list"

type_synonym PGStore = "hankodb pgconn"

definition PGStore_New :: "(string \<Rightarrow> goerror + 'p) \<Rightarrow> ('p \<Rightarrow> goerror + unit) \<Rightarrow> string \<Rightarrow> goerror + 'p" where
  "PGStore_New pool_new migrate dsn =
     (case pool_new dsn of
        Inl err \<Rightarrow> Inl (Wrap ''pgstore: connect failed: '' err)
      | Inr pool \<Rightarrow>
          (case migrate pool of
             Inl err \<Rightarrow> Inl (Wrap ''pgstore: migrate failed: '' err)
           | Inr _ \<Rightarrow> Inr pool))"

subsection \<open>Sigils and capability tokens\<close>

definition hsql_save_sigil :: "pgtypes \<Rightarrow> Sigil \<Rightarrow> string \<Rightarrow> (hankodb, unit) stmt" where
  "hsql_save_sigil T s meta r d =
     (case sigil_row T s meta of
        None \<Rightarrow> (Inl sql_error, d)
      | Some row \<Rightarrow> (Inr (), d\<lparr>h_sigils := upsert_sigil row (h_sigils d)\<rparr>))"

definition PGStore_SaveSigil :: "pgtypes \<Rightarrow> Sigil \<Rightarrow> PGStore \<Rightarrow> (goerror + unit) \<times> PGStore" where
  "PGStore_SaveSigil T s p =
     (let metaJSON = json_Marshal (strmap_json (Sigil_Metadata s))
      in case pg_call (hsql_save_sigil T s metaJSON) p of
           (Inl err, p') \<Rightarrow> (Inl (Wrap ''pgstore.SaveSigil: '' err), p')
         | (Inr _, p') \<Rightarrow> (Inr (), p'))"

definition hsql_get_sigil :: "pgtypes \<Rightarrow> string \<Rightarrow> (hankodb, SigilRow option) stmt" where
  "hsql_get_sigil T i r d =
     (case uuid_in T i of None \<Rightarrow> (Inl sql_error, d) | Some u \<Rightarrow> (Inr (find_row sr_id u (h_sigils d)), d))"

definition PGStore_GetSigil :: "pgtypes \<Rightarrow> string \<Rightarrow> PGStore \<Rightarrow> (goerror + Sigil) \<times> PGStore" where
  "PGStore_GetSigil T i p =
     (case pg_call (hsql_get_sigil T i) p of
        (Inl err, p') \<Rightarrow> (Inl (Wrap ''pgstore.GetSigil: '' err), p')
      | (Inr None, p') \<Rightarrow> (Inl (ErrText (''pgstore: sigil '' @ i @ '' not found'')), p')
      | (Inr (Some row), p') \<Rightarrow>
          (case json_strmap (sr_metadata row) of
             None \<Rightarrow> (Inl (Wrap ''pgstore.GetSigil: unmarshal metadata: '' (ErrText ''json: cannot unmarshal'')), p')
           | Some m \<Rightarrow> (Inr (row_sigil row m), p')))"

text \<open>The rows of a query, decoded one by one; the first undecodable one ends the loop.\<close>

fun decode_sigils :: "SigilRow list \<Rightarrow> goerror + Sigil list" where
  "decode_sigils [] = Inr []"
| "decode_sigils (row # rows) =
     (case json_strmap (sr_metadata row) of
        None \<Rightarrow> Inl (Wrap ''pgstore.ListSigils: unmarshal metadata: '' (ErrText ''json: cannot unmarshal''))
      | Some m \<Rightarrow> (case decode_sigils rows of Inl e \<Rightarrow> Inl e | Inr ss \<Rightarrow> Inr (row_sigil row m # ss)))"

definition nil_if_empty :: "'a list \<Rightarrow> 'a slice" where
  "nil_if_empty xs = (if xs = [] then None else Some xs)"

definition PGStore_ListSigils :: "pgtypes \<Rightarrow> string \<Rightarrow> int \<Rightarrow> PGStore \<Rightarrow> (goerror + Sigil slice) \<times> PGStore" where
  "PGStore_ListSigils T subjectPattern limit p =
     (case pg_call (\<lambda>r d. (if subjectPattern \<noteq> [] \<and> \<not> text_in T subjectPattern then Inl sql_error else Inr
        (sql_limit limit (order_desc sr_created_at
           (if subjectPattern = [] then h_sigils d
            else filter (\<lambda>row. sql_like T (sr_subject row) subjectPattern) (h_sigils d)))), d)) p of
        (Inl err, p') \<Rightarrow> (Inl (Wrap ''pgstore.ListSigils: '' err), p')
      | (Inr rows, p') \<Rightarrow>
          (case decode_sigils rows of Inl e \<Rightarrow> (Inl e, p') | Inr ss \<Rightarrow> (Inr (nil_if_empty ss), p')))"

definition hsql_save_cap :: "pgtypes \<Rightarrow> CapabilityToken \<Rightarrow> (hankodb, unit) stmt" where
  "hsql_save_cap T c r d =
     (case Option.bind (cap_row T c) (\<lambda>row. upsert_cap row (h_sigils d) (h_caps d)) of
        None \<Rightarrow> (Inl sql_error, d)
      | Some caps \<Rightarrow> (Inr (), d\<lparr>h_caps := caps\<rparr>))"

definition PGStore_SaveCap :: "pgtypes \<Rightarrow> CapabilityToken \<Rightarrow> PGStore \<Rightarrow> (goerror + unit) \<times> PGStore" where
  "PGStore_SaveCap T c p =
     (case pg_call (hsql_save_cap T c) p of
        (Inl err, p') \<Rightarrow> (Inl (Wrap ''pgstore.SaveCap: '' err), p')
      | (Inr _, p') \<Rightarrow> (Inr (), p'))"

definition hsql_get_cap :: "pgtypes \<Rightarrow> string \<Rightarrow> (hankodb, CapRow option) stmt" where
  "hsql_get_cap T i r d =
     (case uuid_in T i of None \<Rightarrow> (Inl sql_error, d) | Some u \<Rightarrow> (Inr (find_row cr_id u (h_caps d)), d))"

definition PGStore_GetCap :: "pgtypes \<Rightarrow> string \<Rightarrow> PGStore \<Rightarrow> (goerror + CapabilityToken) \<times> PGStore" where
  "PGStore_GetCap T i p =
     (case pg_call (hsql_get_cap T i) p of
        (Inl err, p') \<Rightarrow> (Inl (Wrap ''pgstore.GetCap: '' err), p')
      | (Inr None, p') \<Rightarrow> (Inl (ErrText (''pgstore: cap '' @ i @ '' not found'')), p')
      | (Inr (Some row), p') \<Rightarrow> (Inr (row_cap row), p'))"

definition PGStore_ListCaps :: "pgtypes \<Rightarrow> string \<Rightarrow> int \<Rightarrow> PGStore \<Rightarrow>
    (goerror + CapabilityToken slice) \<times> PGStore" where
  "PGStore_ListCaps T sigilID limit p =
     (case pg_call (\<lambda>r d. (
         if sigilID = [] then Inr (sql_limit limit (order_desc cr_issued_at (h_caps d)))
         else (case uuid_in T sigilID of
                 None \<Rightarrow> Inl sql_error
               | Some u \<Rightarrow> Inr (sql_limit limit (order_desc cr_issued_at
                   (filter (\<lambda>row. cr_sigil_id row = u) (h_caps d))))), d)) p of
        (Inl err, p') \<Rightarrow> (Inl (Wrap ''pgstore.ListCaps: '' err), p')
      | (Inr rows, p') \<Rightarrow> (Inr (nil_if_empty (map row_cap rows)), p'))"

subsection \<open>Attestations\<close>

definition hsql_save_attestation :: "pgtypes \<Rightarrow> AttestationEnvelope \<Rightarrow> string \<Rightarrow> (hankodb, unit) stmt" where
  "hsql_save_attestation T env envJSON r d =
     (case (uuid_in T (Env_SigilID env), jsonb_in T envJSON, Env_Signature env,
            ts_in T (Env_IssuedAt env), ts_in T (Env_ExpiresAt env)) of
        (Some si, Some j, Some sig, Some ia, Some ea) \<Rightarrow>
          if text_in T (Env_Issuer env) \<and> si \<in> sr_id ` set (h_sigils d)
             \<and> rnd_uuid r \<notin> at_id ` set (h_attestations d)
          then (Inr (), d\<lparr>h_attestations := h_attestations d @ [\<lparr>at_id = rnd_uuid r, at_sigil_id = si,
                  at_envelope = j, at_signature = sig, at_issued_at = ia, at_expires_at = ea,
                  at_issuer = Env_Issuer env\<rparr>]\<rparr>)
          else (Inl sql_error, d)
      | _ \<Rightarrow> (Inl sql_error, d))"

definition PGStore_SaveAttestation :: "pgtypes \<Rightarrow> AttestationEnvelope \<Rightarrow> PGStore \<Rightarrow>
    (goerror + unit) \<times> PGStore" where
  "PGStore_SaveAttestation T env p =
     (case AttestationEnvelope_json env of
        None \<Rightarrow> (Inl (Wrap ''pgstore.SaveAttestation: marshal envelope: ''
                   (ErrText ''json: error calling MarshalJSON for type time.Time'')), p)
      | Some j \<Rightarrow>
          (case pg_call (hsql_save_attestation T env (json_Marshal j)) p of
             (Inl err, p') \<Rightarrow> (Inl (Wrap ''pgstore.SaveAttestation: '' err), p')
           | (Inr _, p') \<Rightarrow> (Inr (), p')))"

definition PGStore_ListAttestations :: "int \<Rightarrow> PGStore \<Rightarrow>
    (goerror + (string \<times> string \<times> string \<times> time \<times> time) slice) \<times> PGStore" where
  "PGStore_ListAttestations limit p =
     (case pg_call (\<lambda>r d. (Inr (sql_limit limit (order_desc at_issued_at (h_attestations d))), d)) p of
        (Inl err, p') \<Rightarrow> (Inl (Wrap ''pgstore.ListAttestations: '' err), p')
      | (Inr rows, p') \<Rightarrow> (Inr (nil_if_empty (map (\<lambda>row.
          (at_id row, at_sigil_id row, at_issuer row, at_issued_at row, at_expires_at row)) rows)), p'))"

subsection \<open>Nonces and the audit log\<close>

text \<open>The operator \<open>->>\<close> of Postgres: a member of an object as text.\<close>

definition json_member_text :: "json \<Rightarrow> string \<Rightarrow> string option" where
  "json_member_text j k =
     (case j of JObj m \<Rightarrow> (case map_of m k of None \<Rightarrow> None | Some JNull \<Rightarrow> None
        | Some (JStr s) \<Rightarrow> Some s | Some v \<Rightarrow> Some (json_Marshal v)) | _ \<Rightarrow> None)"

definition hsql_audit_nonce :: "string \<Rightarrow> (hankodb, bool) stmt" where
  "hsql_audit_nonce hexNonce r d =
     (Inr (\<exists>row \<in> set (h_audit d). au_action row = ''verify'' \<and> au_outcome row = ''ok''
        \<and> json_member_text (au_detail row) ''nonce'' = Some hexNonce), d)"

definition PGStore_NonceUsed :: "char slice \<Rightarrow> PGStore \<Rightarrow> bool \<times> PGStore" where
  "PGStore_NonceUsed nonce p =
     (case pg_call (hsql_audit_nonce (hex_EncodeToString (elems nonce))) p of
        (Inl _, p') \<Rightarrow> (False, p') | (Inr b, p') \<Rightarrow> (b, p'))"

text \<open>An insert into the audit log; the parameters that are cast to \<open>UUID\<close> may be \<open>NULL\<close>.\<close>

definition uuid_opt :: "pgtypes \<Rightarrow> string option \<Rightarrow> string option option" where
  "uuid_opt T i = (case i of None \<Rightarrow> Some None | Some s \<Rightarrow> map_option Some (uuid_in T s))"

definition hsql_insert_audit :: "pgtypes \<Rightarrow> string \<Rightarrow> string option \<Rightarrow> string option \<Rightarrow> string option \<Rightarrow>
    string \<Rightarrow> string \<Rightarrow> (hankodb, unit) stmt" where
  "hsql_insert_audit T action actor ttype target outcome detail r d =
     (case (uuid_opt T actor, uuid_opt T target, jsonb_in T detail) of
        (Some a, Some t, Some j) \<Rightarrow>
          if text_in T action \<and> list_all (text_in T) (case ttype of None \<Rightarrow> [] | Some x \<Rightarrow> [x])
             \<and> outcome \<in> set [''ok'', ''denied'', ''error'']
             \<and> (case a of None \<Rightarrow> True | Some u \<Rightarrow> u \<in> sr_id ` set (h_sigils d))
             \<and> rnd_uuid r \<notin> au_id ` set (h_audit d)
          then (Inr (), d\<lparr>h_audit := h_audit d @ [\<lparr>au_id = rnd_uuid r, au_occurred_at = rnd_now r,
                  au_action = action, au_actor_sigil = a, au_target_type = ttype,
                  au_target_id = t, au_outcome = outcome, au_detail = j\<rparr>]\<rparr>)
          else (Inl sql_error, d)
      | _ \<Rightarrow> (Inl sql_error, d))"

definition PGStore_RecordNonce :: "pgtypes \<Rightarrow> char slice \<Rightarrow> PGStore \<Rightarrow> PGStore" where
  "PGStore_RecordNonce T nonce p =
     (let detailJSON = json_Marshal (JObj [(''nonce'', JStr (hex_EncodeToString (elems nonce)))])
      in snd (pg_call (hsql_insert_audit T ''verify'' None None None ''ok'' detailJSON) p))"

definition hsql_insert_nonce :: "char slice \<Rightarrow> (hankodb, nat) stmt" where
  "hsql_insert_nonce nonce r d =
     (case nonce of
        None \<Rightarrow> (Inl sql_error, d)
      | Some n \<Rightarrow> if n \<in> set (h_nonces d) then (Inr 0, d)
                  else (Inr 1, d\<lparr>h_nonces := h_nonces d @ [n]\<rparr>))"

definition PGStore_TryRecordNonce :: "char slice \<Rightarrow> PGStore \<Rightarrow> bool \<times> PGStore" where
  "PGStore_TryRecordNonce nonce p =
     (case pg_call (hsql_insert_nonce nonce) p of
        (Inl _, p') \<Rightarrow> (False, p') | (Inr rows, p') \<Rightarrow> (rows = 1, p'))"

text \<open>\<open>WriteAudit\<close> writes an empty object when the detail does not marshal (\<open>None\<close>).\<close>

definition PGStore_WriteAudit :: "pgtypes \<Rightarrow> string \<Rightarrow> string \<Rightarrow> string option \<Rightarrow> string option \<Rightarrow>
    string option \<Rightarrow> json option \<Rightarrow> PGStore \<Rightarrow> (goerror + unit) \<times> PGStore" where
  "PGStore_WriteAudit T action outcome actor ttype target detail p =
     (let detailJSON = (case detail of None \<Rightarrow> ''{}'' | Some j \<Rightarrow> json_Marshal j)
      in pg_call (hsql_insert_audit T action actor ttype target outcome detailJSON) p)"

subsection \<open>Revocations\<close>

definition revocation_entry :: "RevocationRow \<Rightarrow> RevocationEntry" where
  "revocation_entry row = \<lparr>Rev_ID = rr_target_id row, Rev_TargetType = rr_target_type row,
     Rev_Reason = (case rr_reason row of None \<Rightarrow> [] | Some s \<Rightarrow> s),
     Rev_RevokedAt = rr_revoked_at row, Rev_RevokedBy = rr_revoked_by row\<rparr>"

definition PGStore_RevocationList :: "PGStore \<Rightarrow> RevocationList \<times> PGStore" where
  "PGStore_RevocationList p =
     (case pg_call (\<lambda>r d. (Inr (order_desc rr_revoked_at (h_revocations d)), d)) p of
        (Inl _, p') \<Rightarrow> ([], p')
      | (Inr rows, p') \<Rightarrow> (map revocation_entry rows, p'))"

definition PGStore_ListRevocations :: "int \<Rightarrow> PGStore \<Rightarrow> (goerror + RevocationEntry slice) \<times> PGStore" where
  "PGStore_ListRevocations limit p =
     (case pg_call (\<lambda>r d. (Inr (sql_limit limit (order_desc rr_revoked_at (h_revocations d))), d)) p of
        (Inl err, p') \<Rightarrow> (Inl (Wrap ''pgstore.ListRevocations: '' err), p')
      | (Inr rows, p') \<Rightarrow> (Inr (nil_if_empty (map revocation_entry rows)), p'))"

definition hsql_revoke :: "pgtypes \<Rightarrow> RevocationEntry \<Rightarrow> (hankodb, unit) stmt" where
  "hsql_revoke T e r d =
     (case (uuid_in T (Rev_ID e), uuid_in T (Rev_RevokedBy e)) of
        (Some u, Some by_id) \<Rightarrow>
          if text_in T (Rev_Reason e) \<and> Rev_TargetType e \<in> set [''sigil'', ''cap'', ''attestation'']
             \<and> by_id \<in> sr_id ` set (h_sigils d) \<and> rnd_uuid r \<notin> rr_id ` set (h_revocations d)
          then (Inr (), d\<lparr>h_revocations := h_revocations d @ [\<lparr>rr_id = rnd_uuid r,
                  rr_target_type = Rev_TargetType e, rr_target_id = u, rr_reason = Some (Rev_Reason e),
                  rr_revoked_at = rnd_now r, rr_revoked_by = by_id\<rparr>]\<rparr>)
          else (Inl sql_error, d)
      | _ \<Rightarrow> (Inl sql_error, d))"

definition PGStore_Revoke :: "pgtypes \<Rightarrow> RevocationEntry \<Rightarrow> PGStore \<Rightarrow> (goerror + unit) \<times> PGStore" where
  "PGStore_Revoke T e p =
     (case pg_call (hsql_revoke T e) p of
        (Inl err, p') \<Rightarrow> (Inl (Wrap ''pgstore.Revoke: '' err), p')
      | (Inr _, p') \<Rightarrow> (Inr (), p'))"

definition hsql_is_revoked :: "pgtypes \<Rightarrow> string \<Rightarrow> (hankodb, bool) stmt" where
  "hsql_is_revoked T i r d =
     (case uuid_in T i of None \<Rightarrow> (Inl sql_error, d)
      | Some u \<Rightarrow> (Inr (u \<in> rr_target_id ` set (h_revocations d)), d))"

definition PGStore_IsRevoked :: "pgtypes \<Rightarrow> string \<Rightarrow> PGStore \<Rightarrow> bool \<times> PGStore" where
  "PGStore_IsRevoked T i p =
     (case pg_call (hsql_is_revoked T i) p of (Inl _, p') \<Rightarrow> (False, p') | (Inr b, p') \<Rightarrow> (b, p'))"

definition pool_ops :: "pgtypes \<Rightarrow> PGStore store_ops" where
  "pool_ops T = \<lparr>st_SaveSigil = PGStore_SaveSigil T, st_GetSigil = PGStore_GetSigil T,
     st_SaveCap = PGStore_SaveCap T, st_GetCap = PGStore_GetCap T, st_NonceUsed = PGStore_NonceUsed,
     st_RecordNonce = PGStore_RecordNonce T, st_TryRecordNonce = PGStore_TryRecordNonce,
     st_IsRevoked = PGStore_IsRevoked T, st_RevocationList = PGStore_RevocationList,
     st_Revoke = PGStore_Revoke T\<rparr>"

lemma pool_ops_simps [simp]:
  "st_SaveSigil (pool_ops T) = PGStore_SaveSigil T" "st_GetSigil (pool_ops T) = PGStore_GetSigil T"
  "st_SaveCap (pool_ops T) = PGStore_SaveCap T" "st_GetCap (pool_ops T) = PGStore_GetCap T"
  "st_NonceUsed (pool_ops T) = PGStore_NonceUsed" "st_RecordNonce (pool_ops T) = PGStore_RecordNonce T"
  "st_TryRecordNonce (pool_ops T) = PGStore_TryRecordNonce"
  "st_IsRevoked (pool_ops T) = PGStore_IsRevoked T"
  "st_RevocationList (pool_ops T) = PGStore_RevocationList" "st_Revoke (pool_ops T) = PGStore_Revoke T"
  by (simp_all add: pool_ops_def)

subsection \<open>Every method is one round trip\<close>

lemma pool_snd [simp]:
  "snd (PGStore_SaveSigil T s p) =
     snd (pg_call (hsql_save_sigil T s (json_Marshal (strmap_json (Sigil_Metadata s)))) p)"
  "snd (PGStore_GetSigil T i p) = snd (pg_call (hsql_get_sigil T i) p)"
  "snd (PGStore_SaveCap T c p) = snd (pg_call (hsql_save_cap T c) p)"
  "snd (PGStore_GetCap T i p) = snd (pg_call (hsql_get_cap T i) p)"
  "snd (PGStore_NonceUsed n p) = snd (pg_call (hsql_audit_nonce (hex_EncodeToString (elems n))) p)"
  "snd (PGStore_TryRecordNonce n p) = snd (pg_call (hsql_insert_nonce n) p)"
  "snd (PGStore_IsRevoked T i p) = snd (pg_call (hsql_is_revoked T i) p)"
  "snd (PGStore_RevocationList p) =
     snd (pg_call (\<lambda>r d. (Inr (order_desc rr_revoked_at (h_revocations d)) :: goerror + _, d)) p)"
  "snd (PGStore_Revoke T e p) = snd (pg_call (hsql_revoke T e) p)"
  by (auto simp: PGStore_SaveSigil_def PGStore_GetSigil_def PGStore_SaveCap_def PGStore_GetCap_def
      PGStore_NonceUsed_def PGStore_TryRecordNonce_def PGStore_IsRevoked_def
      PGStore_RevocationList_def PGStore_Revoke_def Let_def
      split: prod.split sum.split option.split)

lemmas hsql_defs = hsql_save_sigil_def hsql_get_sigil_def hsql_save_cap_def hsql_get_cap_def
  hsql_audit_nonce_def hsql_insert_nonce_def hsql_insert_audit_def hsql_is_revoked_def hsql_revoke_def

definition hdb_grows :: "hankodb \<Rightarrow> hankodb \<Rightarrow> bool" where
  "hdb_grows d d' \<longleftrightarrow> set (h_nonces d) \<subseteq> set (h_nonces d')
     \<and> rr_target_id ` set (h_revocations d) \<subseteq> rr_target_id ` set (h_revocations d')"

lemma hsql_grows:
  "hdb_grows d (snd (hsql_save_sigil T s m r d))" "hdb_grows d (snd (hsql_get_sigil T i r d))"
  "hdb_grows d (snd (hsql_save_cap T c r d))" "hdb_grows d (snd (hsql_get_cap T i r d))"
  "hdb_grows d (snd (hsql_audit_nonce h r d))" "hdb_grows d (snd (hsql_insert_nonce n r d))"
  "hdb_grows d (snd (hsql_insert_audit T a ac tt tg out dt r d))"
  "hdb_grows d (snd (hsql_is_revoked T i r d))" "hdb_grows d (snd (hsql_revoke T e r d))"
  by (auto simp: hsql_defs hdb_grows_def split: option.split)

lemma hdb_grows_refl: "hdb_grows d d"
  by (simp add: hdb_grows_def)

lemma pool_step_grows: "store_step (pool_ops T) p p' \<Longrightarrow> hdb_grows (db p) (db p')"
  by (erule store_stepE)
    (simp_all add: PGStore_RecordNonce_def Let_def pg_call_rel [of hdb_grows] hsql_grows hdb_grows_refl)

lemma pool_step_healthy: "store_step (pool_ops T) p p' \<Longrightarrow> pg_healthy p \<Longrightarrow> pg_healthy p'"
  by (erule store_stepE)
    (simp_all add: PGStore_RecordNonce_def Let_def pg_call_keeps_healthy)

subsection \<open>The contract\<close>

definition pool_consumed :: "PGStore \<Rightarrow> bytes set" where
  "pool_consumed p = set (h_nonces (db p))"

definition pool_revoked :: "pgtypes \<Rightarrow> PGStore \<Rightarrow> string set" where
  "pool_revoked T p = {i. \<exists>u. uuid_in T i = Some u \<and> u \<in> rr_target_id ` set (h_revocations (db p))}"

lemma pool_call_effect:
  "db (snd (pg_call (hsql_is_revoked T i) p)) = db p"
  "h_revocations (db (snd (pg_call (hsql_insert_nonce n) p))) = h_revocations (db p)"
  "h_audit (db (snd (pg_call (hsql_insert_nonce n) p))) = h_audit (db p)"
  "set (h_nonces (db (snd (pg_call (hsql_insert_nonce (Some m)) p)))) \<subseteq> insert m (set (h_nonces (db p)))"
  by (auto simp: pg_call_def Let_def hsql_is_revoked_def hsql_insert_nonce_def
      split: fault.splits option.splits if_splits)

interpretation pool: reliable_store "pool_ops T" pool_consumed "pool_revoked T" pg_healthy for T
proof
  fix p p' assume step: "store_step (pool_ops T) p p'"
  show "pool_consumed p \<subseteq> pool_consumed p' \<and> pool_revoked T p \<subseteq> pool_revoked T p'"
    using pool_step_grows [OF step] by (auto simp: hdb_grows_def pool_consumed_def pool_revoked_def)
  show "pg_healthy p \<Longrightarrow> pg_healthy p'" using step by (rule pool_step_healthy)
next
  fix n p p' assume "st_TryRecordNonce (pool_ops T) n p = (True, p')"
  then obtain k where "pg_call (hsql_insert_nonce n) p = (Inr k, p')" "k = 1"
    by (auto simp: PGStore_TryRecordNonce_def split: prod.splits sum.splits)
  from pg_call_Inr [OF this(1)] this(2) show "elems n \<notin> pool_consumed p \<and> elems n \<in> pool_consumed p'"
    by (auto simp: hsql_insert_nonce_def pool_consumed_def split: option.splits if_splits)
next
  fix e p u p' assume "st_Revoke (pool_ops T) e p = (Inr u, p')"
  then obtain v where "pg_call (hsql_revoke T e) p = (Inr v, p')"
    by (auto simp: PGStore_Revoke_def split: prod.splits sum.splits)
  from pg_call_Inr [OF this] show "Rev_ID e \<in> pool_revoked T p'"
    by (auto simp: hsql_revoke_def pool_revoked_def split: option.splits if_splits)
next
  fix i p p' assume "st_IsRevoked (pool_ops T) i p = (True, p')"
  then have "pg_call (hsql_is_revoked T i) p = (Inr True, p')"
    by (auto simp: PGStore_IsRevoked_def split: prod.splits sum.splits)
  from pg_call_Inr [OF this] show "i \<in> pool_revoked T p"
    by (auto simp: hsql_is_revoked_def pool_revoked_def split: option.splits)
next
  fix i p n
  show "pool_consumed (snd (st_IsRevoked (pool_ops T) i p)) = pool_consumed p"
    "pool_revoked T (snd (st_IsRevoked (pool_ops T) i p)) = pool_revoked T p"
    "pool_consumed (snd (st_TryRecordNonce (pool_ops T) (Some n) p)) \<subseteq> insert n (pool_consumed p)"
    "pool_revoked T (snd (st_TryRecordNonce (pool_ops T) (Some n) p)) = pool_revoked T p"
    using pool_call_effect(4) by (simp_all add: pool_consumed_def pool_revoked_def pool_call_effect)
qed (auto simp: PGStore_IsRevoked_def PGStore_TryRecordNonce_def
    pg_call_healthy hsql_is_revoked_def hsql_insert_nonce_def pool_revoked_def pool_consumed_def)

end
