(* ===== verification/GoStrings.thy ===== *)
theory GoStrings
  imports Json "HOL-Library.Signed_Division"
begin

text \<open>
  Packages \<open>strings\<close> and \<open>strconv\<close> as the handlers and the command line use them. A result of
  \<open>-1\<close> of an index function is \<open>None\<close>. White space is what \<open>unicode.IsSpace\<close> accepts, given by
  the UTF-8 encodings of those code points.
\<close>

definition HasPrefix :: "string \<Rightarrow> string \<Rightarrow> bool" where
  "HasPrefix s p \<longleftrightarrow> take (length p) s = p"

definition TrimPrefix :: "string \<Rightarrow> string \<Rightarrow> string" where
  "TrimPrefix s p = (if HasPrefix s p then drop (length p) s else s)"

fun strings_Index :: "string \<Rightarrow> string \<Rightarrow> nat option" where
  "strings_Index [] p = (if p = [] then Some 0 else None)"
| "strings_Index (c # cs) p =
     (if HasPrefix (c # cs) p then Some 0 else map_option Suc (strings_Index cs p))"

fun strings_LastIndex :: "string \<Rightarrow> string \<Rightarrow> nat option" where
  "strings_LastIndex [] p = (if p = [] then Some 0 else None)"
| "strings_LastIndex (c # cs) p =
     (case strings_LastIndex cs p of
        Some i \<Rightarrow> Some (Suc i)
      | None \<Rightarrow> if HasPrefix (c # cs) p then Some 0 else None)"

definition strings_SplitN2 :: "string \<Rightarrow> string \<Rightarrow> string list" where
  "strings_SplitN2 s sep =
     (case strings_Index s sep of
        None \<Rightarrow> [s]
      | Some i \<Rightarrow> [take i s, drop (i + length sep) s])"

text \<open>
  \<open>strconv.Quote\<close>, the verb \<open>%q\<close>: printable ASCII stays, the rest of ASCII and the bytes that are no
  UTF-8 are escaped. A rune of several bytes stays; \<open>strconv.Quote\<close> escapes the unprintable ones of
  these too.
\<close>

definition quote_byte :: "char \<Rightarrow> string" where
  "quote_byte c =
     (if c = dquote \<or> c = bslash then [bslash, c]
      else if 0x20 \<le> byte c \<and> byte c < 0x7F then [c]
      else case map_of (zip [0x07, 0x08, 0x0C, 0x0A, 0x0D, 0x09, 0x0B] ''abfnrtv'') (byte c) of
             Some e \<Rightarrow> [bslash, e]
           | None \<Rightarrow> [bslash, CHR ''x'', hex_digit (byte c div 16), hex_digit (byte c mod 16)])"

function quote_body :: "string \<Rightarrow> string" where
  "quote_body [] = []"
| "quote_body (c # cs) =
     (case utf8_len (c # cs) of
        Some n \<Rightarrow> take n (c # cs) @ quote_body (drop n (c # cs))
      | None \<Rightarrow> quote_byte c @ quote_body cs)"
  by pat_completeness auto
termination
  by (relation "measure length") (auto dest: utf8_len_bounds)

definition strconv_Quote :: "string \<Rightarrow> string" where
  "strconv_Quote s = [dquote] @ quote_body s @ [dquote]"

text \<open>\<open>strings.Split\<close> at a separator of one byte.\<close>

fun strings_Split :: "string \<Rightarrow> char \<Rightarrow> string list" where
  "strings_Split [] sep = [[]]"
| "strings_Split (c # cs) sep =
     (if c = sep then [] # strings_Split cs sep
      else case strings_Split cs sep of [] \<Rightarrow> [[c]] | w # ws \<Rightarrow> (c # w) # ws)"

subsection \<open>White space\<close>

definition space_runes :: "string list" where
  "space_runes =
     map (\<lambda>c. [c]) [CHR 0x09, CHR 0x0A, CHR 0x0B, CHR 0x0C, CHR 0x0D, CHR 0x20]
     @ [[CHR 0xC2, CHR 0x85], [CHR 0xC2, CHR 0xA0], [CHR 0xE1, CHR 0x9A, CHR 0x80]]
     @ map (\<lambda>c. [CHR 0xE2, CHR 0x80, c])
         [CHR 0x80, CHR 0x81, CHR 0x82, CHR 0x83, CHR 0x84, CHR 0x85, CHR 0x86, CHR 0x87, CHR 0x88,
          CHR 0x89, CHR 0x8A, CHR 0xA8, CHR 0xA9, CHR 0xAF]
     @ [[CHR 0xE2, CHR 0x81, CHR 0x9F], [CHR 0xE3, CHR 0x80, CHR 0x80]]"

definition leading :: "string list \<Rightarrow> string \<Rightarrow> string option" where
  "leading ps s = find (\<lambda>p. p \<noteq> [] \<and> HasPrefix s p) ps"

lemma leading_Some: "leading ps s = Some p \<Longrightarrow> p \<noteq> [] \<and> HasPrefix s p \<and> p \<in> set ps"
  by (auto simp: leading_def find_Some_iff)

lemma leading_shorter: "leading ps s = Some p \<Longrightarrow> length (drop (length p) s) < length s"
  by (drule leading_Some, cases s) (auto simp: HasPrefix_def)

function trim_leading :: "string list \<Rightarrow> string \<Rightarrow> string" where
  "trim_leading ps s =
     (case leading ps s of None \<Rightarrow> s | Some p \<Rightarrow> trim_leading ps (drop (length p) s))"
  by auto
termination
  by (relation "measure (length \<circ> snd)") (auto dest: leading_shorter)

declare trim_leading.simps [simp del]

definition TrimSpace :: "string \<Rightarrow> string" where
  "TrimSpace s =
     rev (trim_leading (map rev space_runes) (rev (trim_leading space_runes s)))"

text \<open>\<open>strings.Fields\<close>; \<open>cur\<close> is the field read so far.\<close>

function fields_from :: "string \<Rightarrow> string \<Rightarrow> string list" where
  "fields_from cur s =
     (case leading space_runes s of
        Some p \<Rightarrow> (if cur = [] then id else (#) cur) (fields_from [] (drop (length p) s))
      | None \<Rightarrow>
          (case s of
             [] \<Rightarrow> if cur = [] then [] else [cur]
           | c # cs \<Rightarrow> fields_from (cur @ [c]) cs))"
  by auto
termination
  by (relation "measure (length \<circ> snd)") (auto dest: leading_shorter)

declare fields_from.simps [simp del]

definition strings_Fields :: "string \<Rightarrow> string list" where
  "strings_Fields s = fields_from [] s"

subsection \<open>Numbers\<close>

text \<open>\<open>strconv.Atoi\<close> on a 64-bit platform.\<close>

definition strconv_Atoi :: "string \<Rightarrow> int option" where
  "strconv_Atoi s =
     (let sg = (s \<noteq> [] \<and> hd s \<in> set ''+-''); neg = (sg \<and> hd s = CHR ''-'');
          ds = (if sg then tl s else s); n = int (digits_val ds)
      in if ds = [] \<or> \<not> list_all is_digit ds then None
         else if neg then (if n \<le> 2 ^ 63 then Some (- n) else None)
         else if n < 2 ^ 63 then Some n else None)"

text \<open>Go's integer quotient truncates towards zero.\<close>

definition go_quot :: "int \<Rightarrow> int \<Rightarrow> int" where
  "go_quot a b = a sdiv b"

lemma go_quot_pos: "0 \<le> a \<Longrightarrow> 0 < b \<Longrightarrow> go_quot a b = a div b"
  by (simp add: go_quot_def signed_divide_int_def sgn_if)

subsection \<open>Facts\<close>

lemma int_digits_inject [simp]: "int_digits i = int_digits j \<longleftrightarrow> i = j"
proof
  assume "int_digits i = int_digits j"
  with parse_number_digits [of "[]" i] parse_number_digits [of "[]" j]
  have "Some (JNum i, []) = Some (JNum j, [] :: string)" by simp
  then show "i = j" by simp
qed simp

lemma HasPrefix_iff: "HasPrefix s p \<longleftrightarrow> (\<exists>r. s = p @ r)"
  unfolding HasPrefix_def by (metis append_eq_conv_conj append_take_drop_id)

lemma HasPrefix_append [simp]: "HasPrefix (p @ r) p"
  by (auto simp: HasPrefix_iff)

lemma strings_Index_Some:
  "strings_Index s p = Some i \<Longrightarrow> s = take i s @ p @ drop (i + length p) s \<and> i + length p \<le> length s"
proof (induction s arbitrary: i)
  case (Cons c cs)
  then show ?case
    by (auto simp: HasPrefix_iff split: if_splits dest: arg_cong [where f = length])
qed (auto split: if_splits)

lemma strings_Index_byte: "strings_Index s [d] = (if d \<in> set s then Some (length (takeWhile (\<lambda>c. c \<noteq> d) s)) else None)"
  by (induction s) (auto simp: HasPrefix_def)

lemma strings_LastIndex_byte_None: "strings_LastIndex s [d] = None \<longleftrightarrow> d \<notin> set s"
  by (induction s) (auto simp: HasPrefix_def split: option.splits)

lemma strings_LastIndex_byte:
  "strings_LastIndex (a @ d # b) [d] = Some (length a)" if "d \<notin> set b"
  using that strings_LastIndex_byte_None [of b d]
  by (induction a) (auto simp: HasPrefix_def split: option.splits)

lemma strings_Split_nonempty [simp]: "strings_Split s sep \<noteq> []"
  by (induction s) (auto split: list.splits)

lemma strings_Split_no_sep: "w \<in> set (strings_Split s sep) \<Longrightarrow> sep \<notin> set w"
  by (induction s arbitrary: w) (auto split: list.splits if_splits)

lemma strings_Split_word: "sep \<notin> set s \<Longrightarrow> strings_Split s sep = [s]"
  by (induction s) auto

lemma strings_Split_cons:
  "sep \<notin> set w \<Longrightarrow> strings_Split (w @ sep # s) sep = w # strings_Split s sep"
  by (induction w) auto

lemma strings_Split_Join:
  "ws \<noteq> [] \<Longrightarrow> \<forall>w \<in> set ws. sep \<notin> set w \<Longrightarrow> strings_Split (strings_Join ws [sep]) sep = ws"
proof (induction ws)
  case (Cons w ws)
  then show ?case by (cases ws) (auto simp: strings_Split_word strings_Split_cons)
qed simp

lemma trim_leading_id: "leading ps s = None \<Longrightarrow> trim_leading ps s = s"
  by (subst trim_leading.simps) simp

lemma trim_leading_done: "leading ps (trim_leading ps s) = None"
  by (induction ps s rule: trim_leading.induct) (subst trim_leading.simps, auto split: option.split)

lemma leading_char:
  assumes "\<forall>p \<in> set ps. p \<noteq> [] \<and> hd p \<noteq> c"
  shows "leading ps (c # s) = None"
  unfolding leading_def find_None_iff using assms by (auto simp: HasPrefix_iff Cons_eq_append_conv)

lemma leading_Nil [simp]: "leading ps [] = None"
  by (auto simp: leading_def find_None_iff HasPrefix_def)

text \<open>Printable characters other than the space are no white space.\<close>

definition graphic :: "char \<Rightarrow> bool" where "graphic c \<longleftrightarrow> 0x21 \<le> byte c \<and> byte c < 0x7F"

lemma leading_graphic:
  assumes "graphic c"
  shows "leading space_runes (c # s) = None" "leading (map rev space_runes) (c # s) = None"
  using assms by (auto intro!: leading_char simp: space_runes_def graphic_def)

lemma leading_blank: "c = CHR 0x09 \<or> c = CHR 0x20 \<Longrightarrow> leading space_runes (c # s) = Some [c]"
  "c = CHR 0x09 \<or> c = CHR 0x20 \<Longrightarrow> leading (map rev space_runes) (c # s) = Some [c]"
  by (elim disjE; simp add: leading_def space_runes_def HasPrefix_def)+

lemma trim_leading_blank:
  assumes "c = CHR 0x09 \<or> c = CHR 0x20"
  shows "trim_leading space_runes (c # s) = trim_leading space_runes s"
    "trim_leading (map rev space_runes) (c # s) = trim_leading (map rev space_runes) s"
  by (subst trim_leading.simps, simp add: leading_blank [OF assms])+

lemma TrimSpace_words:
  assumes "s \<noteq> []" "graphic (hd s)" "graphic (last s)"
  shows "TrimSpace s = s" "TrimSpace (CHR 0x09 # s) = s" "TrimSpace (s @ '' '') = s"
proof -
  obtain c t where c: "s = c # t" "graphic c" using assms by (cases s) auto
  obtain d u where d: "rev s = d # u" "graphic d" using assms by (cases "rev s") (auto simp: last_rev hd_rev [symmetric])
  have l: "trim_leading space_runes (s @ x) = s @ x" for x
    using c by (simp add: trim_leading_id leading_graphic)
  have r: "trim_leading (map rev space_runes) (rev s) = rev s"
    unfolding d(1) by (rule trim_leading_id, rule leading_graphic(2), rule d(2))
  show "TrimSpace s = s" "TrimSpace (CHR 0x09 # s) = s" "TrimSpace (s @ '' '') = s"
    using l [of "[]"] l [of "'' ''"] r by (simp_all add: TrimSpace_def trim_leading_blank)
qed

lemma TrimSpace_Nil [simp]: "TrimSpace [] = []"
  by (simp add: TrimSpace_def trim_leading_id)

end
