(* ===== verification/BruteForce.thy ===== *)
theory BruteForce
  imports Subject GoStrings
begin

text \<open>
  The brute-force detector (\<open>src/internal/observability/brute_force.go\<close>). Its mutex makes every
  call atomic, so a run is a sequence of calls. \<open>d.failures\<close> maps a client without entry to the
  empty slice; pruning in place (\<open>old[:0]\<close>) is a filter. The publish call runs in a goroutine of
  its own: \<open>bf_published\<close> lists the calls in the order they are started.

  The results: the slice kept for a client is the part of its history inside the window, an event
  is published exactly when that part reaches the threshold in a bucket that was not reported
  yet, and no bucket is reported twice.
\<close>

definition DefaultBruteForceThreshold :: int where "DefaultBruteForceThreshold = 10"
definition DefaultBruteForceWindowSec :: int where "DefaultBruteForceWindowSec = 60"

record BruteForceDetector =
  bf_workspaceID :: string
  bf_threshold :: int
  bf_windowSec :: int
  bf_failures :: "string \<Rightarrow> time list"
  bf_alerted :: "string \<rightharpoonup> unit"
  bf_published :: "(NATSSubject \<times> event) list"

text \<open>A positive integer from the environment, or the default.\<close>

definition env_pos_int :: "(string \<Rightarrow> string) \<Rightarrow> string \<Rightarrow> int \<Rightarrow> int" where
  "env_pos_int getenv name dflt =
     (let v = getenv name in
      if v = [] then dflt
      else case strconv_Atoi v of Some n \<Rightarrow> if 0 < n then n else dflt | None \<Rightarrow> dflt)"

definition NewBruteForceDetector :: "(string \<Rightarrow> string) \<Rightarrow> string \<Rightarrow> BruteForceDetector" where
  "NewBruteForceDetector getenv workspaceID =
     \<lparr>bf_workspaceID = workspaceID,
      bf_threshold = env_pos_int getenv ''SHIKKI_BRUTE_FORCE_THRESHOLD'' DefaultBruteForceThreshold,
      bf_windowSec = env_pos_int getenv ''SHIKKI_BRUTE_FORCE_WINDOW_SEC'' DefaultBruteForceWindowSec,
      bf_failures = (\<lambda>_. []), bf_alerted = Map.empty, bf_published = []\<rparr>"

definition bf_cutoff :: "int \<Rightarrow> time \<Rightarrow> time" where
  "bf_cutoff windowSec at = Time_Add at (- word_of_int windowSec * time_Second)"

definition bucketKey :: "string \<Rightarrow> time \<Rightarrow> int \<Rightarrow> string" where
  "bucketKey clientID first windowSec =
     clientID @ ''|'' @ int_digits (go_quot (Time_Unix first) windowSec)"

definition recordFailureAt :: "string \<Rightarrow> string \<Rightarrow> time \<Rightarrow> BruteForceDetector \<Rightarrow> BruteForceDetector" where
  "recordFailureAt uuid clientID at d =
     (let cutoff = bf_cutoff (bf_windowSec d) at;
          fresh = filter (\<lambda>t. \<not> Time_Before t cutoff) (bf_failures d clientID) @ [at];
          d1 = d\<lparr>bf_failures := (bf_failures d)(clientID := fresh)\<rparr>
      in if int (length fresh) < bf_threshold d then d1
         else let first = hd fresh; key = bucketKey clientID first (bf_windowSec d)
              in if bf_alerted d key \<noteq> None then d1
                 else d1\<lparr>bf_alerted := (bf_alerted d)(key \<mapsto> ()),
                         bf_published := bf_published d @
                           [(SecuritySubject (bf_workspaceID d) ActionBruteForceDetected uuid,
                             EvBruteForce \<lparr>BF_TS = Format_Milli (Time_UTC at), BF_CorrID = uuid,
                               BF_WorkspaceID = bf_workspaceID d, BF_ClientID = clientID,
                               BF_AttemptCount = int (length fresh), BF_WindowSeconds = bf_windowSec d,
                               BF_FirstSeen = first, BF_LastSeen = at\<rparr>)]\<rparr>)"

definition RecordFailure :: "string \<Rightarrow> time \<Rightarrow> string \<Rightarrow> BruteForceDetector \<Rightarrow> BruteForceDetector" where
  "RecordFailure uuid now clientID d = recordFailureAt uuid clientID now d"

definition RecordFailureAtForTest :: "string \<Rightarrow> string \<Rightarrow> time \<Rightarrow> BruteForceDetector \<Rightarrow> BruteForceDetector" where
  "RecordFailureAtForTest uuid clientID at d = recordFailureAt uuid clientID at d"

text \<open>A history of failures: correlation id, client and time of each, oldest first.\<close>

type_synonym failure = "string \<times> string \<times> time"

definition record_all :: "failure list \<Rightarrow> BruteForceDetector \<Rightarrow> BruteForceDetector" where
  "record_all h d = fold (\<lambda>(u, c, t). recordFailureAt u c t) h d"

definition times_of :: "string \<Rightarrow> failure list \<Rightarrow> time list" where
  "times_of c h = map (snd \<circ> snd) (filter (\<lambda>(_, c', _). c' = c) h)"

text \<open>The failures of a client inside the window that ends at \<open>at\<close>.\<close>

definition in_window :: "int \<Rightarrow> time \<Rightarrow> time list \<Rightarrow> time list" where
  "in_window windowSec at ts = filter (\<lambda>t. wall at - windowSec * 10 ^ 9 \<le> wall t) ts"

subsection \<open>The settings\<close>

lemma env_pos_int_pos: "0 < dflt \<Longrightarrow> 0 < env_pos_int getenv name dflt"
  by (auto simp: env_pos_int_def Let_def split: option.splits)

lemma New_settings_pos:
  "0 < bf_threshold (NewBruteForceDetector getenv ws)" "0 < bf_windowSec (NewBruteForceDetector getenv ws)"
  by (simp_all add: NewBruteForceDetector_def env_pos_int_pos DefaultBruteForceThreshold_def
      DefaultBruteForceWindowSec_def)

lemma record_settings [simp]:
  "bf_windowSec (recordFailureAt u c t d) = bf_windowSec d"
  "bf_threshold (recordFailureAt u c t d) = bf_threshold d"
  "bf_workspaceID (recordFailureAt u c t d) = bf_workspaceID d"
  by (simp_all add: recordFailureAt_def Let_def)

lemma record_all_snoc [simp]: "record_all (h @ [(u, c, t)]) d = recordFailureAt u c t (record_all h d)"
  by (simp add: record_all_def)

lemma record_all_Nil [simp]: "record_all [] d = d"
  by (simp add: record_all_def)

lemma record_all_settings [simp]:
  "bf_windowSec (record_all h d) = bf_windowSec d" "bf_threshold (record_all h d) = bf_threshold d"
  "bf_workspaceID (record_all h d) = bf_workspaceID d"
  by (induction h rule: rev_induct) auto

subsection \<open>The window\<close>

lemma sint_exact: "- (2 ^ 63) \<le> i \<Longrightarrow> i < 2 ^ 63 \<Longrightarrow> sint (word_of_int i :: 64 word) = i"
  by transfer (simp add: signed_take_bit_int_eq_self)

lemma bf_cutoff_exact:
  assumes "0 < w" and "w * 10 ^ 9 < 2 ^ 63"
  shows "wall (bf_cutoff w at) = wall at - w * 10 ^ 9"
proof -
  have "- word_of_int w * time_Second = (word_of_int (- (w * 10 ^ 9)) :: 64 word)"
    by (simp add: time_Second_def)
  then have "sint (- word_of_int w * time_Second) = - (w * 10 ^ 9)"
    using assms sint_exact [of "- (w * 10 ^ 9)"] by simp
  then show ?thesis by (simp add: bf_cutoff_def)
qed

lemma times_of_snoc: "times_of c (h @ [(u, c', t)]) = times_of c h @ (if c' = c then [t] else [])"
  by (simp add: times_of_def)

lemma in_window_shift:
  "wall a \<le> wall b \<Longrightarrow> in_window w b (in_window w a ts) = in_window w b ts"
  unfolding in_window_def by (simp, rule filter_cong) auto

lemma in_window_last: "0 \<le> w \<Longrightarrow> in_window w t (ts @ [t]) = in_window w t ts @ [t]"
  by (simp add: in_window_def)

lemma record_failures:
  "bf_failures (recordFailureAt u c t d) =
     (bf_failures d)(c := filter (\<lambda>s. \<not> Time_Before s (bf_cutoff (bf_windowSec d) t)) (bf_failures d c) @ [t])"
  by (simp add: recordFailureAt_def Let_def)

lemma prune_in_window:
  assumes "0 < w" and "w * 10 ^ 9 < 2 ^ 63"
  shows "filter (\<lambda>s. \<not> Time_Before s (bf_cutoff w t)) ts = in_window w t ts"
  by (simp add: Time_Before_def bf_cutoff_exact [OF assms] in_window_def not_less)

lemma failures_are_window:
  assumes "\<forall>c. bf_failures d c = []" and "0 < bf_windowSec d" and "bf_windowSec d * 10 ^ 9 < 2 ^ 63"
    and "sorted (map wall (times_of c h))"
  shows "bf_failures (record_all h d) c =
    (if times_of c h = [] then [] else in_window (bf_windowSec d) (last (times_of c h)) (times_of c h))"
  using assms(4)
proof (induction h rule: rev_induct)
  case (snoc x h)
  obtain u c' t where x: "x = (u, c', t)" by (cases x)
  show ?case
  proof (cases "c' = c")
    case True
    have srt: "sorted (map wall (times_of c h))" "\<forall>s \<in> set (times_of c h). wall s \<le> wall t"
      using snoc.prems by (auto simp: x True times_of_snoc sorted_append)
    have "bf_failures (record_all (h @ [x]) d) c =
        in_window (bf_windowSec d) t (bf_failures (record_all h d) c) @ [t]"
      by (simp add: x True record_failures prune_in_window [OF assms(2,3)])
    also have "in_window (bf_windowSec d) t (bf_failures (record_all h d) c) =
        in_window (bf_windowSec d) t (times_of c h)"
      using snoc.IH [OF srt(1)] srt(2) by (simp add: in_window_shift)
    finally show ?thesis using assms(2) by (simp add: x True times_of_snoc in_window_last)
  next
    case False
    with snoc show ?thesis by (simp add: x times_of_snoc record_failures)
  qed
qed (simp add: assms(1) times_of_def)

subsection \<open>Events and alerted buckets\<close>

lemma bar_not_digit: "CHR ''|'' \<notin> set (int_digits i)"
  using nat_digits_are_digits by (fastforce simp: int_digits_def is_digit_def split: if_splits)

lemma bucketKey_inject:
  "bucketKey c t w = bucketKey c' t' w' \<longleftrightarrow>
     c = c' \<and> go_quot (Time_Unix t) w = go_quot (Time_Unix t') w'"
proof
  assume "bucketKey c t w = bucketKey c' t' w'"
  from split_last_dot [OF this [unfolded bucketKey_def append.simps] bar_not_digit bar_not_digit]
  show "c = c' \<and> go_quot (Time_Unix t) w = go_quot (Time_Unix t') w'" 
    by (simp add: int_digits_inject)
qed (simp add: bucketKey_def)

fun event_bucket :: "event \<Rightarrow> string" where
  "event_bucket (EvBruteForce e) = bucketKey (BF_ClientID e) (BF_FirstSeen e) (BF_WindowSeconds e)"
| "event_bucket _ = []"

text \<open>The published events and the alerted buckets correspond one to one.\<close>

definition alerts_ok :: "BruteForceDetector \<Rightarrow> bool" where
  "alerts_ok d \<longleftrightarrow>
     distinct (map (event_bucket \<circ> snd) (bf_published d))
     \<and> (event_bucket \<circ> snd) ` set (bf_published d) = dom (bf_alerted d)
     \<and> (\<forall>(s, e) \<in> set (bf_published d). \<exists>x. e = EvBruteForce x \<and> BF_WindowSeconds x = bf_windowSec d
          \<and> bf_threshold d \<le> BF_AttemptCount x)"

lemma alerts_ok_record: "alerts_ok d \<Longrightarrow> alerts_ok (recordFailureAt u c t d)"
  by (auto simp: alerts_ok_def recordFailureAt_def Let_def domIff)

lemma alerts_ok_New: "alerts_ok (NewBruteForceDetector getenv ws)"
  by (simp add: alerts_ok_def NewBruteForceDetector_def)

lemma alerts_ok_all: "alerts_ok d \<Longrightarrow> alerts_ok (record_all h d)"
  by (induction h rule: rev_induct) (auto intro: alerts_ok_record)

lemma record_alerts:
  fixes u c t d defines "fresh \<equiv> bf_failures (recordFailureAt u c t d) c"
  assumes "bf_threshold d \<le> int (length fresh)"
  shows "bf_alerted (recordFailureAt u c t d) (bucketKey c (hd fresh) (bf_windowSec d)) \<noteq> None"
  using assms(2) unfolding fresh_def record_failures
  by (auto simp: recordFailureAt_def Let_def)

subsection \<open>Properties\<close>

lemma New_no_failures: "bf_failures (NewBruteForceDetector getenv ws) c = []"
  by (simp add: NewBruteForceDetector_def)

text \<open>
  C21. An attack is detected: when a client has at least the threshold of failures inside the window
  that ends at its newest failure, its history being recorded in order of time and the window
  being below the range of a duration, an event is published for this client and for the
  bucket of the first failure in the window, which counts at least the threshold.
\<close>

theorem attack_detected:
  fixes getenv ws defines "d \<equiv> NewBruteForceDetector getenv ws"
  assumes "bf_windowSec d * 10 ^ 9 < 2 ^ 63" and "sorted (map wall (times_of c (h @ [(u, c, t)])))"
    and "bf_threshold d \<le> int (length (in_window (bf_windowSec d) t (times_of c (h @ [(u, c, t)]))))"
  shows "\<exists>s x. (s, EvBruteForce x) \<in> set (bf_published (record_all (h @ [(u, c, t)]) d))
     \<and> BF_ClientID x = c \<and> bf_threshold d \<le> BF_AttemptCount x
     \<and> go_quot (Time_Unix (BF_FirstSeen x)) (bf_windowSec d) =
       go_quot (Time_Unix (hd (in_window (bf_windowSec d) t (times_of c (h @ [(u, c, t)]))))) (bf_windowSec d)"
proof -
  let ?h = "h @ [(u, c, t)]" and ?d = "record_all (h @ [(u, c, t)]) d"
  let ?win = "in_window (bf_windowSec d) t (times_of c ?h)"
  have "\<forall>c. bf_failures d c = []" "0 < bf_windowSec d"
    by (simp_all add: d_def New_no_failures New_settings_pos)
  from failures_are_window [OF this assms(2,3)] have "bf_failures ?d c = ?win"
    by (simp add: times_of_snoc del: record_all_snoc)
  then have "bf_alerted ?d (bucketKey c (hd ?win) (bf_windowSec d)) \<noteq> None"
    using record_alerts [of "record_all h d" u c t] assms(4) by simp
  moreover have ok: "alerts_ok ?d" unfolding d_def by (rule alerts_ok_all [OF alerts_ok_New])
  ultimately have "bucketKey c (hd ?win) (bf_windowSec d) \<in> (event_bucket \<circ> snd) ` set (bf_published ?d)"
    by (auto simp: alerts_ok_def simp del: record_all_snoc)
  then obtain s e where e: "(s, e) \<in> set (bf_published ?d)" "event_bucket e = bucketKey c (hd ?win) (bf_windowSec d)"
    by auto
  with ok obtain x where "e = EvBruteForce x" "BF_WindowSeconds x = bf_windowSec d" "bf_threshold d \<le> BF_AttemptCount x"
    by (fastforce simp: alerts_ok_def simp del: record_all_snoc)
  with e show ?thesis by (auto simp: bucketKey_inject)
qed

definition demo_failures :: "nat \<Rightarrow> failure list" where
  "demo_failures n = map (\<lambda>k. (''u'', ''ip'', utc_time (int k * 10 ^ 9))) [0..<n]"

theorem attack_detected_witness:
  "\<exists>s x. (s, EvBruteForce x) \<in> set (bf_published (record_all (demo_failures 9 @ [(''u'', ''ip'', utc_time (9 * 10 ^ 9))])
        (NewBruteForceDetector (\<lambda>_. []) ''ws'')))
     \<and> BF_ClientID x = ''ip'' \<and> 10 \<le> BF_AttemptCount x"
  using attack_detected [of "\<lambda>_. []" "''ws''" "''ip''" "demo_failures 9" "''u''" "utc_time (9 * 10 ^ 9)"]
  by (auto simp: NewBruteForceDetector_def env_pos_int_def DefaultBruteForceThreshold_def
      DefaultBruteForceWindowSec_def times_of_def demo_failures_def in_window_def upt_rec
      simp del: record_all_snoc)

text \<open>
  C22. No bucket is reported twice, in whatever order failures are recorded: the published events
  are pairwise different in client or bucket, and each reports at least the threshold.
\<close>

theorem one_event_per_bucket:
  fixes getenv ws h defines "d \<equiv> record_all h (NewBruteForceDetector getenv ws)"
  shows "distinct (map (\<lambda>(s, e). case e of EvBruteForce x \<Rightarrow>
           (BF_ClientID x, go_quot (Time_Unix (BF_FirstSeen x)) (bf_windowSec d))) (bf_published d))
     \<and> list_all (\<lambda>(s, e). \<exists>x. e = EvBruteForce x \<and> bf_threshold d \<le> BF_AttemptCount x) (bf_published d)"
proof -
  let ?f = "\<lambda>(s, e). case e of EvBruteForce x \<Rightarrow>
       (BF_ClientID x, go_quot (Time_Unix (BF_FirstSeen x)) (bf_windowSec d))"
  have ok: "alerts_ok d" unfolding d_def by (rule alerts_ok_all [OF alerts_ok_New])
  have ev: "\<exists>x. snd p = EvBruteForce x \<and> BF_WindowSeconds x = bf_windowSec d \<and> bf_threshold d \<le> BF_AttemptCount x"
    if "p \<in> set (bf_published d)" for p
    using ok that by (fastforce simp: alerts_ok_def)
  have "inj_on ?f (set (bf_published d)) = inj_on (event_bucket \<circ> snd) (set (bf_published d))"
    unfolding inj_on_def
  proof (intro ball_cong refl)
    fix p q assume "p \<in> set (bf_published d)" "q \<in> set (bf_published d)"
    from ev [OF this(1)] ev [OF this(2)]
    show "(?f p = ?f q \<longrightarrow> p = q) = ((event_bucket \<circ> snd) p = (event_bucket \<circ> snd) q \<longrightarrow> p = q)"
      by (cases p; cases q) (auto simp: bucketKey_inject)
  qed
  with ok ev show ?thesis by (fastforce simp: alerts_ok_def distinct_map list_all_iff)
qed



end
