(* ===== verification/BoundedQueue.thy ===== *)
theory BoundedQueue
  imports Prelude
begin

text \<open>
  The contract of a bounded first-in first-out queue, as the buffered publisher relies on it: an
  abstraction to the list of waiting elements, a \<open>put\<close> that appends while there is room and
  otherwise changes nothing, and a \<open>pop\<close> that takes the oldest element. The client lemmas say what
  any mix of the two does, in terms of the list alone.
\<close>

datatype 'e qop = QPut 'e | QPop

text \<open>What a client observes: the elements that got in, those turned away, those taken out.\<close>

record 'e qlog =
  q_in :: "'e list"
  q_full :: "'e list"
  q_out :: "'e list"

definition empty_log :: "'e qlog" where
  "empty_log = \<lparr>q_in = [], q_full = [], q_out = []\<rparr>"

fun q_run :: "('s \<Rightarrow> 'e list) \<Rightarrow> nat \<Rightarrow> ('e \<Rightarrow> 's \<Rightarrow> 's) \<Rightarrow> ('s \<Rightarrow> 'e \<times> 's) \<Rightarrow> 'e qop list \<Rightarrow> 's \<times> 'e qlog \<Rightarrow> 's \<times> 'e qlog" where
  "q_run items cap put pop [] sl = sl"
| "q_run items cap put pop (QPut e # os) (s, l) =
     q_run items cap put pop os
       (put e s, if length (items s) < cap then l\<lparr>q_in := q_in l @ [e]\<rparr> else l\<lparr>q_full := q_full l @ [e]\<rparr>)"
| "q_run items cap put pop (QPop # os) (s, l) =
     q_run items cap put pop os
       (if items s = [] then (s, l)
        else let (e, s') = pop s in (s', l\<lparr>q_out := q_out l @ [e]\<rparr>))"

locale bounded_queue =
  fixes inv :: "'s \<Rightarrow> bool" and items :: "'s \<Rightarrow> 'e list" and cap :: nat
    and put :: "'e \<Rightarrow> 's \<Rightarrow> 's" and pop :: "'s \<Rightarrow> 'e \<times> 's"
  assumes inv_cap: "inv s \<Longrightarrow> length (items s) \<le> cap"
    and put_inv: "inv s \<Longrightarrow> inv (put e s)"
    and put_items: "inv s \<Longrightarrow> items (put e s) = (if length (items s) < cap then items s @ [e] else items s)"
    and pop_inv: "inv s \<Longrightarrow> items s \<noteq> [] \<Longrightarrow> inv (snd (pop s))"
    and pop_items: "inv s \<Longrightarrow> items s \<noteq> [] \<Longrightarrow> items s = fst (pop s) # items (snd (pop s))"
begin

lemma pop_hd: "inv s \<Longrightarrow> items s \<noteq> [] \<Longrightarrow> fst (pop s) = hd (items s) \<and> items (snd (pop s)) = tl (items s)"
  using pop_items [of s] by (metis list.sel(1,3))

text \<open>Elements leave in the order they entered, and none but those turned away is lost.\<close>

lemma fifo:
  "inv s \<Longrightarrow> q_in l = q_out l @ items s \<Longrightarrow> q_run items cap put pop os (s, l) = (s', l') \<Longrightarrow>
     inv s' \<and> q_in l' = q_out l' @ items s'"
proof (induction os arbitrary: s l)
  case (Cons op os)
  show ?case
  proof (cases op)
    case (QPut e)
    let ?l = "if length (items s) < cap then l\<lparr>q_in := q_in l @ [e]\<rparr> else l\<lparr>q_full := q_full l @ [e]\<rparr>"
    have "q_in ?l = q_out ?l @ items (put e s)" using Cons.prems(2) put_items [OF Cons.prems(1)] by simp
    moreover have "q_run items cap put pop os (put e s, ?l) = (s', l')" using Cons.prems(3) QPut by simp
    ultimately show ?thesis using Cons.IH [OF put_inv [OF Cons.prems(1)]] by blast
  next
    case QPop
    show ?thesis
    proof (cases "items s = []")
      case True
      with Cons.prems QPop Cons.IH [of s l] show ?thesis by simp
    next
      case False
      let ?l = "l\<lparr>q_out := q_out l @ [fst (pop s)]\<rparr>"
      have "q_in ?l = q_out ?l @ items (snd (pop s))"
        using Cons.prems(2) pop_items [OF Cons.prems(1) False] by simp
      moreover have "q_run items cap put pop os (snd (pop s), ?l) = (s', l')"
        using Cons.prems(3) QPop False by (simp add: case_prod_beta Let_def)
      ultimately show ?thesis using Cons.IH [OF pop_inv [OF Cons.prems(1) False]] by blast
    qed
  qed
qed simp

lemma put_full: "inv s \<Longrightarrow> length (items s) = cap \<Longrightarrow> items (put e s) = items s"
  by (simp add: put_items)

end

end
