(* ===== verification/NatsPublisher.thy ===== *)
theory NatsPublisher
  imports Subject BoundedQueue
begin

text \<open>
  The NATS publisher (\<open>src/internal/observability/nats_publisher.go\<close>). The NATS client library is
  outside the repository: what its calls answer is an argument of the operations (\<open>send\<close>, \<open>answers\<close>).
  The two critical sections that touch the ring are \<open>ring_put\<close> and \<open>ring_pop\<close>; \<open>Publish\<close>, \<open>flush\<close>
  and \<open>drainLoop\<close> are composed of them as in the code. \<open>np_event\<close> is what happens to one event.

  The results: the circular buffer is a bounded first-in first-out queue (an interpretation of
  \<open>bounded_queue\<close>); in every interleaving of publishers and the drain goroutine each buffered event
  is sent, lost in a failed send, or still waiting, in order; a flush over a working connection
  empties the buffer.
\<close>

definition ringBufferSize :: nat where "ringBufferSize = 1024"

record pendingEvent =
  pe_subject :: string
  pe_data :: bytes

record NATSPublisher =
  np_workspaceID :: string
  np_url :: string
  np_conn :: bool
  np_ring :: "pendingEvent list"
  np_ringHead :: nat
  np_ringTail :: nat
  np_ringCount :: nat
  np_drops :: "64 word"
  np_drainCh :: nat
  np_closed :: bool

text \<open>
  What happens to an event: accepted by the connection directly, put in the ring, dropped because
  the ring is full, sent from the ring, or lost when a send from the ring fails.
\<close>

datatype np_event =
    NpDirect pendingEvent
  | NpBuffered pendingEvent
  | NpDropped pendingEvent
  | NpSent pendingEvent
  | NpLost pendingEvent

definition NewNATSPublisher :: "bool \<Rightarrow> string \<Rightarrow> string \<Rightarrow> NATSPublisher" where
  "NewNATSPublisher connectOK natsURL workspaceID =
     \<lparr>np_workspaceID = workspaceID, np_url = natsURL, np_conn = connectOK,
      np_ring = replicate ringBufferSize \<lparr>pe_subject = [], pe_data = []\<rparr>,
      np_ringHead = 0, np_ringTail = 0, np_ringCount = 0, np_drops = 0, np_drainCh = 0,
      np_closed = False\<rparr>"

text \<open>The channel of drain signals holds at most \<open>ringBufferSize\<close> of them; a send never blocks.\<close>

definition drain_signal :: "NATSPublisher \<Rightarrow> NATSPublisher" where
  "drain_signal p = (if np_drainCh p < ringBufferSize then p\<lparr>np_drainCh := np_drainCh p + 1\<rparr> else p)"

definition ring_put :: "pendingEvent \<Rightarrow> NATSPublisher \<Rightarrow> NATSPublisher \<times> np_event" where
  "ring_put ev p =
     (if np_ringCount p < ringBufferSize
      then (p\<lparr>np_ring := (np_ring p)[np_ringHead p := ev],
              np_ringHead := (np_ringHead p + 1) mod ringBufferSize,
              np_ringCount := np_ringCount p + 1\<rparr>, NpBuffered ev)
      else (p\<lparr>np_drops := np_drops p + 1\<rparr>, NpDropped ev))"

definition ring_pop :: "NATSPublisher \<Rightarrow> pendingEvent \<times> NATSPublisher" where
  "ring_pop p =
     (np_ring p ! np_ringTail p,
      p\<lparr>np_ringTail := (np_ringTail p + 1) mod ringBufferSize, np_ringCount := np_ringCount p - 1\<rparr>)"

text \<open>
  How the attempt to send directly ends: not connected; published and flushed within the deadline;
  refused by \<open>conn.Publish\<close>; or published while the flush fails or the deadline passes, where the
  flag says whether the connection had taken the event.
\<close>

datatype send =
    NotConnected
  | SentInTime
  | PublishRefused
  | FlushFailed
  | DeadlinePassed bool

definition Publish_event :: "send \<Rightarrow> pendingEvent \<Rightarrow> NATSPublisher \<Rightarrow> NATSPublisher \<times> np_event list" where
  "Publish_event send ev p =
     (let send = (if np_conn p then send else NotConnected);
          (p', e) = ring_put ev p;
          p'' = (if e = NpBuffered ev then drain_signal p' else p')
      in case send of
           SentInTime \<Rightarrow> (p, [NpDirect ev])
         | FlushFailed \<Rightarrow> (p'', [NpDirect ev, e])
         | DeadlinePassed taken \<Rightarrow> (p'', (if taken then [NpDirect ev] else []) @ [e])
         | _ \<Rightarrow> (p'', [e]))"

definition NATSPublisher_Publish :: "send \<Rightarrow> NATSSubject \<Rightarrow> event \<Rightarrow> NATSPublisher \<Rightarrow> NATSPublisher \<times> np_event list" where
  "NATSPublisher_Publish send subject payload p =
     (case event_json payload of
        None \<Rightarrow> (p, [])
      | Some j \<Rightarrow>
          Publish_event send \<lparr>pe_subject = NATSSubject_String subject, pe_data = json_Marshal j\<rparr> p)"

text \<open>
  \<open>flush\<close>: the answers of iteration \<open>k\<close> are whether the connection is up and whether \<open>conn.Publish\<close>
  succeeds. Each iteration takes an event out of the ring, so the loop ends.
\<close>

type_synonym answers = "nat \<Rightarrow> bool \<times> bool"

function flush :: "answers \<Rightarrow> nat \<Rightarrow> NATSPublisher \<Rightarrow> NATSPublisher \<times> np_event list" where
  "flush ans k p =
     (if np_ringCount p = 0 then (p, [])
      else if \<not> np_conn p \<or> \<not> fst (ans k) then (p, [])
      else let (ev, p1) = ring_pop p
           in if \<not> snd (ans k) then (p1, [NpLost ev])
              else let (p2, es) = flush ans (Suc k) p1 in (p2, NpSent ev # es))"
  by auto
termination
  by (relation "measure (\<lambda>(_, _, p). np_ringCount p)") (auto simp: ring_pop_def)

declare flush.simps [simp del]

text \<open>One turn of \<open>drainLoop\<close>: the case the \<open>select\<close> takes; the flag says that the loop returns.\<close>

datatype drain_case =
    DrainClosed
  | DrainSignalled
  | DrainTick bool bool

definition drainLoop :: "drain_case \<Rightarrow> answers \<Rightarrow> NATSPublisher \<Rightarrow> (NATSPublisher \<times> np_event list) \<times> bool" where
  "drainLoop c ans p =
     (case c of
        DrainClosed \<Rightarrow> (flush ans 0 p, True)
      | DrainSignalled \<Rightarrow> (flush ans 0 (p\<lparr>np_drainCh := np_drainCh p - 1\<rparr>), False)
      | DrainTick up connectOK \<Rightarrow>
          (flush ans 0 (if (\<not> np_conn p \<or> \<not> up) \<and> connectOK then p\<lparr>np_conn := True\<rparr> else p), False))"

text \<open>Closing a closed channel panics. The final flush is the \<open>DrainClosed\<close> turn of the loop.\<close>

definition NATSPublisher_Close :: "NATSPublisher \<Rightarrow> NATSPublisher option" where
  "NATSPublisher_Close p = (if np_closed p then None else Some (p\<lparr>np_closed := True\<rparr>))"

definition DropCount :: "NATSPublisher \<Rightarrow> 64 word" where
  "DropCount p = np_drops p"

definition NATSConn :: "NATSPublisher \<Rightarrow> bool" where
  "NATSConn p = np_conn p"

datatype Publisher = NoopPublisher | Live NATSPublisher

definition NewPublisherFromEnv :: "bool \<Rightarrow> string \<Rightarrow> string \<Rightarrow> Publisher" where
  "NewPublisherFromEnv connectOK natsURL workspaceID =
     (if natsURL = [] \<or> workspaceID = [] then NoopPublisher
      else Live (NewNATSPublisher connectOK natsURL workspaceID))"

fun Publisher_Publish :: "send \<Rightarrow> NATSSubject \<Rightarrow> event \<Rightarrow> Publisher \<Rightarrow> Publisher \<times> np_event list" where
  "Publisher_Publish send subject payload NoopPublisher = (NoopPublisher, [])"
| "Publisher_Publish send subject payload (Live p) =
     (let (p', es) = NATSPublisher_Publish send subject payload p in (Live p', es))"

fun Publisher_DropCount :: "Publisher \<Rightarrow> 64 word" where
  "Publisher_DropCount NoopPublisher = 0"
| "Publisher_DropCount (Live p) = DropCount p"

subsection \<open>The ring is a queue\<close>

definition ring_ok :: "NATSPublisher \<Rightarrow> bool" where
  "ring_ok p \<longleftrightarrow> length (np_ring p) = ringBufferSize \<and> np_ringTail p < ringBufferSize
     \<and> np_ringCount p \<le> ringBufferSize
     \<and> np_ringHead p = (np_ringTail p + np_ringCount p) mod ringBufferSize"

definition ring_items :: "NATSPublisher \<Rightarrow> pendingEvent list" where
  "ring_items p = map (\<lambda>i. np_ring p ! ((np_ringTail p + i) mod ringBufferSize)) [0..<np_ringCount p]"

lemma length_ring_items [simp]: "length (ring_items p) = np_ringCount p"
  by (simp add: ring_items_def)

lemma ring_items_Nil [simp]: "ring_items p = [] \<longleftrightarrow> np_ringCount p = 0"
  by (simp add: ring_items_def)

lemma ringBufferSize_pos [simp]: "0 < ringBufferSize"
  by (simp add: ringBufferSize_def)

lemma ring_New [simp]: "ring_ok (NewNATSPublisher ok url ws)" "ring_items (NewNATSPublisher ok url ws) = []"
  "np_ringCount (NewNATSPublisher ok url ws) = 0" "np_drops (NewNATSPublisher ok url ws) = 0"
  "np_conn (NewNATSPublisher ok url ws) = ok"
  by (simp_all add: ring_ok_def ring_items_def NewNATSPublisher_def)

lemma ring_slot_free:
  assumes "i < n" and "n < m"
  shows "(t + i) mod m \<noteq> (t + n) mod (m :: nat)"
proof
  assume "(t + i) mod m = (t + n) mod m"
  then have "m dvd (t + n) - (t + i)" using assms by (intro mod_eq_dvd_iff_nat [THEN iffD1]) auto
  with assms show False by (auto dest: dvd_imp_le)
qed

lemma ring_put_ok: "ring_ok p \<Longrightarrow> ring_ok (fst (ring_put ev p))"
  by (auto simp: ring_ok_def ring_put_def mod_Suc_eq)

lemma ring_put_items:
  assumes "ring_ok p"
  shows "ring_items (fst (ring_put ev p)) =
    (if np_ringCount p < ringBufferSize then ring_items p @ [ev] else ring_items p)"
proof -
  have "(np_ring p)[np_ringHead p := ev] ! ((np_ringTail p + i) mod ringBufferSize) =
      np_ring p ! ((np_ringTail p + i) mod ringBufferSize)"
    if "i < np_ringCount p" "np_ringCount p < ringBufferSize" for i
    using ring_slot_free [OF that, of "np_ringTail p"] assms by (simp add: ring_ok_def)
  then show ?thesis using assms by (auto simp: ring_put_def ring_items_def ring_ok_def)
qed

lemma ring_pop_ok: "ring_ok p \<Longrightarrow> np_ringCount p \<noteq> 0 \<Longrightarrow> ring_ok (snd (ring_pop p))"
proof -
  assume ok: "ring_ok p" and "np_ringCount p \<noteq> 0"
  then obtain n where "np_ringCount p = Suc n" by (cases "np_ringCount p") auto
  with ok show ?thesis by (simp add: ring_ok_def ring_pop_def mod_simps)
qed

lemma ring_pop_items:
  assumes "ring_ok p" and "np_ringCount p \<noteq> 0"
  shows "ring_items p = fst (ring_pop p) # ring_items (snd (ring_pop p))"
proof -
  obtain n where n: "np_ringCount p = Suc n" using assms(2) by (cases "np_ringCount p") auto
  have "[0..<Suc n] = 0 # map Suc [0..<n]" by (simp add: map_Suc_upt upt_conv_Cons del: upt_Suc)
  then show ?thesis
    using assms(1) by (simp add: ring_items_def ring_pop_def n ring_ok_def mod_simps del: upt_Suc)
qed

interpretation ring: bounded_queue ring_ok ring_items ringBufferSize "\<lambda>ev p. fst (ring_put ev p)" ring_pop
proof unfold_locales
  fix p ev
  assume ok: "ring_ok p"
  then show "length (ring_items p) \<le> ringBufferSize" by (simp add: ring_ok_def)
  show "ring_ok (fst (ring_put ev p))" using ok by (rule ring_put_ok)
  show "ring_items (fst (ring_put ev p)) =
      (if length (ring_items p) < ringBufferSize then ring_items p @ [ev] else ring_items p)"
    using ok by (simp add: ring_put_items)
  assume "ring_items p \<noteq> []"
  with ok show "ring_ok (snd (ring_pop p))" "ring_items p = fst (ring_pop p) # ring_items (snd (ring_pop p))"
    by (simp_all add: ring_pop_ok ring_pop_items [symmetric])
qed

subsection \<open>Interleaved runs\<close>

text \<open>
  The atomic steps of the goroutines: a direct send, the critical section of \<open>Publish\<close>, one
  iteration of \<open>flush\<close>, the signals, a new connection and closing. A run is any sequence of them,
  with the list of what happened to the events.
\<close>

inductive np_step :: "NATSPublisher \<Rightarrow> np_event list \<Rightarrow> NATSPublisher \<Rightarrow> bool" where
  step_direct: "np_step p [NpDirect ev] p"
| step_put: "ring_put ev p = (p', e) \<Longrightarrow> np_step p [e] p'"
| step_send: "np_ringCount p \<noteq> 0 \<Longrightarrow> ring_pop p = (ev, p') \<Longrightarrow> e = NpSent ev \<or> e = NpLost ev \<Longrightarrow> np_step p [e] p'"
| step_signal: "np_step p [] (p\<lparr>np_drainCh := n\<rparr>)"
| step_connect: "np_step p [] (p\<lparr>np_conn := True\<rparr>)"
| step_close: "np_step p [] (p\<lparr>np_closed := True\<rparr>)"

inductive np_run :: "NATSPublisher \<Rightarrow> np_event list \<Rightarrow> NATSPublisher \<Rightarrow> bool" where
  run_refl: "np_run p [] p"
| run_step: "np_step p es p' \<Longrightarrow> np_run p' fs p'' \<Longrightarrow> np_run p (es @ fs) p''"

lemma np_run_trans: "np_run p es p' \<Longrightarrow> np_run p' fs p'' \<Longrightarrow> np_run p (es @ fs) p''"
  by (induction rule: np_run.induct) (auto intro: run_step)

lemma np_run_one: "np_step p es p' \<Longrightarrow> np_run p es p'"
  using run_step [OF _ run_refl, of p es p'] by simp

lemma drain_signal_run: "np_run p [] (drain_signal p)"
  using np_run_one [OF step_signal, of p "np_drainCh p + 1"] by (simp add: drain_signal_def run_refl)

lemma put_signal_run:
  assumes "ring_put ev p = (p', e)"
  shows "np_run p [e] (if e = NpBuffered ev then drain_signal p' else p')"
  using np_run_trans [OF np_run_one [OF step_put [OF assms]] drain_signal_run]
    np_run_one [OF step_put [OF assms]] by auto

lemma Publish_event_run: "Publish_event send ev p = (p', es) \<Longrightarrow> np_run p es p'"
proof -
  assume pub: "Publish_event send ev p = (p', es)"
  obtain q e where put: "ring_put ev p = (q, e)" by fastforce
  note run = put_signal_run [OF put]
  have direct: "np_run p [NpDirect ev] p" by (rule np_run_one [OF step_direct])
  from np_run_trans [OF this run] run direct pub put show ?thesis
    by (auto simp: Publish_event_def Let_def split: send.splits if_splits)
qed

lemma Publish_run: "NATSPublisher_Publish send subject payload p = (p', es) \<Longrightarrow> np_run p es p'"
  by (auto simp: NATSPublisher_Publish_def Publish_event_run run_refl split: option.splits)

lemma flush_run: "flush ans k p = (p', es) \<Longrightarrow> np_run p es p'"
proof (induction ans k p arbitrary: p' es rule: flush.induct)
  case (1 ans k p)
  obtain ev p1 where pop: "ring_pop p = (ev, p1)" by fastforce
  obtain p2 fs where fl: "flush ans (Suc k) p1 = (p2, fs)" by fastforce
  consider (stop) "np_ringCount p = 0 \<or> \<not> np_conn p \<or> \<not> fst (ans k)"
    | (go) "np_ringCount p \<noteq> 0" "np_conn p" "fst (ans k)" by blast
  then show ?case
  proof cases
    case stop
    then have "p' = p \<and> es = []" using "1.prems" flush.simps [of ans k p] by (auto split: if_splits)
    then show ?thesis by (simp add: run_refl)
  next
    case go
    show ?thesis
    proof (cases "snd (ans k)")
      case True
      then have "p' = p2 \<and> es = [NpSent ev] @ fs"
        using go "1.prems" flush.simps [of ans k p] by (auto simp: pop fl)
      moreover have "np_run p1 fs p2" using "1.IH" [of "(ev, p1)"] go True pop fl by simp
      ultimately show ?thesis using run_step [OF step_send [OF go(1) pop]] by blast
    next
      case False
      then have "p' = p1 \<and> es = [NpLost ev]"
        using go "1.prems" flush.simps [of ans k p] by (auto simp: pop)
      then show ?thesis using np_run_one [OF step_send [OF go(1) pop]] by blast
    qed
  qed
qed

lemma drainLoop_run: "drainLoop c ans p = ((p', es), fin) \<Longrightarrow> np_run p es p'"
proof -
  have sig: "np_run p [] (p\<lparr>np_drainCh := n\<rparr>)" "np_run p [] (p\<lparr>np_conn := True\<rparr>)" for n
    by (auto intro: np_run_one step_signal step_connect)
  assume "drainLoop c ans p = ((p', es), fin)"
  then show ?thesis
    using np_run_trans [OF sig(1) flush_run] np_run_trans [OF sig(2) flush_run] flush_run
    by (fastforce simp: drainLoop_def split: drain_case.splits if_splits)
qed

text \<open>The events that entered the ring, that left it, and that found it full.\<close>

fun buffered :: "np_event list \<Rightarrow> pendingEvent list" where
  "buffered [] = []"
| "buffered (NpBuffered ev # es) = ev # buffered es"
| "buffered (_ # es) = buffered es"

fun taken :: "np_event list \<Rightarrow> pendingEvent list" where
  "taken [] = []"
| "taken (NpSent ev # es) = ev # taken es"
| "taken (NpLost ev # es) = ev # taken es"
| "taken (_ # es) = taken es"

fun dropped :: "np_event list \<Rightarrow> pendingEvent list" where
  "dropped [] = []"
| "dropped (NpDropped ev # es) = ev # dropped es"
| "dropped (_ # es) = dropped es"

definition ring_balance :: "NATSPublisher \<Rightarrow> np_event list \<Rightarrow> NATSPublisher \<Rightarrow> bool" where
  "ring_balance p es p' \<longleftrightarrow> ring_ok p' \<and> ring_items p @ buffered es = taken es @ ring_items p'
     \<and> np_drops p' = np_drops p + of_nat (length (dropped es))"

lemma ring_frame [simp]:
  "ring_ok (p\<lparr>np_drainCh := n\<rparr>) = ring_ok p" "ring_ok (p\<lparr>np_conn := b\<rparr>) = ring_ok p"
  "ring_ok (p\<lparr>np_closed := b\<rparr>) = ring_ok p"
  "ring_items (p\<lparr>np_drainCh := n\<rparr>) = ring_items p" "ring_items (p\<lparr>np_conn := b\<rparr>) = ring_items p"
  "ring_items (p\<lparr>np_closed := b\<rparr>) = ring_items p"
  by (simp_all add: ring_ok_def ring_items_def)

lemma balance_step: "np_step p es p' \<Longrightarrow> ring_ok p \<Longrightarrow> ring_balance p es p'"
proof (induction rule: np_step.induct)
  case (step_put ev p p' e)
  from step_put.hyps have p': "p' = fst (ring_put ev p)" "e = snd (ring_put ev p)" by simp_all
  show ?case using ring_put_ok [OF step_put.prems, of ev] ring_put_items [OF step_put.prems, of ev]
    unfolding ring_balance_def p' by (simp add: ring_put_def split: if_splits)
next
  case (step_send p ev p' e)
  from step_send.hyps(2) have p': "p' = snd (ring_pop p)" "ev = fst (ring_pop p)" by simp_all
  show ?case
    using ring_pop_ok [OF step_send.prems step_send.hyps(1)] ring_pop_items [OF step_send.prems step_send.hyps(1)]
      step_send.hyps(3) unfolding ring_balance_def p' by (auto simp: ring_pop_def)
qed (simp_all add: ring_balance_def)

lemma buffered_append [simp]: "buffered (es @ fs) = buffered es @ buffered fs"
  by (induction es rule: buffered.induct) simp_all

lemma taken_append [simp]: "taken (es @ fs) = taken es @ taken fs"
  by (induction es rule: taken.induct) simp_all

lemma dropped_append [simp]: "dropped (es @ fs) = dropped es @ dropped fs"
  by (induction es rule: dropped.induct) simp_all

lemma balance_run: "np_run p es p' \<Longrightarrow> ring_ok p \<Longrightarrow> ring_balance p es p'"
proof (induction rule: np_run.induct)
  case (run_step p es p' fs p'')
  note one = balance_step [OF run_step.hyps(1) run_step.prems]
  then have "ring_balance p' fs p''" using run_step.IH by (simp add: ring_balance_def)
  with one show ?case by (simp add: ring_balance_def) (metis append_assoc)
qed (simp add: ring_balance_def)

lemma flush_all:
  "np_ringCount p = n \<Longrightarrow> ring_ok p \<Longrightarrow> np_conn p \<Longrightarrow> \<forall>i. ans i = (True, True) \<Longrightarrow>
     snd (flush ans k p) = map NpSent (ring_items p) \<and> ring_items (fst (flush ans k p)) = []"
proof (induction n arbitrary: k p)
  case 0
  then show ?case by (subst (1 2) flush.simps) (simp add: ring_items_def)
next
  case (Suc n)
  then have n0: "np_ringCount p \<noteq> 0" by simp
  obtain ev p1 where pop: "ring_pop p = (ev, p1)" by fastforce
  have p1: "ring_ok p1" "np_conn p1" "np_ringCount p1 = n" and it: "ring_items p = ev # ring_items p1"
    using ring_pop_ok [OF Suc.prems(2) n0] ring_pop_items [OF Suc.prems(2) n0] pop Suc.prems(1,3)
    by (auto simp: ring_pop_def)
  from Suc.IH [OF p1(3,1,2) Suc.prems(4), of "Suc k"] show ?case
    using n0 Suc.prems(3) spec [OF Suc.prems(4), of k]
    by (subst (1 2) flush.simps) (simp add: pop it case_prod_beta)
qed

subsection \<open>Properties\<close>

definition demo_pending :: pendingEvent where
  "demo_pending = \<lparr>pe_subject = ''s'', pe_data = ''d''\<rparr>"

text \<open>
  C17. Nothing is lost silently except in a failed send: in every interleaving of publish calls, flush
  iterations, signals and reconnections that starts with a new publisher, the events that
  entered the ring are those taken out, in order, followed by those waiting; at most 1024 wait; and
  the drop counter is the number of events that found the ring full, modulo \<open>2 ^ 64\<close>.
\<close>

theorem publisher_conservation:
  assumes "np_run (NewNATSPublisher ok url ws) es p"
  shows "buffered es = taken es @ ring_items p \<and> length (ring_items p) \<le> 1024
     \<and> DropCount p = of_nat (length (dropped es))"
proof -
  have "ring_balance (NewNATSPublisher ok url ws) es p" using assms by (rule balance_run) simp
  then show ?thesis
    by (simp add: ring_balance_def ring_ok_def [of p] ringBufferSize_def DropCount_def)
qed

theorem publisher_conservation_witness:
  "buffered [NpBuffered demo_pending] =
     ring_items (fst (Publish_event PublishRefused demo_pending (NewNATSPublisher True ''u'' ''w'')))"
proof -
  have "Publish_event PublishRefused demo_pending (NewNATSPublisher True ''u'' ''w'') =
      (fst (Publish_event PublishRefused demo_pending (NewNATSPublisher True ''u'' ''w'')), [NpBuffered demo_pending])"
    by (simp add: Publish_event_def ring_put_def NewNATSPublisher_def ringBufferSize_def Let_def)
  from publisher_conservation [OF Publish_event_run [OF this]] show ?thesis by simp
qed

text \<open>
  C19. A flush over a connection that stays up and takes every event sends all waiting events in the
  order they were published and leaves the ring empty.
\<close>

theorem flush_sends_all:
  assumes "ring_ok p" and "np_conn p" and "\<forall>i. ans i = (True, True)"
  shows "snd (flush ans k p) = map NpSent (ring_items p) \<and> ring_items (fst (flush ans k p)) = []"
  using assms by (rule flush_all [OF refl])

theorem flush_sends_all_witness:
  "let p = fst (Publish_event PublishRefused demo_pending (NewNATSPublisher True ''u'' ''w''))
   in ring_items p = [demo_pending] \<and> ring_items (fst (flush (\<lambda>_. (True, True)) 0 p)) = []"
proof -
  let ?q = "NewNATSPublisher True ''u'' ''w''"
  let ?p = "fst (Publish_event PublishRefused demo_pending ?q)"
  have p: "?p = drain_signal (fst (ring_put demo_pending ?q))"
    by (simp add: Publish_event_def ring_put_def Let_def)
  have c: "np_conn ?p" unfolding p by (simp add: drain_signal_def ring_put_def)
  have "ring_ok ?p" "ring_items ?p = [demo_pending]"
    unfolding p using ring_put_ok [OF ring_New(1), of demo_pending] ring_put_items [OF ring_New(1), of demo_pending]
    by (simp_all add: drain_signal_def)
  with flush_sends_all [OF this(1) c, of "\<lambda>_. (True, True)" 0] show ?thesis by (simp add: Let_def)
qed

lemma flush_ends:
  "flush ans k p = (p', es) \<Longrightarrow> length es + np_ringCount p' = np_ringCount p
     \<and> (np_ringCount p' = 0 \<or> \<not> np_conn p \<or> \<not> fst (ans (k + length es)) \<or> (\<exists>ev. es \<noteq> [] \<and> last es = NpLost ev))"
proof (induction ans k p arbitrary: p' es rule: flush.induct)
  case (1 ans k p)
  obtain ev p1 where pop: "ring_pop p = (ev, p1)" by fastforce
  have p1: "np_ringCount p1 = np_ringCount p - 1" "np_conn p1 = np_conn p" using pop by (auto simp: ring_pop_def)
  show ?case
  proof (cases "np_ringCount p \<noteq> 0 \<and> np_conn p \<and> ans k = (True, True)")
    case True
    obtain p2 es2 where rest: "flush ans (Suc k) p1 = (p2, es2)" by fastforce
    have "p' = p2" "es = NpSent ev # es2"
      using "1.prems" True pop rest by (subst (asm) flush.simps, simp)+
    moreover have "length es2 + np_ringCount p2 = np_ringCount p1
        \<and> (np_ringCount p2 = 0 \<or> \<not> np_conn p1 \<or> \<not> fst (ans (Suc k + length es2)) \<or> (\<exists>ev. es2 \<noteq> [] \<and> last es2 = NpLost ev))"
      using "1.IH" [OF _ _ pop [symmetric] refl _ rest] True by simp
    ultimately show ?thesis using True p1 by auto
  next
    case False
    then show ?thesis
      using "1.prems" pop p1 by (subst (asm) flush.simps) (cases "ans k", auto split: if_splits)
  qed
qed



text \<open>
  C37. What a failed send loses: when the connection refuses the first event of a flush, this event
  is out of the ring, was not sent, and the drop counter does not count it.
\<close>

theorem flush_loses_event:
  assumes "ring_ok p" and "np_conn p" and "ring_items p = ev # evs" and "ans k = (True, False)"
  shows "snd (flush ans k p) = [NpLost ev] \<and> ring_items (fst (flush ans k p)) = evs
     \<and> DropCount (fst (flush ans k p)) = DropCount p"
proof -
  have n: "np_ringCount p \<noteq> 0" using assms(3) ring_items_Nil [of p] by auto
  obtain e p1 where pop: "ring_pop p = (e, p1)" by fastforce
  have "flush ans k p = (p1, [NpLost e])" using n assms(2,4) by (subst flush.simps) (simp add: pop)
  moreover have "e = ev" "ring_items p1 = evs" "np_drops p1 = np_drops p"
    using ring_pop_items [OF assms(1) n] assms(3) pop by (auto simp: ring_pop_def)
  ultimately show ?thesis by (simp add: DropCount_def)
qed

theorem flush_loses_event_witness:
  "let p = fst (ring_put demo_pending (NewNATSPublisher True ''u'' ''w''))
   in snd (flush (\<lambda>_. (True, False)) 0 p) = [NpLost demo_pending]
      \<and> ring_items (fst (flush (\<lambda>_. (True, False)) 0 p)) = [] \<and> DropCount (fst (flush (\<lambda>_. (True, False)) 0 p)) = 0"
proof -
  let ?p = "fst (ring_put demo_pending (NewNATSPublisher True ''u'' ''w''))"
  have "ring_ok ?p" by (rule ring_put_ok [OF ring_New(1)])
  moreover have "ring_items ?p = [demo_pending]"
    using ring_put_items [OF ring_New(1), of demo_pending] by simp
  moreover have "np_conn ?p" "DropCount ?p = 0" by (simp_all add: ring_put_def DropCount_def)
  ultimately show ?thesis
    using flush_loses_event [of ?p demo_pending "[]" "\<lambda>_. (True, False)" 0] by (simp add: Let_def)
qed


end
