(* ===== verification/JsonDecode.thy ===== *)
theory JsonDecode
  imports GoStrings
begin

text \<open>
  \<open>encoding/json\<close> decoding into a struct: members are taken in the order of the document, a key is
  matched with the field names up to case folding, a \<open>null\<close> leaves a field as it is (and makes a
  slice nil), an unknown key is skipped or, for a strict decoder, an error, and a value of the
  wrong type is an error. \<open>None\<close> is the error; the partly filled struct is then not used anywhere.
\<close>

text \<open>
  Case folding of a key, as far as it can meet an ASCII field name: the letters, the Kelvin sign
  (U+212A, a K) and the long s (U+017F, an S).
\<close>

definition upper_ascii :: "char \<Rightarrow> char" where
  "upper_ascii c = (if 97 \<le> byte c \<and> byte c \<le> 122 then char_of (byte c - 32) else c)"

function fold_name :: "string \<Rightarrow> string" where
  "fold_name [] = []"
| "fold_name (c # cs) =
     (if take 2 (c # cs) = [CHR 0xC5, CHR 0xBF] then CHR ''S'' # fold_name (drop 1 cs)
      else if take 3 (c # cs) = [CHR 0xE2, CHR 0x84, CHR 0xAA] then CHR ''K'' # fold_name (drop 2 cs)
      else upper_ascii c # fold_name cs)"
  by pat_completeness auto
termination by (relation "measure length") auto

type_synonym 'a field = "string \<times> (json \<Rightarrow> 'a \<Rightarrow> 'a option)"

definition find_field :: "'a field list \<Rightarrow> string \<Rightarrow> (json \<Rightarrow> 'a \<Rightarrow> 'a option) option" where
  "find_field fs k = map_option snd (find (\<lambda>(n, _). fold_name n = fold_name k) fs)"

fun dec_members :: "bool \<Rightarrow> 'a field list \<Rightarrow> (string \<times> json) list \<Rightarrow> 'a \<Rightarrow> 'a option" where
  "dec_members strict fs [] st = Some st"
| "dec_members strict fs ((k, v) # m) st =
     (case find_field fs k of
        None \<Rightarrow> if strict then None else dec_members strict fs m st
      | Some f \<Rightarrow> Option.bind (f v st) (dec_members strict fs m))"

definition dec_struct :: "bool \<Rightarrow> 'a field list \<Rightarrow> json \<Rightarrow> 'a \<Rightarrow> 'a option" where
  "dec_struct strict fs v st =
     (case v of JNull \<Rightarrow> Some st | JObj m \<Rightarrow> dec_members strict fs m st | _ \<Rightarrow> None)"

definition dec_string :: "json \<Rightarrow> string \<Rightarrow> string option" where
  "dec_string v old = (case v of JNull \<Rightarrow> Some old | JStr s \<Rightarrow> Some s | _ \<Rightarrow> None)"

definition dec_int :: "json \<Rightarrow> int \<Rightarrow> int option" where
  "dec_int v old =
     (case v of JNull \<Rightarrow> Some old
      | JNum i \<Rightarrow> if - (2 ^ 63) \<le> i \<and> i < 2 ^ 63 then Some i else None
      | _ \<Rightarrow> None)"

definition dec_bool :: "json \<Rightarrow> bool \<Rightarrow> bool option" where
  "dec_bool v old = (case v of JNull \<Rightarrow> Some old | JBool b \<Rightarrow> Some b | _ \<Rightarrow> None)"

text \<open>
  A slice: \<open>null\<close> makes it nil; the elements of an array are decoded over the elements the slice
  has, and over zero values beyond.
\<close>

fun dec_elems :: "(json \<Rightarrow> 'a \<Rightarrow> 'a option) \<Rightarrow> 'a \<Rightarrow> json list \<Rightarrow> 'a list \<Rightarrow> 'a list option" where
  "dec_elems f zero [] old = Some []"
| "dec_elems f zero (v # vs) old =
     (case f v (case old of [] \<Rightarrow> zero | o1 # _ \<Rightarrow> o1) of
        None \<Rightarrow> None
      | Some x \<Rightarrow> map_option ((#) x) (dec_elems f zero vs (tl old)))"

definition dec_slice :: "(json \<Rightarrow> 'a \<Rightarrow> 'a option) \<Rightarrow> 'a \<Rightarrow> json \<Rightarrow> 'a slice \<Rightarrow> 'a slice option" where
  "dec_slice f zero v old =
     (case v of JNull \<Rightarrow> Some None
      | JArr xs \<Rightarrow> map_option Some (dec_elems f zero xs (elems old))
      | _ \<Rightarrow> None)"

abbreviation dec_strings :: "json \<Rightarrow> string slice \<Rightarrow> string slice option" where
  "dec_strings \<equiv> dec_slice dec_string []"

text \<open>A field of a record type: its reader, its writer and the decoder of its type.\<close>

definition fld :: "string \<Rightarrow> (json \<Rightarrow> 'b \<Rightarrow> 'b option) \<Rightarrow> ('a \<Rightarrow> 'b) \<Rightarrow> (('b \<Rightarrow> 'b) \<Rightarrow> 'a \<Rightarrow> 'a) \<Rightarrow> 'a field" where
  "fld name dec get upd = (name, \<lambda>v st. map_option (\<lambda>x. upd (\<lambda>_. x) st) (dec v (get st)))"

subsection \<open>Facts\<close>

text \<open>Encoding a value and decoding it gives the members as they were written.\<close>

lemma json_Decode_Marshal: "json_nums_ok v \<Longrightarrow> json_Decode (json_Marshal v) = Some (json_raw v)"
proof -
  assume "json_nums_ok v"
  then have "parse_value (Suc (length (json_Marshal v))) (json_Marshal v @ []) = Some (json_raw v, [])"
    using parses_all unfolding parses_def by (metis ends_value_seps(4) lessI less_imp_le)
  then show ?thesis by (simp only: json_Decode_def append_Nil2 option.map fst_conv)
qed

lemma json_raw_wf: "json_wf v \<Longrightarrow> json_raw v = v"
proof (induction v)
  case (JArr xs)
  then show ?case by (auto simp: list_all_iff intro: map_idI)
next
  case (JObj m)
  have "map (\<lambda>(k, v). (to_valid_utf8 k, json_raw v)) m = m"
    using JObj by (intro map_idI) (fastforce simp: list_all_iff)
  then show ?case by simp
qed simp_all

lemma dec_elems_length: "dec_elems f z vs old = Some xs \<Longrightarrow> length xs = length vs"
  by (induction vs arbitrary: old xs) (auto split: option.splits)

lemma dec_strings_JStr: "dec_elems dec_string [] (map JStr xs) old = Some xs"
  by (induction xs arbitrary: old) (simp_all add: dec_string_def)

text \<open>A key spelled as the field name selects it, when no earlier field has the same folding.\<close>

lemma find_field_hit:
  "find_field ((n, f) # fs) k = (if fold_name n = fold_name k then Some f else find_field fs k)"
  by (simp add: find_field_def)

lemma find_field_Nil: "find_field [] k = None"
  by (simp add: find_field_def)

lemmas find_field_simps = find_field_hit find_field_Nil

end
