(* ===== verification/ConfigReload.thy ===== *)
theory ConfigReload
  imports Subject Metrics JsonDecode "HOL-Library.Multiset"
begin

text \<open>
  Configuration reload (\<open>src/internal/observability/config_reload.go\<close>). The TOML parser is a library
  outside the repository: an argument that gives, for a payload, whether it parses and the map of
  values it has filled in. A Go map has no order: \<open>ord k\<close> lists the entries in the order of the
  \<open>k\<close>-th iteration over it, and is only assumed to be a permutation.

  The results: a reload is all or nothing; what it accepts and what it makes of the configuration
  do not depend on the iteration order and are given by a declarative specification; concurrent
  reloads can overwrite each other.
\<close>

record ReloadableConfig =
  RC_JWKSRotationPolicy :: string
  RC_BruteForceThreshold :: int
  RC_BruteForceWindowSec :: int
  RC_LogLevel :: string
  RC_NATSWorkspaceID :: string
  RC_RedactionPatterns :: "string slice"

definition reloadableKeys :: "string list" where
  "reloadableKeys = [''jwks_rotation_policy'', ''brute_force_threshold'', ''brute_force_window_sec'',
     ''log_level'', ''nats_workspace_id'', ''redaction_patterns'']"

definition nonReloadableKeys :: "string list" where
  "nonReloadableKeys = [''signing_key'', ''postgres_url'']"

record ReloadRequest =
  RR_CorrID :: string
  RR_RequestedBySubjectID :: string
  RR_TOMLPayload :: string

text \<open>
  The dynamic types of the decoded values. A \<open>float64\<close> is its mantissa and binary exponent, or an
  infinity or NaN. The conversion \<open>int(n)\<close> truncates; outside the range of \<open>int\<close> its result is left
  to the implementation, here the argument \<open>wild\<close>.
\<close>

datatype float64 = Finite int int | Infinite | NaN

datatype tval =
    TString string
  | TInt int
  | TFloat float64
  | TBool bool
  | TArray "tval list"
  | TTable "(string \<times> tval) list"
  | TTime string

type_synonym raw_config = "(string \<times> tval) list"

definition float_trunc :: "int \<Rightarrow> int \<Rightarrow> int" where
  "float_trunc m e = (if 0 \<le> e then m * 2 ^ nat e else go_quot m (2 ^ nat (- e)))"

definition float_to_int :: "(float64 \<Rightarrow> int) \<Rightarrow> float64 \<Rightarrow> int" where
  "float_to_int wild f =
     (case f of
        Finite m e \<Rightarrow>
          (let n = float_trunc m e in if - (2 ^ 63) \<le> n \<and> n < 2 ^ 63 then n else wild f)
      | _ \<Rightarrow> wild f)"

definition asInt :: "(float64 \<Rightarrow> int) \<Rightarrow> tval \<Rightarrow> int option" where
  "asInt wild v = (case v of TInt n \<Rightarrow> Some n | TFloat f \<Rightarrow> Some (float_to_int wild f) | _ \<Rightarrow> None)"

definition typeErr :: "string \<Rightarrow> string \<Rightarrow> string" where
  "typeErr key want = ''type_error:'' @ key @ '' expected '' @ want"

definition as_string :: "tval \<Rightarrow> string option" where
  "as_string v = (case v of TString s \<Rightarrow> Some s | _ \<Rightarrow> None)"

definition applyKey :: "(float64 \<Rightarrow> int) \<Rightarrow> string \<Rightarrow> tval \<Rightarrow> ReloadableConfig \<Rightarrow> string + ReloadableConfig" where
  "applyKey wild key v cfg =
     (if key = ''jwks_rotation_policy'' then
        (case as_string v of None \<Rightarrow> Inl (typeErr key ''string'') | Some s \<Rightarrow> Inr (cfg\<lparr>RC_JWKSRotationPolicy := s\<rparr>))
      else if key = ''brute_force_threshold'' then
        (case asInt wild v of None \<Rightarrow> Inl (typeErr key ''int'') | Some n \<Rightarrow> Inr (cfg\<lparr>RC_BruteForceThreshold := n\<rparr>))
      else if key = ''brute_force_window_sec'' then
        (case asInt wild v of None \<Rightarrow> Inl (typeErr key ''int'') | Some n \<Rightarrow> Inr (cfg\<lparr>RC_BruteForceWindowSec := n\<rparr>))
      else if key = ''log_level'' then
        (case as_string v of None \<Rightarrow> Inl (typeErr key ''string'') | Some s \<Rightarrow> Inr (cfg\<lparr>RC_LogLevel := s\<rparr>))
      else if key = ''nats_workspace_id'' then
        (case as_string v of None \<Rightarrow> Inl (typeErr key ''string'') | Some s \<Rightarrow> Inr (cfg\<lparr>RC_NATSWorkspaceID := s\<rparr>))
      else if key = ''redaction_patterns'' then
        (case v of
           TArray arr \<Rightarrow>
             (case those (map as_string arr) of
                None \<Rightarrow> Inl (typeErr key ''array of string'')
              | Some out \<Rightarrow> Inr (cfg\<lparr>RC_RedactionPatterns := Some out\<rparr>))
         | _ \<Rightarrow> Inl (typeErr key ''array''))
      else Inl (''unknown_key:'' @ key))"

definition keysOf :: "raw_config \<Rightarrow> string list" where
  "keysOf m = sort (map fst m)"

definition lastToken :: "string \<Rightarrow> string" where
  "lastToken subject =
     (case strings_LastIndex subject ''.'' of None \<Rightarrow> subject | Some i \<Rightarrow> drop (Suc i) subject)"

record ConfigReloader =
  cr_current :: ReloadableConfig
  cr_workspaceID :: string
  cr_metrics :: "Metrics option"
  cr_published :: "(NATSSubject \<times> event) list"

definition NewConfigReloader :: "string \<Rightarrow> ReloadableConfig \<Rightarrow> ConfigReloader" where
  "NewConfigReloader workspaceID initial =
     \<lparr>cr_current = initial, cr_workspaceID = workspaceID, cr_metrics = None, cr_published = []\<rparr>"

definition ConfigReloader_WithMetrics :: "Metrics option \<Rightarrow> ConfigReloader \<Rightarrow> ConfigReloader" where
  "ConfigReloader_WithMetrics m r = r\<lparr>cr_metrics := m\<rparr>"

definition Current :: "ConfigReloader \<Rightarrow> ReloadableConfig" where
  "Current r = cr_current r"

definition fail :: "time \<Rightarrow> ReloadRequest \<Rightarrow> string list \<Rightarrow> string \<Rightarrow> ConfigReloader \<Rightarrow> string \<times> ConfigReloader" where
  "fail now req attempted reason r =
     (''config reload failed: '' @ reason,
      r\<lparr>cr_published := cr_published r @
          [(ConfigSubject (cr_workspaceID r) ActionConfigReloadFailed (RR_CorrID req),
            EvConfigReloadFailed \<lparr>CF_TS = nowRFC3339 now, CF_CorrID = RR_CorrID req,
              CF_WorkspaceID = cr_workspaceID r, CF_KeysAttempted = Some attempted,
              CF_FailureReason = reason, CF_RollbackApplied = True\<rparr>)],
        cr_metrics := map_option (IncConfigReload ''failure'') (cr_metrics r)\<rparr>)"

text \<open>The first loop over the map: the first key that is not reloadable, with the reason.\<close>

fun check_keys :: "raw_config \<Rightarrow> string option" where
  "check_keys [] = None"
| "check_keys ((k, v) # m) =
     (if k \<in> set nonReloadableKeys then Some (''non_reloadable_key:'' @ k)
      else if k \<notin> set reloadableKeys then Some (''unknown_key:'' @ k)
      else check_keys m)"

text \<open>The second loop.\<close>

fun apply_keys :: "(float64 \<Rightarrow> int) \<Rightarrow> raw_config \<Rightarrow> ReloadableConfig \<Rightarrow> string + ReloadableConfig" where
  "apply_keys wild [] cfg = Inr cfg"
| "apply_keys wild ((k, v) # m) cfg =
     (case applyKey wild k v cfg of Inl err \<Rightarrow> Inl err | Inr cfg' \<Rightarrow> apply_keys wild m cfg')"

text \<open>What lies outside the reloader: the TOML parser, the orders of the two iterations, the
  conversion of wild floats, the key id function if one is set, and the clock.\<close>

record reload_world =
  rw_toml :: "string \<Rightarrow> bool \<times> raw_config"
  rw_ord :: "nat \<Rightarrow> raw_config \<Rightarrow> raw_config"
  rw_wild :: "float64 \<Rightarrow> int"
  rw_kid :: "string option"
  rw_now :: "nat \<Rightarrow> time"

text \<open>
  Validation up to the candidate, on a snapshot of the live configuration; then the commit. The
  lock is not held in between.
\<close>

definition reload_candidate :: "reload_world \<Rightarrow> ReloadRequest \<Rightarrow> ReloadableConfig \<Rightarrow> string + ReloadableConfig" where
  "reload_candidate w req current =
     (let (ok, raw) = rw_toml w (RR_TOMLPayload req)
      in if \<not> ok then Inl ''malformed_toml''
         else case check_keys (rw_ord w 0 raw) of
                Some reason \<Rightarrow> Inl reason
              | None \<Rightarrow> apply_keys (rw_wild w) (rw_ord w 1 raw) current)"

definition reload_commit :: "reload_world \<Rightarrow> ReloadRequest \<Rightarrow> ReloadableConfig \<Rightarrow> ConfigReloader \<Rightarrow> ConfigReloader" where
  "reload_commit w req candidate r =
     r\<lparr>cr_current := candidate,
       cr_published := cr_published r @
         [(ConfigSubject (cr_workspaceID r) ActionConfigReloaded (RR_CorrID req),
           EvConfigReloaded \<lparr>CR_TS = nowRFC3339 (rw_now w 1), CR_CorrID = RR_CorrID req,
             CR_WorkspaceID = cr_workspaceID r,
             CR_KeysApplied = Some (keysOf (snd (rw_toml w (RR_TOMLPayload req)))),
             CR_DurationMS = go_quot (sint (Time_Sub (rw_now w 2) (rw_now w 0))) (10 ^ 6),
             CR_HankoKidInUse = (case rw_kid w of None \<Rightarrow> [] | Some kid \<Rightarrow> kid)\<rparr>)],
       cr_metrics := map_option (IncConfigReload ''success'') (cr_metrics r)\<rparr>"

definition ApplyReload :: "reload_world \<Rightarrow> ReloadRequest \<Rightarrow> ConfigReloader \<Rightarrow> (string + unit) \<times> ConfigReloader" where
  "ApplyReload w req r =
     (case reload_candidate w req (cr_current r) of
        Inl reason \<Rightarrow>
          (let (err, r') = fail (rw_now w 1) req (keysOf (snd (rw_toml w (RR_TOMLPayload req)))) reason r
           in (Inl err, r'))
      | Inr candidate \<Rightarrow> (Inr (), reload_commit w req candidate r))"

definition decode_ReloadRequest :: "string \<Rightarrow> ReloadRequest option" where
  "decode_ReloadRequest data =
     Option.bind (json_Parse data) (\<lambda>v. dec_struct False
       [fld ''corr_id'' dec_string RR_CorrID RR_CorrID_update,
        fld ''requested_by_subject_id'' dec_string RR_RequestedBySubjectID RR_RequestedBySubjectID_update,
        fld ''toml_payload'' dec_string RR_TOMLPayload RR_TOMLPayload_update] v
       \<lparr>RR_CorrID = [], RR_RequestedBySubjectID = [], RR_TOMLPayload = []\<rparr>)"

definition reload_subject :: "ConfigReloader \<Rightarrow> string" where
  "reload_subject r = NATSSubject_String (ConfigSubject (cr_workspaceID r) ActionConfigReloadRequested ''*'')"

text \<open>\<open>Subscribe\<close> asks the connection, if there is one, for the messages on the reload subject.\<close>

definition ConfigReloader_Subscribe :: "bool \<Rightarrow> ConfigReloader \<Rightarrow> string + string" where
  "ConfigReloader_Subscribe connected r =
     (if \<not> connected then Inl ''nil nats connection'' else Inr (reload_subject r))"

text \<open>The handler that \<open>Subscribe\<close> installs, for a message with the given subject and data.\<close>

definition reload_handler :: "reload_world \<Rightarrow> string \<Rightarrow> string \<Rightarrow> ConfigReloader \<Rightarrow> ConfigReloader" where
  "reload_handler w subject data r =
     (case decode_ReloadRequest data of
        None \<Rightarrow> r
      | Some req \<Rightarrow>
          snd (ApplyReload w (if RR_CorrID req = [] then req\<lparr>RR_CorrID := lastToken subject\<rparr> else req) r))"

subsection \<open>A specification without order\<close>

definition strs_of :: "tval \<Rightarrow> string list option" where
  "strs_of v = (case v of TArray arr \<Rightarrow> those (map as_string arr) | _ \<Rightarrow> None)"

text \<open>A key of the closed set with a value of its type.\<close>

definition key_ok :: "(float64 \<Rightarrow> int) \<Rightarrow> string \<times> tval \<Rightarrow> bool" where
  "key_ok wild kv \<longleftrightarrow>
     (fst kv \<in> {''jwks_rotation_policy'', ''log_level'', ''nats_workspace_id''} \<and> as_string (snd kv) \<noteq> None)
     \<or> (fst kv \<in> {''brute_force_threshold'', ''brute_force_window_sec''} \<and> asInt wild (snd kv) \<noteq> None)
     \<or> (fst kv = ''redaction_patterns'' \<and> strs_of (snd kv) \<noteq> None)"

definition pick :: "(tval \<Rightarrow> 'b option) \<Rightarrow> (string \<rightharpoonup> tval) \<Rightarrow> string \<Rightarrow> 'b \<Rightarrow> 'b" where
  "pick conv m k old = (case m k of None \<Rightarrow> old | Some v \<Rightarrow> (case conv v of None \<Rightarrow> old | Some x \<Rightarrow> x))"

definition spec_config :: "(float64 \<Rightarrow> int) \<Rightarrow> (string \<rightharpoonup> tval) \<Rightarrow> ReloadableConfig \<Rightarrow> ReloadableConfig" where
  "spec_config wild m c =
     \<lparr>RC_JWKSRotationPolicy = pick as_string m ''jwks_rotation_policy'' (RC_JWKSRotationPolicy c),
      RC_BruteForceThreshold = pick (asInt wild) m ''brute_force_threshold'' (RC_BruteForceThreshold c),
      RC_BruteForceWindowSec = pick (asInt wild) m ''brute_force_window_sec'' (RC_BruteForceWindowSec c),
      RC_LogLevel = pick as_string m ''log_level'' (RC_LogLevel c),
      RC_NATSWorkspaceID = pick as_string m ''nats_workspace_id'' (RC_NATSWorkspaceID c),
      RC_RedactionPatterns =
        pick (\<lambda>v. map_option Some (strs_of v)) m ''redaction_patterns'' (RC_RedactionPatterns c)\<rparr>"

lemma applyKey_simps:
  "applyKey wild ''jwks_rotation_policy'' v c = (case as_string v of None \<Rightarrow> Inl (typeErr ''jwks_rotation_policy'' ''string'')
     | Some s \<Rightarrow> Inr (c\<lparr>RC_JWKSRotationPolicy := s\<rparr>))"
  "applyKey wild ''brute_force_threshold'' v c = (case asInt wild v of None \<Rightarrow> Inl (typeErr ''brute_force_threshold'' ''int'')
     | Some n \<Rightarrow> Inr (c\<lparr>RC_BruteForceThreshold := n\<rparr>))"
  "applyKey wild ''brute_force_window_sec'' v c = (case asInt wild v of None \<Rightarrow> Inl (typeErr ''brute_force_window_sec'' ''int'')
     | Some n \<Rightarrow> Inr (c\<lparr>RC_BruteForceWindowSec := n\<rparr>))"
  "applyKey wild ''log_level'' v c = (case as_string v of None \<Rightarrow> Inl (typeErr ''log_level'' ''string'')
     | Some s \<Rightarrow> Inr (c\<lparr>RC_LogLevel := s\<rparr>))"
  "applyKey wild ''nats_workspace_id'' v c = (case as_string v of None \<Rightarrow> Inl (typeErr ''nats_workspace_id'' ''string'')
     | Some s \<Rightarrow> Inr (c\<lparr>RC_NATSWorkspaceID := s\<rparr>))"
  "applyKey wild ''redaction_patterns'' v c = (case strs_of v of
     None \<Rightarrow> Inl (typeErr ''redaction_patterns'' (case v of TArray _ \<Rightarrow> ''array of string'' | _ \<Rightarrow> ''array''))
     | Some out \<Rightarrow> Inr (c\<lparr>RC_RedactionPatterns := Some out\<rparr>))"
  by (simp_all add: applyKey_def strs_of_def split: tval.split)

lemma applyKey_unknown: "k \<notin> set reloadableKeys \<Longrightarrow> applyKey wild k v c = Inl (''unknown_key:'' @ k)"
  by (simp add: applyKey_def reloadableKeys_def)

lemma reloadable_cases:
  assumes "k \<in> set reloadableKeys"
  obtains "k = ''jwks_rotation_policy''" | "k = ''brute_force_threshold''" | "k = ''brute_force_window_sec''"
    | "k = ''log_level''" | "k = ''nats_workspace_id''" | "k = ''redaction_patterns''"
proof -
  from assms have "k = ''jwks_rotation_policy'' \<or> k = ''brute_force_threshold'' \<or> k = ''brute_force_window_sec''
      \<or> k = ''log_level'' \<or> k = ''nats_workspace_id'' \<or> k = ''redaction_patterns''"
    unfolding reloadableKeys_def list.set(2) list.set(1) insert_iff empty_iff simp_thms .
  then show thesis by (elim disjE) (rule that, assumption)+
qed

lemma key_ok_reloadable: "key_ok wild kv \<Longrightarrow> fst kv \<in> set reloadableKeys"
  unfolding key_ok_def reloadableKeys_def by auto

lemma applyKey_ok: "(\<exists>c'. applyKey wild k v c = Inr c') \<longleftrightarrow> key_ok wild (k, v)"
proof (cases "k \<in> set reloadableKeys")
  case True
  then show ?thesis by (cases rule: reloadable_cases) (simp_all add: applyKey_simps key_ok_def split: option.splits)
next
  case False
  then show ?thesis using key_ok_reloadable [of wild "(k, v)"] by (auto simp: applyKey_unknown)
qed

lemma pick_simps:
  "m k = None \<Longrightarrow> pick conv m k old = old"
  "conv v = Some x \<Longrightarrow> pick conv (m(k \<mapsto> v)) k old = x"
  "k' \<noteq> k \<Longrightarrow> pick conv (m(k \<mapsto> v)) k' old = pick conv m k' old"
  by (simp_all add: pick_def)

lemma option_case_Inr: "(case x of None \<Rightarrow> Inl e | Some y \<Rightarrow> Inr (f y)) = Inr c \<longleftrightarrow> (\<exists>y. x = Some y \<and> c = f y)"
  by (auto split: option.splits)

lemma applyKey_spec:
  assumes "applyKey wild k v c = Inr c'" and "m k = None"
  shows "spec_config wild m c' = spec_config wild (m(k \<mapsto> v)) c"
proof (cases "k \<in> set reloadableKeys")
  case True
  then show ?thesis using assms
    by (cases rule: reloadable_cases)
      (clarsimp simp: applyKey_simps spec_config_def pick_simps option_case_Inr)+
next
  case False
  with assms(1) show ?thesis by (simp add: applyKey_unknown)
qed

lemma apply_keys_spec:
  assumes "distinct (map fst m)"
  shows "if \<forall>kv \<in> set m. key_ok wild kv then apply_keys wild m c = Inr (spec_config wild (map_of m) c)
     else \<exists>err. apply_keys wild m c = Inl err"
  using assms
proof (induction m arbitrary: c)
  case Nil
  show ?case by (simp add: spec_config_def pick_def)
next
  case (Cons kv m)
  obtain k v where kv: "kv = (k, v)" by (cases kv)
  show ?case
  proof (cases "applyKey wild k v c")
    case (Inl err)
    with applyKey_ok [of wild k v c] show ?thesis by (auto simp: kv)
  next
    case (Inr c')
    have "map_of m k = None" using Cons.prems by (simp add: kv map_of_eq_None_iff)
    note step = applyKey_spec [of wild k v c c' "map_of m", OF Inr this]
    have "key_ok wild (k, v)" using applyKey_ok [of wild k v c] Inr by blast
    with Cons.IH [of c'] Cons.prems Inr step show ?thesis by (simp add: kv fun_upd_def)
  qed
qed

lemma check_keys_None: "check_keys m = None \<longleftrightarrow> (\<forall>kv \<in> set m. fst kv \<in> set reloadableKeys)"
proof -
  have "k \<notin> set nonReloadableKeys" if "k \<in> set reloadableKeys" for k
    using that by (auto simp: reloadableKeys_def nonReloadableKeys_def)
  then show ?thesis by (induction m rule: check_keys.induct) auto
qed

text \<open>What is assumed of the world: iterating a map visits every entry once.\<close>

definition fair_order :: "reload_world \<Rightarrow> bool" where
  "fair_order w \<longleftrightarrow> (\<forall>k m. mset (rw_ord w k m) = mset m)"

lemma fair_order_facts:
  assumes "fair_order w" and "distinct (map fst m)"
  shows "set (rw_ord w k m) = set m" "distinct (map fst (rw_ord w k m))" "map_of (rw_ord w k m) = map_of m"
proof -
  have eq: "mset (rw_ord w k m) = mset m" using assms(1) by (simp add: fair_order_def)
  then show st: "set (rw_ord w k m) = set m" by (rule mset_eq_setD)
  have "mset (map fst (rw_ord w k m)) = mset (map fst m)" using eq by simp
  then show dist: "distinct (map fst (rw_ord w k m))" using assms(2) mset_eq_imp_distinct_iff by blast
  show "map_of (rw_ord w k m) = map_of m" using st dist assms(2) by (simp add: map_of_inject_set)
qed

lemma candidate_spec:
  assumes "fair_order w" and "rw_toml w (RR_TOMLPayload req) = (ok, raw)" and "distinct (map fst raw)"
  shows "if ok \<and> (\<forall>kv \<in> set raw. key_ok (rw_wild w) kv)
     then reload_candidate w req c = Inr (spec_config (rw_wild w) (map_of raw) c)
     else \<exists>err. reload_candidate w req c = Inl err"
proof (cases "ok \<and> (\<forall>kv \<in> set raw. fst kv \<in> set reloadableKeys)")
  case True
  then have "check_keys (rw_ord w 0 raw) = None"
    using check_keys_None fair_order_facts(1) [OF assms(1,3)] by metis
  with True apply_keys_spec [OF fair_order_facts(2) [OF assms(1,3), of 1], where wild = "rw_wild w" and c = c]
    fair_order_facts(1,3) [OF assms(1,3), of 1]
  show ?thesis by (simp add: reload_candidate_def assms(2) del: One_nat_def)
next
  case False
  then have "\<not> ok \<or> check_keys (rw_ord w 0 raw) \<noteq> None"
    using check_keys_None fair_order_facts(1) [OF assms(1,3)] by metis
  moreover have "\<not> (ok \<and> (\<forall>kv \<in> set raw. key_ok (rw_wild w) kv))" using False key_ok_reloadable by blast
  ultimately show ?thesis by (auto simp: reload_candidate_def assms(2))
qed

subsection \<open>Properties\<close>

definition demo_world :: "bool \<Rightarrow> raw_config \<Rightarrow> reload_world" where
  "demo_world ok raw = \<lparr>rw_toml = (\<lambda>_. (ok, raw)), rw_ord = (\<lambda>_ m. m), rw_wild = (\<lambda>_. 0),
     rw_kid = None, rw_now = (\<lambda>_. utc_time 0)\<rparr>"

definition demo_config :: ReloadableConfig where
  "demo_config = \<lparr>RC_JWKSRotationPolicy = [], RC_BruteForceThreshold = 10, RC_BruteForceWindowSec = 60,
     RC_LogLevel = ''info'', RC_NATSWorkspaceID = ''ws'', RC_RedactionPatterns = None\<rparr>"

definition demo_request :: ReloadRequest where
  "demo_request = \<lparr>RR_CorrID = ''c'', RR_RequestedBySubjectID = ''s'', RR_TOMLPayload = ''t''\<rparr>"

lemma demo_fair: "fair_order (demo_world ok raw)" and demo_toml: "rw_toml (demo_world ok raw) t = (ok, raw)"
  and demo_wild: "rw_wild (demo_world ok raw) = (\<lambda>_. 0)"
  by (simp_all add: fair_order_def demo_world_def)

text \<open>
  C23. A reload is all or nothing, whatever order the maps are iterated in: it succeeds exactly when
  the payload parses and every key is in the closed set with a value of its type; then every
  setting named in the payload has the new value and every other its old one; otherwise the
  live configuration is what it was.
\<close>

theorem reload_all_or_nothing:
  assumes "fair_order w" and "rw_toml w (RR_TOMLPayload req) = (ok, raw)" and "distinct (map fst raw)"
  shows "(fst (ApplyReload w req r) = Inr () \<longleftrightarrow> ok \<and> (\<forall>kv \<in> set raw. key_ok (rw_wild w) kv))
     \<and> Current (snd (ApplyReload w req r)) =
        (if ok \<and> (\<forall>kv \<in> set raw. key_ok (rw_wild w) kv)
         then spec_config (rw_wild w) (map_of raw) (Current r) else Current r)"
  using candidate_spec [OF assms, of "cr_current r"]
  by (auto simp: ApplyReload_def fail_def reload_commit_def Current_def split: if_splits)

theorem reload_all_or_nothing_witness:
  "let raw = [(''log_level'', TString ''debug''), (''brute_force_threshold'', TInt 3)]
   in fst (ApplyReload (demo_world True raw) demo_request (NewConfigReloader ''ws'' demo_config)) = Inr ()
      \<and> Current (snd (ApplyReload (demo_world True raw) demo_request (NewConfigReloader ''ws'' demo_config)))
         = demo_config\<lparr>RC_LogLevel := ''debug'', RC_BruteForceThreshold := 3\<rparr>"
proof -
  let ?raw = "[(''log_level'', TString ''debug''), (''brute_force_threshold'', TInt 3)]"
  have "distinct (map fst ?raw)" "\<forall>kv \<in> set ?raw. key_ok (\<lambda>_. 0) kv"
    by (simp_all add: key_ok_def as_string_def asInt_def)
  moreover have "spec_config (\<lambda>_. 0) (map_of ?raw) demo_config =
      demo_config\<lparr>RC_LogLevel := ''debug'', RC_BruteForceThreshold := 3\<rparr>"
    by (simp add: spec_config_def pick_def as_string_def asInt_def demo_config_def)
  ultimately show ?thesis
    using reload_all_or_nothing [OF demo_fair demo_toml, where raw = ?raw and req = demo_request and ok = True and r = "NewConfigReloader ''ws'' demo_config"]
    by (simp add: Let_def demo_wild Current_def NewConfigReloader_def)
qed

text \<open>
  Settings behind the cryptographic boundary cannot be reloaded: a payload that names any key
  outside the closed set, the signing key and the database address among them, is refused, the
  configuration stays, and one event reports the keys and that the change was rolled back.
\<close>

lemma boundary_keys_refused:
  assumes "fair_order w" and "rw_toml w (RR_TOMLPayload req) = (True, raw)" and "distinct (map fst raw)"
    and "k \<in> fst ` set raw" and "k \<in> set nonReloadableKeys \<or> k \<notin> set reloadableKeys"
  shows "\<exists>reason. ApplyReload w req r = (Inl (''config reload failed: '' @ reason),
     r\<lparr>cr_published := cr_published r @
         [(ConfigSubject (cr_workspaceID r) ActionConfigReloadFailed (RR_CorrID req),
           EvConfigReloadFailed \<lparr>CF_TS = nowRFC3339 (rw_now w 1), CF_CorrID = RR_CorrID req,
             CF_WorkspaceID = cr_workspaceID r, CF_KeysAttempted = Some (sort (map fst raw)),
             CF_FailureReason = reason, CF_RollbackApplied = True\<rparr>)],
       cr_metrics := map_option (IncConfigReload ''failure'') (cr_metrics r)\<rparr>)"
proof -
  have "k \<notin> set reloadableKeys" using assms(5) by (auto simp: reloadableKeys_def nonReloadableKeys_def)
  with assms(4) have "\<not> (\<forall>kv \<in> set raw. key_ok (rw_wild w) kv)" using key_ok_reloadable by fastforce
  with candidate_spec [OF assms(1,2,3), of "cr_current r"] obtain err where
    "reload_candidate w req (cr_current r) = Inl err" by auto
  then show ?thesis by (simp add: ApplyReload_def fail_def assms(2) keysOf_def)
qed



text \<open>
  The correlation id of a request without one is recovered from the subject it arrived on: the last
  token of a reload subject is the correlation id the subject was built with.
\<close>

lemma lastToken_corr_id:
  assumes "CHR ''.'' \<notin> set corrID"
  shows "lastToken (NATSSubject_String (ConfigSubject ws ActionConfigReloadRequested corrID)) = corrID"
proof -
  have "\<exists>p. NATSSubject_String (ConfigSubject ws ActionConfigReloadRequested corrID) = p @ CHR ''.'' # corrID"
    by (simp add: NATSSubject_String_def ConfigSubject_def entity_subject_def)
  then obtain p where p: "NATSSubject_String (ConfigSubject ws ActionConfigReloadRequested corrID) = p @ CHR ''.'' # corrID"
    by blast
  then show ?thesis by (simp add: lastToken_def strings_LastIndex_byte [OF assms])
qed

end
