(* ===== verification/Cdc.thy ===== *)
theory Cdc
  imports Subject Metrics Sha256
begin

text \<open>
  Change data capture (\<open>src/internal/observability/cdc.go\<close>): the decoder of logical replication
  messages, the redaction and publication of row changes, and the replication loop. The messages are
  the types of the \<open>pglogrepl\<close> library as far as the code reads them; the parsers of that library are
  arguments. A Go map of columns is an association list with distinct keys, \<open>None\<close> when nil.

  The results: what is published depends on the values of a row only through their hashes and the
  names of the changed columns; the diff is exactly the set of columns that differ, sorted; only
  changes of the audit table are published, each under its subject; the lag gauge is never set.
\<close>

type_synonym columns = "(string \<times> string) list"
type_synonym CDCOp = string

definition CDCInsert :: CDCOp where "CDCInsert = ''insert''"
definition CDCUpdate :: CDCOp where "CDCUpdate = ''update''"
definition CDCDelete :: CDCOp where "CDCDelete = ''delete''"
definition CDCAuditTable :: string where "CDCAuditTable = ''hanko_audit''"
definition CDCSlotName :: string where "CDCSlotName = ''shikki_hanko_cdc_v1''"

lemmas cdc_op_defs = CDCInsert_def CDCUpdate_def CDCDelete_def

definition cdc_action :: "CDCOp \<Rightarrow> string" where
  "cdc_action op =
     (if op = CDCInsert then ActionAuditRowInserted
      else if op = CDCUpdate then ActionAuditRowUpdated
      else if op = CDCDelete then ActionAuditRowDeleted
      else ''audit_row_unknown'')"

record CDCChange =
  Ch_Op :: CDCOp
  Ch_Table :: string
  Ch_RowID :: string
  Ch_Fields :: "columns option"
  Ch_Old :: "columns option"
  Ch_CommitTime :: time

subsection \<open>Redaction and publication\<close>

definition hashField :: "string \<Rightarrow> string" where
  "hashField v = hex_EncodeToString (sha256_Sum256 v)"

definition hashFields :: "columns option \<Rightarrow> columns option" where
  "hashFields m = map_option (\<lambda>cols. fold (\<lambda>(k, v). map_put k (hashField v)) cols []) m"

definition diffColumns :: "columns option \<Rightarrow> columns option \<Rightarrow> string list" where
  "diffColumns old new =
     (let om = elems old; nm = elems new;
          changed1 = fold (\<lambda>(k, v) ch. case map_of om k of
              None \<Rightarrow> map_put k True ch | Some ov \<Rightarrow> if ov \<noteq> v then map_put k True ch else ch) nm [];
          changed2 = fold (\<lambda>(k, v) ch. if map_of nm k = None then map_put k True ch else ch) om changed1
      in sort (map fst changed2))"

record CDCPublisher =
  cp_workspaceID :: string
  cp_metrics :: "Metrics option"
  cp_published :: "(NATSSubject \<times> event) list"

definition NewCDCPublisher :: "string \<Rightarrow> Metrics option \<Rightarrow> CDCPublisher" where
  "NewCDCPublisher workspaceID metrics =
     \<lparr>cp_workspaceID = workspaceID, cp_metrics = metrics, cp_published = []\<rparr>"

definition cdc_event :: "time \<Rightarrow> string \<Rightarrow> string \<Rightarrow> CDCChange \<Rightarrow> CDCEvent" where
  "cdc_event now workspaceID corrID ch =
     (let ev = \<lparr>CE_TS = nowRFC3339 now, CE_CorrID = corrID, CE_WorkspaceID = workspaceID,
                CE_Table = Ch_Table ch, CE_RowID = Ch_RowID ch, CE_Op = Ch_Op ch,
                CE_FieldsHashed = None, CE_DiffSummary = None, CE_TombstoneReason = []\<rparr>
      in if Ch_Op ch = CDCInsert then ev\<lparr>CE_FieldsHashed := hashFields (Ch_Fields ch)\<rparr>
         else if Ch_Op ch = CDCUpdate then
           ev\<lparr>CE_FieldsHashed := hashFields (Ch_Fields ch),
              CE_DiffSummary := Some (diffColumns (Ch_Old ch) (Ch_Fields ch))\<rparr>
         else if Ch_Op ch = CDCDelete then
           ev\<lparr>CE_TombstoneReason := ''row_deleted'',
              CE_FieldsHashed := (if Ch_Old ch \<noteq> None then hashFields (Ch_Old ch) else None)\<rparr>
         else ev)"

text \<open>\<open>now 0\<close> is the time stamp of the event, \<open>now 1\<close> the reading behind \<open>time.Since\<close>.\<close>

definition PublishChange :: "(nat \<Rightarrow> time) \<Rightarrow> string \<Rightarrow> CDCChange \<Rightarrow> CDCPublisher \<Rightarrow> CDCPublisher" where
  "PublishChange now corrID ch c =
     (let c1 = c\<lparr>cp_published := cp_published c @
            [(CDCSubject (cp_workspaceID c) (cdc_action (Ch_Op ch)) corrID,
              EvCDC (cdc_event (now 0) (cp_workspaceID c) corrID ch))]\<rparr>;
          lag = Time_Sub (now 1) (Ch_CommitTime ch)
      in if Time_IsZero (Ch_CommitTime ch) then c1
         else c1\<lparr>cp_metrics := map_option
                (SetCDCLagSeconds (Ch_Table ch) (if sint lag < 0 then 0 else lag)) (cp_metrics c)\<rparr>)"

subsection \<open>Decoding\<close>

record RelationMessage =
  Rel_ID :: nat
  Rel_Name :: string
  Rel_Columns :: "string list"

type_synonym tuple_data = "(char \<times> bytes) list option"

datatype wal_message =
    Relation RelationMessage
  | Insert nat tuple_data
  | Update nat tuple_data tuple_data
  | Delete nat tuple_data
  | OtherMessage

type_synonym CDCDecoder = "nat \<rightharpoonup> RelationMessage"

definition NewCDCDecoder :: CDCDecoder where "NewCDCDecoder = Map.empty"

definition HandleRelation :: "RelationMessage \<Rightarrow> CDCDecoder \<Rightarrow> CDCDecoder" where
  "HandleRelation rel d = d(Rel_ID rel \<mapsto> rel)"

text \<open>The loop over the columns of a tuple stops at the end of the shorter list.\<close>

fun tuple_cols :: "string list \<Rightarrow> (char \<times> bytes) list \<Rightarrow> columns \<Rightarrow> columns" where
  "tuple_cols (name # names) ((ty, data) # cols) out =
     tuple_cols names cols
       (if ty = CHR ''t'' then map_put name data out
        else if ty = CHR ''n'' then map_put name [] out
        else out)"
| "tuple_cols names cols out = out"

definition tupleToMap :: "RelationMessage \<Rightarrow> tuple_data \<Rightarrow> columns" where
  "tupleToMap rel tup = (case tup of None \<Rightarrow> [] | Some cols \<Rightarrow> tuple_cols (Rel_Columns rel) cols [])"

definition rowID :: "columns \<Rightarrow> string" where
  "rowID cols = (case map_of cols ''id'' of Some v \<Rightarrow> v | None \<Rightarrow> [])"

definition HandleInsert :: "nat \<Rightarrow> tuple_data \<Rightarrow> CDCDecoder \<Rightarrow> CDCChange option" where
  "HandleInsert rid tup d =
     (case d rid of
        None \<Rightarrow> None
      | Some rel \<Rightarrow>
          (let cols = tupleToMap rel tup
           in Some \<lparr>Ch_Op = CDCInsert, Ch_Table = Rel_Name rel, Ch_RowID = rowID cols,
                    Ch_Fields = Some cols, Ch_Old = None, Ch_CommitTime = zero_time\<rparr>))"

definition HandleUpdate :: "nat \<Rightarrow> tuple_data \<Rightarrow> tuple_data \<Rightarrow> CDCDecoder \<Rightarrow> CDCChange option" where
  "HandleUpdate rid oldT newT d =
     (case d rid of
        None \<Rightarrow> None
      | Some rel \<Rightarrow>
          (let newFields = tupleToMap rel newT; oldFields = tupleToMap rel oldT;
               i = (if rowID newFields = [] then rowID oldFields else rowID newFields)
           in Some \<lparr>Ch_Op = CDCUpdate, Ch_Table = Rel_Name rel, Ch_RowID = i,
                    Ch_Fields = Some newFields, Ch_Old = Some oldFields, Ch_CommitTime = zero_time\<rparr>))"

definition HandleDelete :: "nat \<Rightarrow> tuple_data \<Rightarrow> CDCDecoder \<Rightarrow> CDCChange option" where
  "HandleDelete rid oldT d =
     (case d rid of
        None \<Rightarrow> None
      | Some rel \<Rightarrow>
          (let oldFields = tupleToMap rel oldT
           in Some \<lparr>Ch_Op = CDCDelete, Ch_Table = Rel_Name rel, Ch_RowID = rowID oldFields,
                    Ch_Fields = None, Ch_Old = Some oldFields, Ch_CommitTime = zero_time\<rparr>))"

text \<open>The outside of one \<open>dispatch\<close>: a fresh correlation id and the clock.\<close>

definition dispatch :: "(bytes \<Rightarrow> wal_message option) \<Rightarrow> string \<Rightarrow> (nat \<Rightarrow> time) \<Rightarrow> bytes \<Rightarrow>
    CDCDecoder \<times> CDCPublisher \<Rightarrow> CDCDecoder \<times> CDCPublisher" where
  "dispatch parse corrID now walData dc =
     (let (d, c) = dc;
          publish = (\<lambda>co. case co of
             None \<Rightarrow> (d, c)
           | Some ch \<Rightarrow> if Ch_Table ch \<noteq> CDCAuditTable then (d, c) else (d, PublishChange now corrID ch c))
      in case parse walData of
           None \<Rightarrow> (d, c)
         | Some (Relation rel) \<Rightarrow> (HandleRelation rel d, c)
         | Some (Insert rid tup) \<Rightarrow> publish (HandleInsert rid tup d)
         | Some (Update rid oldT newT) \<Rightarrow> publish (HandleUpdate rid oldT newT d)
         | Some (Delete rid oldT) \<Rightarrow> publish (HandleDelete rid oldT d)
         | Some OtherMessage \<Rightarrow> (d, c))"

subsection \<open>The replication loop\<close>

text \<open>
  One iteration of the loop reads: whether the context is done, the clock, the answer to a standby
  status update, and what \<open>ReceiveMessage\<close> returns. A copy-data message without bytes makes
  \<open>cd.Data[0]\<close> panic. \<open>rs_acks\<close> lists the positions sent in standby status updates.
\<close>

datatype received =
    ReceiveTimeout
  | ReceiveError string
  | NotCopyData
  | CopyData bytes

record turn =
  tn_done :: bool
  tn_now :: "nat \<Rightarrow> time"
  tn_standby :: "string option"
  tn_recv :: received
  tn_corrID :: string

record pg_parsers =
  pp_message :: "bytes \<Rightarrow> wal_message option"
  pp_keepalive :: "bytes \<Rightarrow> bool option"
  pp_xlog :: "bytes \<Rightarrow> (string + 64 word \<times> bytes)"

record repl_state =
  rs_dec :: CDCDecoder
  rs_pub :: CDCPublisher
  rs_pos :: "64 word"
  rs_standby :: time
  rs_acks :: "64 word list"

datatype repl_end = Running | Cancelled | ReplError string | ReplPanic

definition repl_receive :: "pg_parsers \<Rightarrow> turn \<Rightarrow> repl_state \<Rightarrow> repl_state \<times> repl_end" where
  "repl_receive P t s =
     (case tn_recv t of
        ReceiveTimeout \<Rightarrow> (s, Running)
      | ReceiveError e \<Rightarrow> (s, ReplError (''cdc: receive: '' @ e))
      | NotCopyData \<Rightarrow> (s, Running)
      | CopyData [] \<Rightarrow> (s, ReplPanic)
      | CopyData (b # data) \<Rightarrow>
          if b = CHR ''k'' then
            (if pp_keepalive P data = Some True then (s\<lparr>rs_standby := tn_now t 2\<rparr>, Running)
             else (s, Running))
          else if b = CHR ''w'' then
            (case pp_xlog P data of
               Inl e \<Rightarrow> (s, ReplError (''cdc: parse xlog: '' @ e))
             | Inr (start, walData) \<Rightarrow>
                 (let (d, c) = dispatch (pp_message P) (tn_corrID t) (\<lambda>k. tn_now t (k + 3)) walData (rs_dec s, rs_pub s)
                  in (s\<lparr>rs_dec := d, rs_pub := c, rs_pos := start + of_nat (length walData)\<rparr>, Running)))
          else (s, Running))"

definition repl_turn :: "pg_parsers \<Rightarrow> turn \<Rightarrow> repl_state \<Rightarrow> repl_state \<times> repl_end" where
  "repl_turn P t s =
     (if tn_done t then (s, Cancelled)
      else if Time_After (tn_now t 0) (rs_standby s) then
        (case tn_standby t of
           Some e \<Rightarrow> (s, ReplError (''cdc: standby status: '' @ e))
         | None \<Rightarrow>
             repl_receive P t (s\<lparr>rs_acks := rs_acks s @ [rs_pos s],
                                 rs_standby := Time_Add (tn_now t 1) (10 * time_Second)\<rparr>))
      else repl_receive P t s)"

text \<open>The loop over the turns the outside world offers; it runs until one of them ends it.\<close>

fun repl_loop :: "pg_parsers \<Rightarrow> turn list \<Rightarrow> repl_state \<Rightarrow> repl_state \<times> repl_end" where
  "repl_loop P [] s = (s, Running)"
| "repl_loop P (t # ts) s =
     (case repl_turn P t s of (s', Running) \<Rightarrow> repl_loop P ts s' | (s', e) \<Rightarrow> (s', e))"

text \<open>Connecting, identifying the system and starting replication, each of which may fail; that the
  slot exists already is not an error.\<close>

record repl_setup =
  su_connect :: "string option"
  su_identify :: "string + 64 word"
  su_start :: "string \<Rightarrow> string list \<Rightarrow> string option"
  su_now :: time

definition plugin_args :: "string \<Rightarrow> string list" where
  "plugin_args publication = [''proto_version '' @ [CHR 0x27] @ ''1'' @ [CHR 0x27],
     ''publication_names '' @ [CHR 0x27] @ publication @ [CHR 0x27]]"

definition StartReplication :: "pg_parsers \<Rightarrow> repl_setup \<Rightarrow> string \<Rightarrow> turn list \<Rightarrow> CDCPublisher \<Rightarrow> CDCPublisher \<times> repl_end" where
  "StartReplication P su publication ts c =
     (case su_connect su of
        Some e \<Rightarrow> (c, ReplError (''cdc: connect: '' @ e))
      | None \<Rightarrow>
          (case su_identify su of
             Inl e \<Rightarrow> (c, ReplError (''cdc: identify system: '' @ e))
           | Inr pos \<Rightarrow>
               (case su_start su CDCSlotName (plugin_args publication) of
                  Some e \<Rightarrow> (c, ReplError (''cdc: start replication: '' @ e))
                | None \<Rightarrow>
                    (let (s, e) = repl_loop P ts \<lparr>rs_dec = NewCDCDecoder, rs_pub = c, rs_pos = pos,
                           rs_standby = Time_Add (su_now su) (10 * time_Second), rs_acks = []\<rparr>
                     in (rs_pub s, e)))))"

subsection \<open>Column maps\<close>

text \<open>The columns of the decoder's maps are distinct.\<close>

lemma tuple_cols_distinct: "distinct (map fst out) \<Longrightarrow> distinct (map fst (tuple_cols names cols out))"
  by (induction names cols out rule: tuple_cols.induct) (simp_all add: distinct_map_put)

lemma tupleToMap_distinct [simp]: "distinct (map fst (tupleToMap rel tup))"
  by (simp add: tupleToMap_def tuple_cols_distinct split: option.split)

lemma map_put_values: "snd ` set (map_put k v m) \<subseteq> insert v (snd ` set m)"
proof (induction m)
  case (Cons x m)
  then show ?case by (cases x) (simp, blast)
qed simp

lemma fold_put_values:
  "v \<in> snd ` set (fold (\<lambda>(k, v). map_put k (h v)) cols acc) \<Longrightarrow> v \<in> snd ` set acc \<or> (\<exists>x. v = h x)"
proof (induction cols arbitrary: acc)
  case (Cons kv cols)
  obtain k w where kv: "kv = (k, w)" by (cases kv)
  from Cons.prems have "v \<in> snd ` set (map_put k (h w) acc) \<or> (\<exists>x. v = h x)"
    by (intro Cons.IH) (simp add: kv)
  with subsetD [OF map_put_values [of k "h w" acc], of v] show ?case by auto
qed simp

lemma hashFields_hashed:
  "list_all (\<lambda>(k, v). (\<exists>raw. v = hashField raw) \<and> length v = 64) (elems (hashFields m))"
proof -
  have "\<exists>raw. v = hashField raw" if "(k, v) \<in> set (elems (hashFields m))" for k v
    using that fold_put_values [of v hashField "elems m" "[]"] by (cases m) (force simp: hashFields_def)+
  then show ?thesis by (force simp: list_all_iff hashField_def)
qed

definition put_if :: "(string \<Rightarrow> string \<Rightarrow> bool) \<Rightarrow> columns \<Rightarrow> (string \<times> bool) list \<Rightarrow> (string \<times> bool) list" where
  "put_if P m acc = fold (\<lambda>(k, v) ch. if P k v then map_put k True ch else ch) m acc"

lemma put_if_simps [simp]:
  "put_if P [] acc = acc"
  "put_if P ((k, v) # m) acc = put_if P m (if P k v then map_put k True acc else acc)"
  by (simp_all add: put_if_def)

lemma put_if_keys: "fst ` set (put_if P m acc) = fst ` set acc \<union> {k. \<exists>v. (k, v) \<in> set m \<and> P k v}"
proof (induction m arbitrary: acc)
  case (Cons kv m)
  obtain k v where kv: "kv = (k, v)" by (cases kv)
  show ?case by (simp add: kv Cons.IH keys_map_put) blast
qed simp

lemma put_if_distinct: "distinct (map fst acc) \<Longrightarrow> distinct (map fst (put_if P m acc))"
proof (induction m arbitrary: acc)
  case (Cons kv m)
  then show ?case by (cases kv) (simp add: distinct_map_put)
qed simp

lemma diffColumns_put_if:
  "diffColumns old new = sort (map fst (put_if (\<lambda>k v. map_of (elems new) k = None) (elems old)
     (put_if (\<lambda>k v. map_of (elems old) k \<noteq> Some v) (elems new) [])))"
proof -
  have "(\<lambda>(k, v) ch. case map_of om k of None \<Rightarrow> map_put k True ch
          | Some ov \<Rightarrow> if ov \<noteq> v then map_put k True ch else ch) =
        (\<lambda>(k, v) ch. if map_of om k \<noteq> Some v then map_put k True ch else ch)" for om :: columns
    by (auto simp: fun_eq_iff split: option.split)
  then show ?thesis by (simp add: diffColumns_def put_if_def Let_def)
qed

lemma diffColumns_set:
  assumes "distinct (map fst (elems old))" and "distinct (map fst (elems new))"
  shows "set (diffColumns old new) = {k. map_of (elems old) k \<noteq> map_of (elems new) k}"
proof -
  have mem: "(k, v) \<in> set m \<longleftrightarrow> map_of m k = Some v" if "distinct (map fst m)" for k v and m :: columns
    using that by simp
  have "set (diffColumns old new) = {k. \<exists>v. map_of (elems new) k = Some v \<and> map_of (elems old) k \<noteq> Some v}
      \<union> {k. \<exists>v. map_of (elems old) k = Some v \<and> map_of (elems new) k = None}"
    unfolding diffColumns_put_if set_sort set_map put_if_keys mem [OF assms(1)] mem [OF assms(2)] by simp
  also have "\<dots> = {k. map_of (elems old) k \<noteq> map_of (elems new) k}"
  proof (intro set_eqI iffI)
    fix k assume "k \<in> {k. map_of (elems old) k \<noteq> map_of (elems new) k}"
    then show "k \<in> {k. \<exists>v. map_of (elems new) k = Some v \<and> map_of (elems old) k \<noteq> Some v}
      \<union> {k. \<exists>v. map_of (elems old) k = Some v \<and> map_of (elems new) k = None}"
      by (cases "map_of (elems new) k"; cases "map_of (elems old) k") auto
  qed auto
  finally show ?thesis .
qed

lemma diffColumns_sorted: "sorted (diffColumns old new) \<and> distinct (diffColumns old new)"
  by (simp add: diffColumns_put_if put_if_distinct)

subsection \<open>What a run publishes\<close>

text \<open>Every step either leaves the publisher alone or publishes one change of the audit table.\<close>

inductive cdc_step :: "CDCPublisher \<Rightarrow> CDCPublisher \<Rightarrow> bool" where
  cdc_publish: "Ch_Table ch = CDCAuditTable \<Longrightarrow> Ch_CommitTime ch = zero_time \<Longrightarrow>
     cdc_step c (PublishChange now corrID ch c)"

lemma dispatch_step: "cdc_step\<^sup>*\<^sup>* c (snd (dispatch parse corrID now walData (d, c)))"
  by (auto simp: dispatch_def Let_def HandleInsert_def HandleUpdate_def HandleDelete_def
      split: option.split wal_message.split intro!: r_into_rtranclp cdc_publish)

lemma repl_receive_steps: "cdc_step\<^sup>*\<^sup>* (rs_pub s) (rs_pub (fst (repl_receive P t s)))"
  using dispatch_step
  by (auto simp: repl_receive_def case_prod_beta Let_def split: received.split list.split sum.split)

lemma repl_turn_steps: "cdc_step\<^sup>*\<^sup>* (rs_pub s) (rs_pub (fst (repl_turn P t s)))"
proof -
  have "cdc_step\<^sup>*\<^sup>* (rs_pub s) (rs_pub (fst (repl_receive P t (s\<lparr>rs_acks := a, rs_standby := n\<rparr>))))" for a n
    using repl_receive_steps [of "s\<lparr>rs_acks := a, rs_standby := n\<rparr>" P t] by simp
  then show ?thesis using repl_receive_steps [of s P t] by (simp add: repl_turn_def split: option.split)
qed

lemma repl_loop_steps: "cdc_step\<^sup>*\<^sup>* (rs_pub s) (rs_pub (fst (repl_loop P ts s)))"
proof (induction P ts s rule: repl_loop.induct)
  case (2 P t ts s)
  obtain s' e where turn: "repl_turn P t s = (s', e)" by fastforce
  have "cdc_step\<^sup>*\<^sup>* (rs_pub s) (rs_pub s')" using repl_turn_steps [of s P t] turn by simp
  with 2 [OF turn [symmetric]] turn show ?case by (cases e) (auto intro: rtranclp_trans)
qed simp

lemma StartReplication_steps: "cdc_step\<^sup>*\<^sup>* c (fst (StartReplication P su publication ts c))"
proof -
  have "cdc_step\<^sup>*\<^sup>* c (rs_pub (fst (repl_loop P ts \<lparr>rs_dec = d, rs_pub = c, rs_pos = p, rs_standby = n, rs_acks = a\<rparr>)))"
    for d p n a using repl_loop_steps [of "\<lparr>rs_dec = d, rs_pub = c, rs_pos = p, rs_standby = n, rs_acks = a\<rparr>" P ts]
    by simp
  then show ?thesis by (simp add: StartReplication_def case_prod_beta split: option.split sum.split)
qed

lemma cdc_event_simps [simp]:
  "CE_Table (cdc_event now ws corrID ch) = Ch_Table ch" "CE_Op (cdc_event now ws corrID ch) = Ch_Op ch"
  "CE_CorrID (cdc_event now ws corrID ch) = corrID"
  by (simp_all add: cdc_event_def Let_def)

lemma cdc_event_hashed:
  "list_all (\<lambda>(k, v). (\<exists>raw. v = hashField raw) \<and> length v = 64) (elems (CE_FieldsHashed (cdc_event now ws corrID ch)))"
  by (simp add: cdc_event_def Let_def hashFields_hashed)

text \<open>An event of the audit table under its own subject, with nothing but hashes as values.\<close>

definition audit_event :: "string \<Rightarrow> NATSSubject \<times> event \<Rightarrow> bool" where
  "audit_event ws p \<longleftrightarrow> (\<exists>x. snd p = EvCDC x \<and> CE_Table x = CDCAuditTable
     \<and> fst p = CDCSubject ws (cdc_action (CE_Op x)) (CE_CorrID x)
     \<and> list_all (\<lambda>(k, v). (\<exists>raw. v = hashField raw) \<and> length v = 64) (elems (CE_FieldsHashed x)))"

lemma cdc_step_audit:
  "cdc_step c c' \<Longrightarrow> cp_workspaceID c' = cp_workspaceID c \<and> cp_metrics c' = cp_metrics c
     \<and> (list_all (audit_event (cp_workspaceID c)) (cp_published c) \<longrightarrow>
        list_all (audit_event (cp_workspaceID c)) (cp_published c'))"
  by (induction rule: cdc_step.induct)
    (simp add: PublishChange_def Let_def Time_IsZero_def audit_event_def cdc_event_hashed)

lemma cdc_steps_audit:
  "cdc_step\<^sup>*\<^sup>* c c' \<Longrightarrow> cp_workspaceID c' = cp_workspaceID c \<and> cp_metrics c' = cp_metrics c
     \<and> (list_all (audit_event (cp_workspaceID c)) (cp_published c) \<longrightarrow>
        list_all (audit_event (cp_workspaceID c)) (cp_published c'))"
  by (induction rule: rtranclp_induct) (auto dest: cdc_step_audit)

subsection \<open>Properties\<close>


text \<open>
  The published event depends on the values of the row only through their digests and the set of
  changed columns: two changes of the same row that agree in these publish the same event.
\<close>

lemma cdc_noninterference:
  assumes "Ch_Op ch = Ch_Op ch'" and "Ch_Table ch = Ch_Table ch'" and "Ch_RowID ch = Ch_RowID ch'"
    and "hashFields (Ch_Fields ch) = hashFields (Ch_Fields ch')" and "hashFields (Ch_Old ch) = hashFields (Ch_Old ch')"
    and "diffColumns (Ch_Old ch) (Ch_Fields ch) = diffColumns (Ch_Old ch') (Ch_Fields ch')"
  shows "cp_published (PublishChange now corrID ch c) = cp_published (PublishChange now corrID ch' c)"
proof -
  have "Ch_Old ch = None \<longleftrightarrow> Ch_Old ch' = None" using assms(5) by (auto simp: hashFields_def)
  with assms have "cdc_event (now 0) (cp_workspaceID c) corrID ch = cdc_event (now 0) (cp_workspaceID c) corrID ch'"
    by (simp add: cdc_event_def Let_def)
  with assms(1) show ?thesis by (simp add: PublishChange_def Let_def)
qed

text \<open>
  The diff summary is the sorted list, without repetition, of exactly the columns whose value
  differs between the old and the new row, a missing column being different from a present one.
\<close>

lemma diffColumns_exact:
  assumes "distinct (map fst (elems old))" and "distinct (map fst (elems new))"
  shows "sorted (diffColumns old new) \<and> distinct (diffColumns old new)
     \<and> set (diffColumns old new) = {k. map_of (elems old) k \<noteq> map_of (elems new) k}"
  using diffColumns_sorted diffColumns_set [OF assms] by blast

text \<open>
  The replication lag is never recorded: the decoder does not set the commit time of a change, so
  no run of the loop changes the metrics.
\<close>

lemma cdc_lag_never_set:
  "cp_metrics (fst (StartReplication P su publication ts c)) = cp_metrics c"
  using cdc_steps_audit [OF StartReplication_steps [of c P su publication ts]] by simp

text \<open>
  An update that arrives without the old row, as the default replica identity sends it, is reported
  with every column of the new row as changed.
\<close>

lemma update_without_old_row:
  assumes "d rid = Some rel" and "HandleUpdate rid None newT d = Some ch"
  shows "set (diffColumns (Ch_Old ch) (Ch_Fields ch)) = fst ` set (elems (Ch_Fields ch))"
proof -
  have ch: "Ch_Old ch = Some []" "Ch_Fields ch = Some (tupleToMap rel newT)"
    using assms(2) [symmetric] by (simp_all add: HandleUpdate_def Let_def assms(1) tupleToMap_def [of rel None])
  have "set (diffColumns (Some []) (Some (tupleToMap rel newT))) =
      {k. map_of (elems (Some [])) k \<noteq> map_of (elems (Some (tupleToMap rel newT))) k}"
    by (rule diffColumns_set) simp_all
  also have "\<dots> = dom (map_of (tupleToMap rel newT))" unfolding dom_def by (simp add: eq_commute)
  finally show ?thesis by (simp only: ch elems_simps dom_map_of_conv_image_fst)
qed

end
