(* ===== verification/Http.thy ===== *)
theory Http
  imports Broker JsonDecode
begin

text \<open>
  The HTTP surface of the broker (\<open>src/broker/http.go\<close>, \<open>src/broker/http_admin.go\<close>): the key document,
  the health probe and the admin endpoint. A request is what the handlers read of it; \<open>rq_header\<close> is
  \<open>r.Header.Get\<close>, and \<open>rq_body\<close> the bytes the body yields before its end. A response is its status,
  the headers set by the handler and the bytes written.
\<close>

record http_request =
  rq_method :: string
  rq_path :: string
  rq_header :: "string \<Rightarrow> string"
  rq_body :: bytes
  rq_remote :: string

record http_response =
  rp_status :: nat
  rp_headers :: "(string \<times> string) list"
  rp_body :: bytes

definition newline :: string where "newline = [CHR 0x0A]"

text \<open>\<open>http.Error\<close>, on top of the headers set before.\<close>

definition http_Error :: "(string \<times> string) list \<Rightarrow> string \<Rightarrow> nat \<Rightarrow> http_response" where
  "http_Error hs msg code =
     \<lparr>rp_status = code,
      rp_headers = map_put ''X-Content-Type-Options'' ''nosniff''
        (map_put ''Content-Type'' ''text/plain; charset=utf-8'' hs),
      rp_body = msg @ newline\<rparr>"

definition method_not_allowed :: "string \<Rightarrow> http_response" where
  "method_not_allowed allow = http_Error [(''Allow'', allow)] ''method not allowed'' 405"

subsection \<open>The key document\<close>

record jwkOKPKey =
  jwk_Kty :: string
  jwk_Crv :: string
  jwk_Alg :: string
  jwk_Kid :: string
  jwk_X :: string
  jwk_Use :: string

type_synonym jwksDoc = "jwkOKPKey list"

definition jwkOKPKey_json :: "jwkOKPKey \<Rightarrow> json" where
  "jwkOKPKey_json k = JObj (
     [(''kty'', JStr (jwk_Kty k)), (''crv'', JStr (jwk_Crv k))] @ omit_str ''alg'' (jwk_Alg k)
     @ omit_str ''kid'' (jwk_Kid k) @ [(''x'', JStr (jwk_X k))] @ omit_str ''use'' (jwk_Use k))"

definition jwksDoc_json :: "jwksDoc \<Rightarrow> json" where
  "jwksDoc_json ks = JObj [(''keys'', JArr (map jwkOKPKey_json ks))]"

definition brokerKid :: "bytes \<Rightarrow> string" where
  "brokerKid pub = b64_Raw_Encode b64_url_alphabet (sha256_Sum256 pub)"

text \<open>The part of \<open>HTTPServer\<close> besides the broker and the routes.\<close>

record HTTPServer =
  hs_jwksDocument :: bytes
  hs_jwksKid :: string
  hs_adminSecret :: bytes

definition broker_jwk :: "bytes \<Rightarrow> jwkOKPKey" where
  "broker_jwk pub =
     \<lparr>jwk_Kty = ''OKP'', jwk_Crv = ''Ed25519'', jwk_Alg = ''EdDSA'', jwk_Kid = brokerKid pub,
      jwk_X = b64_Raw_Encode b64_url_alphabet pub, jwk_Use = ''sig''\<rparr>"

definition buildJWKS :: "bytes \<Rightarrow> HTTPServer \<Rightarrow> HTTPServer" where
  "buildJWKS pub s =
     s\<lparr>hs_jwksDocument := json_Marshal (jwksDoc_json [broker_jwk pub]), hs_jwksKid := brokerKid pub\<rparr>"

definition NewHTTPServer :: "(string \<Rightarrow> string) \<Rightarrow> 's Broker option \<Rightarrow> string + HTTPServer" where
  "NewHTTPServer getenv bo =
     (case bo of
        None \<Rightarrow> Inl ''hanko: NewHTTPServer: broker must not be nil''
      | Some b \<Rightarrow>
          if length (bk_signerPub b) \<noteq> 32 then
            Inl (''hanko: NewHTTPServer: broker signer public key is '' @ int_digits (int (length (bk_signerPub b)))
                 @ '' bytes; expected 32'')
          else Inr (buildJWKS (bk_signerPub b)
                 \<lparr>hs_jwksDocument = [], hs_jwksKid = [], hs_adminSecret = getenv ''HANKO_ADMIN_SECRET''\<rparr>))"

definition JWKSDocument :: "HTTPServer \<Rightarrow> bytes" where "JWKSDocument s = hs_jwksDocument s"
definition JWKSKid :: "HTTPServer \<Rightarrow> string" where "JWKSKid s = hs_jwksKid s"

definition handleHealthz :: "http_request \<Rightarrow> http_response" where
  "handleHealthz r =
     (if rq_method r \<noteq> ''GET'' then method_not_allowed ''GET''
      else \<lparr>rp_status = 200, rp_headers = [(''Content-Type'', ''text/plain; charset=utf-8'')],
            rp_body = ''ok'' @ newline\<rparr>)"

definition handleJWKS :: "HTTPServer \<Rightarrow> http_request \<Rightarrow> http_response" where
  "handleJWKS s r =
     (if rq_method r \<noteq> ''GET'' then method_not_allowed ''GET''
      else \<lparr>rp_status = 200,
            rp_headers = [(''Content-Type'', ''application/jwk-set+json; charset=utf-8''),
              (''Cache-Control'', ''public, max-age=3600''), (''X-Hanko-Kid'', hs_jwksKid s)],
            rp_body = hs_jwksDocument s\<rparr>)"

text \<open>The timeouts of an \<open>http.Server\<close>, zero meaning none.\<close>

record http_server =
  sv_addr :: string
  sv_ReadHeaderTimeout :: duration
  sv_ReadTimeout :: duration
  sv_WriteTimeout :: duration
  sv_IdleTimeout :: duration

definition BuildHTTPServer :: "string \<Rightarrow> http_server" where
  "BuildHTTPServer addr =
     \<lparr>sv_addr = addr, sv_ReadHeaderTimeout = 5 * time_Second, sv_ReadTimeout = 10 * time_Second,
      sv_WriteTimeout = 10 * time_Second, sv_IdleTimeout = 30 * time_Second\<rparr>"

subsection \<open>The admin endpoint\<close>

record revokeRequest =
  rv_SigilID :: string
  rv_Reason :: string
  rv_RevokedBy :: string

definition decode_revokeRequest :: "bytes \<Rightarrow> revokeRequest option" where
  "decode_revokeRequest body =
     Option.bind (json_Decode body) (\<lambda>v. dec_struct False
       [fld ''sigil_id'' dec_string rv_SigilID rv_SigilID_update,
        fld ''reason'' dec_string rv_Reason rv_Reason_update,
        fld ''revoked_by'' dec_string rv_RevokedBy rv_RevokedBy_update] v
       \<lparr>rv_SigilID = [], rv_Reason = [], rv_RevokedBy = []\<rparr>)"

text \<open>\<open>subtle.ConstantTimeCompare\<close> as a function: different lengths give 0, and so does a difference
  in any byte; the differences are accumulated over all bytes.\<close>

unbundle bit_operations_syntax

definition ConstantTimeCompare :: "bytes \<Rightarrow> bytes \<Rightarrow> int" where
  "ConstantTimeCompare x y =
     (if length x \<noteq> length y then 0
      else if foldl (\<lambda>acc (a, b). acc OR (byte a XOR byte b)) 0 (zip x y) = 0 then 1 else 0)"

definition handleAdminRevoke :: "'s store_ops \<Rightarrow> reads \<Rightarrow> http_request \<Rightarrow> 's Broker \<Rightarrow> http_response \<times> 's Broker" where
  "handleAdminRevoke ops rd r b =
     (if rq_method r \<noteq> ''POST'' then (method_not_allowed ''POST'', b)
      else case decode_revokeRequest (rq_body r) of
             None \<Rightarrow> (http_Error [] ''malformed json body'' 400, b)
           | Some req \<Rightarrow>
               if rv_SigilID req = [] then (http_Error [] ''sigil_id is required'' 400, b)
               else if rv_RevokedBy req = [] then (http_Error [] ''revoked_by is required'' 400, b)
               else (case RevokeSigil ops rd (rv_SigilID req) (rv_Reason req) (rv_RevokedBy req) b of
                       (Inl err, b') \<Rightarrow> (http_Error [] ''internal server error'' 500, b')
                     | (Inr _, b') \<Rightarrow> (\<lparr>rp_status = 204, rp_headers = [], rp_body = []\<rparr>, b')))"

definition requireAdminSecret :: "HTTPServer \<Rightarrow> (http_request \<Rightarrow> 's Broker \<Rightarrow> http_response \<times> 's Broker) \<Rightarrow>
    http_request \<Rightarrow> 's Broker \<Rightarrow> http_response \<times> 's Broker" where
  "requireAdminSecret s next_handler r b =
     (let provided = rq_header r ''X-Admin-Secret''
      in if length (hs_adminSecret s) = 0 \<or> ConstantTimeCompare provided (hs_adminSecret s) \<noteq> 1
         then (http_Error [] ''unauthorized'' 401, b)
         else next_handler r b)"

subsection \<open>Facts\<close>

lemma or_eq_0: "(a::nat) OR b = 0 \<longleftrightarrow> a = 0 \<and> b = 0"
  by (simp add: or_eq_0_iff)

lemma xor_eq_0: "(a::nat) XOR b = 0 \<longleftrightarrow> a = b"
  by (auto simp: bit_eq_iff bit_xor_iff)

lemma compare_fold:
  "length x = length y \<Longrightarrow>
     foldl (\<lambda>acc (a, b). acc OR (byte a XOR byte b)) c (zip x y) = (0::nat) \<longleftrightarrow> c = 0 \<and> x = y"
  by (induction x y arbitrary: c rule: list_induct2) (auto simp: or_eq_0 xor_eq_0)

lemma ConstantTimeCompare_iff: "ConstantTimeCompare x y = 1 \<longleftrightarrow> x = y"
  by (auto simp: ConstantTimeCompare_def compare_fold)

lemma b64_url_alphabet_facts:
  "distinct b64_url_alphabet" "length b64_url_alphabet = 64"
  "list_all (\<lambda>c. byte c < 128 \<and> c \<noteq> CHR 0x0A \<and> c \<noteq> CHR 0x0D) b64_url_alphabet"
  by code_simp+

lemma b64_url_chars:
  "c \<in> set (b64_Raw_Encode b64_url_alphabet bs) \<Longrightarrow> byte c < 128 \<and> c \<noteq> CHR 0x0A \<and> c \<noteq> CHR 0x0D"
proof -
  assume "c \<in> set (b64_Raw_Encode b64_url_alphabet bs)"
  then have "c \<in> set b64_url_alphabet"
    by (auto simp: b64_Raw_Encode_def b64_url_alphabet_facts(2) dest!: b64_digits_less)
  then show ?thesis using b64_url_alphabet_facts(3) by (auto simp: list_all_iff)
qed

lemma b64_url_Decode_Encode:
  "b64_Raw_Decode b64_url_alphabet (b64_Raw_Encode b64_url_alphabet bs) = Some bs"
proof -
  let ?s = "b64_Raw_Encode b64_url_alphabet bs"
  have "filter (\<lambda>c. c \<noteq> CHR 0x0A \<and> c \<noteq> CHR 0x0D) ?s = ?s"
    using b64_url_chars by (intro filter_True) blast
  moreover have "map (b64_value b64_url_alphabet) ?s = map Some (b64_digits bs)"
    by (auto simp: b64_Raw_Encode_def b64_value_nth b64_url_alphabet_facts b64_digits_less)
  moreover have "those (map Some xs) = Some xs" for xs :: "nat list" by (induction xs) auto
  ultimately show ?thesis by (simp add: b64_Raw_Decode_def)
qed

lemma b64_url_valid_utf8 [simp]: "valid_utf8 (b64_Raw_Encode b64_url_alphabet bs)"
  using b64_url_chars by (intro ascii_valid_utf8) blast

lemma broker_jwks_wf: "json_wf (jwksDoc_json [broker_jwk pub])"
  by (simp add: jwksDoc_json_def jwkOKPKey_json_def broker_jwk_def brokerKid_def omit_str_def ascii_valid_utf8)

lemma decode_revokeRequest_json:
  assumes "valid_utf8 i" "valid_utf8 reason" "valid_utf8 who"
  shows "decode_revokeRequest (json_Marshal (JObj [(''sigil_id'', JStr i), (''reason'', JStr reason), (''revoked_by'', JStr who)]))
    = Some \<lparr>rv_SigilID = i, rv_Reason = reason, rv_RevokedBy = who\<rparr>"
proof -
  let ?v = "JObj [(''sigil_id'', JStr i), (''reason'', JStr reason), (''revoked_by'', JStr who)]"
  have "json_wf ?v" using assms by (simp add: ascii_valid_utf8)
  then have "json_Decode (json_Marshal ?v) = Some ?v" by (simp add: json_Decode_Marshal json_wf_nums json_raw_wf del: json_Marshal.simps)
  moreover have "fold_name ''sigil_id'' = ''SIGIL_ID''" "fold_name ''reason'' = ''REASON''" "fold_name ''revoked_by'' = ''REVOKED_BY''"
    by code_simp+
  ultimately show ?thesis
    by (simp add: decode_revokeRequest_def dec_struct_def fld_def find_field_simps dec_string_def
        del: fold_name.simps json_Marshal.simps)
qed

subsection \<open>Properties\<close>


text \<open>
  C30. The key document says what the broker signs with: a server is only built for a 32-byte key, a
  GET of the key endpoint is answered with a JSON document with exactly one key, whose \<open>x\<close>
  decodes to the public key and whose \<open>kid\<close> is the one in the header and in minted tokens.
\<close>

theorem jwks_roundtrip:
  assumes "NewHTTPServer getenv (Some b) = Inr s" and "rq_method r = ''GET''"
  shows "length (bk_signerPub b) = 32
     \<and> json_Unmarshal (rp_body (handleJWKS s r)) = Some (jwksDoc_json [broker_jwk (bk_signerPub b)])
     \<and> b64_Raw_Decode b64_url_alphabet (jwk_X (broker_jwk (bk_signerPub b))) = Some (bk_signerPub b)
     \<and> map_of (rp_headers (handleJWKS s r)) ''X-Hanko-Kid'' = Some (jwk_Kid (broker_jwk (bk_signerPub b)))"
proof -
  from assms(1) have pub: "length (bk_signerPub b) = 32"
    and s: "s = buildJWKS (bk_signerPub b) \<lparr>hs_jwksDocument = [], hs_jwksKid = [], hs_adminSecret = getenv ''HANKO_ADMIN_SECRET''\<rparr>"
    by (auto simp: NewHTTPServer_def split: if_splits)
  have "json_Unmarshal (json_Marshal (jwksDoc_json [broker_jwk (bk_signerPub b)])) = Some (jwksDoc_json [broker_jwk (bk_signerPub b)])"
    using broker_jwks_wf by (simp add: json_Unmarshal_Marshal json_wf_nums)
  with pub s assms(2) show ?thesis
    by (simp add: handleJWKS_def buildJWKS_def broker_jwk_def b64_url_Decode_Encode)
qed

theorem jwks_roundtrip_witness:
  "let b = New () (replicate 32 (CHR 0x00)) [];
       r = \<lparr>rq_method = ''GET'', rq_path = ''/api/v1/jwks'', rq_header = (\<lambda>_. []), rq_body = [], rq_remote = []\<rparr>
   in \<exists>s. NewHTTPServer (\<lambda>_. []) (Some b) = Inr s
        \<and> json_Unmarshal (rp_body (handleJWKS s r)) = Some (jwksDoc_json [broker_jwk (bk_signerPub b)])"
proof -
  let ?b = "New () (replicate 32 (CHR 0x00)) []"
  obtain s where s: "NewHTTPServer (\<lambda>_. []) (Some ?b) = Inr s" by (simp add: NewHTTPServer_def New_def)
  from jwks_roundtrip [OF s] s show ?thesis by (auto simp: Let_def)
qed

end
