(* ===== verification/Oidc.thy ===== *)
theory Oidc
  imports Http BruteForce MemStore
begin

text \<open>
  The OIDC bootstrap handler (\<open>src/broker/oidc.go\<close>): an identity provider's token is exchanged for a
  short-lived capability token. Outside the repository and therefore arguments: the JWT library
  (\<open>jwtlib\<close>), the HTTP client that fetches key documents, the file system, the clock and the
  random source.

  The results: what must hold whenever the handler grants a token; the bounds of its lifetime and
  the overflow of their computation; the freshness of cached keys; the lookup of policy rows.
\<close>

definition MaxOIDCTTL :: duration where "MaxOIDCTTL = 5 * time_Minute"
definition DefaultOIDCTTL :: duration where "DefaultOIDCTTL = 30 * time_Second"

subsection \<open>Policy\<close>

record OIDCPolicyRow =
  pr_Issuer :: string
  pr_Sub :: string
  pr_MappedSigil :: string
  pr_AllowedScopes :: "string slice"
  pr_MaxTTLSec :: int
  pr_Enabled :: bool

definition empty_row :: OIDCPolicyRow where
  "empty_row = \<lparr>pr_Issuer = [], pr_Sub = [], pr_MappedSigil = [], pr_AllowedScopes = None,
     pr_MaxTTLSec = 0, pr_Enabled = False\<rparr>"

type_synonym OIDCPolicy = "(string \<times> OIDCPolicyRow) list"

datatype file_result = FileMissing | FileError string | FileData bytes

definition policyKey :: "string \<Rightarrow> string \<Rightarrow> string" where
  "policyKey issuer sub = issuer @ ''|'' @ sub"

definition dec_policy_row :: "json \<Rightarrow> OIDCPolicyRow \<Rightarrow> OIDCPolicyRow option" where
  "dec_policy_row = dec_struct False
     [fld ''issuer'' dec_string pr_Issuer pr_Issuer_update,
      fld ''sub'' dec_string pr_Sub pr_Sub_update,
      fld ''mapped_sigil'' dec_string pr_MappedSigil pr_MappedSigil_update,
      fld ''allowed_scopes'' dec_strings pr_AllowedScopes pr_AllowedScopes_update,
      fld ''max_ttl_sec'' dec_int pr_MaxTTLSec pr_MaxTTLSec_update,
      fld ''enabled'' dec_bool pr_Enabled pr_Enabled_update]"

definition decode_policy :: "bytes \<Rightarrow> OIDCPolicyRow slice option" where
  "decode_policy raw = Option.bind (json_Parse raw) (\<lambda>v. dec_slice dec_policy_row empty_row v None)"

definition index_rows :: "OIDCPolicyRow list \<Rightarrow> OIDCPolicy" where
  "index_rows rows = fold (\<lambda>r. map_put (policyKey (pr_Issuer r) (pr_Sub r)) r) rows []"

definition LoadOIDCPolicy :: "(string \<Rightarrow> file_result) \<Rightarrow> string \<Rightarrow> string + OIDCPolicy" where
  "LoadOIDCPolicy readFile path =
     (if path = [] then Inr []
      else case readFile path of
             FileMissing \<Rightarrow> Inr []
           | FileError e \<Rightarrow> Inl (''oidc policy: '' @ e)
           | FileData raw \<Rightarrow>
               (case decode_policy raw of
                  None \<Rightarrow> Inl ''oidc policy: parse: invalid JSON''
                | Some rows \<Rightarrow> Inr (index_rows (elems rows))))"

definition Lookup :: "string \<Rightarrow> string \<Rightarrow> OIDCPolicy \<Rightarrow> OIDCPolicyRow \<times> bool" where
  "Lookup issuer sub p =
     (case map_of p (policyKey issuer sub) of Some r \<Rightarrow> (r, True) | None \<Rightarrow> (empty_row, False))"

definition OIDCPolicy_Len :: "OIDCPolicy \<Rightarrow> nat" where "OIDCPolicy_Len p = length p"

subsection \<open>Keys of the identity provider\<close>

record idpJWKSKey =
  ik_Kty :: string
  ik_Kid :: string
  ik_Alg :: string
  ik_Use :: string
  ik_N :: string
  ik_E :: string

type_synonym idpJWKS = "idpJWKSKey list"

record idpJWKSEntry =
  ie_doc :: idpJWKS
  ie_fetched :: time

record idpJWKSCache =
  ic_cached :: "string \<rightharpoonup> idpJWKSEntry"
  ic_ttl :: duration

definition newIDPJWKSCache :: "duration \<Rightarrow> idpJWKSCache" where
  "newIDPJWKSCache ttl = \<lparr>ic_cached = Map.empty, ic_ttl = ttl\<rparr>"

record rsa_key =
  rsa_N :: int
  rsa_E :: "64 word"

text \<open>\<open>big.Int.SetBytes\<close>, and the exponent accumulated in a 64-bit \<open>int\<close>.\<close>

definition big_SetBytes :: "bytes \<Rightarrow> int" where
  "big_SetBytes bs = foldl (\<lambda>n b. n * 256 + int (byte b)) 0 bs"

definition rsa_exponent :: "bytes \<Rightarrow> 64 word" where
  "rsa_exponent bs = foldl (\<lambda>e b. (push_bit 8 e) OR word_of_nat (byte b)) 0 bs"

definition rsaFromJWK :: "idpJWKSKey \<Rightarrow> goerror + rsa_key" where
  "rsaFromJWK k =
     (case b64_Raw_Decode b64_url_alphabet (ik_N k) of
        None \<Rightarrow> Inl (Wrap ''oidc: rsa n: '' (ErrText ''illegal base64 data''))
      | Some nBytes \<Rightarrow>
          (case b64_Raw_Decode b64_url_alphabet (ik_E k) of
             None \<Rightarrow> Inl (Wrap ''oidc: rsa e: '' (ErrText ''illegal base64 data''))
           | Some eBytes \<Rightarrow> Inr \<lparr>rsa_N = big_SetBytes nBytes, rsa_E = rsa_exponent eBytes\<rparr>))"

text \<open>A GET of the HTTP client: an error, or the status and what reading the body gives.\<close>

type_synonym http_get = "string \<Rightarrow> (string + nat \<times> (string + bytes))"

definition dec_idpJWKSKey :: "json \<Rightarrow> idpJWKSKey \<Rightarrow> idpJWKSKey option" where
  "dec_idpJWKSKey = dec_struct False
     [fld ''kty'' dec_string ik_Kty ik_Kty_update, fld ''kid'' dec_string ik_Kid ik_Kid_update,
      fld ''alg'' dec_string ik_Alg ik_Alg_update, fld ''use'' dec_string ik_Use ik_Use_update,
      fld ''n'' dec_string ik_N ik_N_update, fld ''e'' dec_string ik_E ik_E_update]"

definition empty_key :: idpJWKSKey where
  "empty_key = \<lparr>ik_Kty = [], ik_Kid = [], ik_Alg = [], ik_Use = [], ik_N = [], ik_E = []\<rparr>"

definition decode_idpJWKS :: "bytes \<Rightarrow> idpJWKS option" where
  "decode_idpJWKS body =
     map_option elems (Option.bind (json_Parse body) (\<lambda>v.
       dec_struct False [(''keys'', dec_slice dec_idpJWKSKey empty_key)] v None))"

definition fetch :: "http_get \<Rightarrow> string \<Rightarrow> goerror + idpJWKS" where
  "fetch get url =
     (case get url of
        Inl e \<Rightarrow> Inl (ErrText e)
      | Inr (status, body) \<Rightarrow>
          if status \<noteq> 200 then Inl (ErrText (''status '' @ int_digits (int status)))
          else case body of
                 Inl e \<Rightarrow> Inl (ErrText e)
               | Inr raw \<Rightarrow>
                   (case decode_idpJWKS (take (2 ^ 20) raw) of
                      None \<Rightarrow> Inl (Wrap ''parse: '' (ErrText ''invalid JSON''))
                    | Some doc \<Rightarrow> Inr doc))"

text \<open>The search in the key list: the first key with the id decides.\<close>

definition find_key :: "string \<Rightarrow> string \<Rightarrow> idpJWKS \<Rightarrow> goerror + rsa_key" where
  "find_key url kid doc =
     (case find (\<lambda>k. ik_Kid k = kid) doc of
        None \<Rightarrow> Inl (ErrText (''oidc: no key with kid='' @ kid @ '' at '' @ url))
      | Some k \<Rightarrow>
          if ik_Kty k \<noteq> ''RSA'' then Inl (ErrText (''oidc: unsupported kty='' @ strconv_Quote (ik_Kty k) @ '' for kid='' @ kid))
          else rsaFromJWK k)"

definition keyByKid :: "http_get \<Rightarrow> time \<Rightarrow> string \<Rightarrow> string \<Rightarrow> idpJWKSCache \<Rightarrow> (goerror + rsa_key) \<times> idpJWKSCache" where
  "keyByKid get now url kid c =
     (case ic_cached c url of
        Some e \<Rightarrow>
          if sint (Time_Sub now (ie_fetched e)) > sint (ic_ttl c) then
            (case fetch get url of
               Inl err \<Rightarrow> (find_key url kid (ie_doc e), c)
             | Inr fresh \<Rightarrow>
                 (find_key url kid fresh,
                  c\<lparr>ic_cached := (ic_cached c)(url \<mapsto> \<lparr>ie_doc = fresh, ie_fetched = now\<rparr>)\<rparr>))
          else (find_key url kid (ie_doc e), c)
      | None \<Rightarrow>
          (case fetch get url of
             Inl err \<Rightarrow> (Inl (Wrap (''oidc: fetch '' @ url @ '': '') err), c)
           | Inr fresh \<Rightarrow>
               (find_key url kid fresh,
                c\<lparr>ic_cached := (ic_cached c)(url \<mapsto> \<lparr>ie_doc = fresh, ie_fetched = now\<rparr>)\<rparr>)))"

subsection \<open>The handler's state\<close>

record OIDCConfig =
  cf_Policy :: "OIDCPolicy option"
  cf_IssuerJWKSURLs :: "(string \<times> string) list"
  cf_Audience :: string
  cf_AuditPath :: string
  cf_JWKSCacheTTL :: duration
  cf_WorkspaceID :: string

record 's OIDCBootstrap =
  ob_broker :: "'s Broker"
  ob_cfg :: OIDCConfig
  ob_cache :: idpJWKSCache
  ob_bruteForce :: BruteForceDetector
  ob_published :: "(NATSSubject \<times> event) list"
  ob_audit :: "string list"

definition em_dash :: string where "em_dash = [CHR 0xE2, CHR 0x80, CHR 0x94]"

definition NewOIDCBootstrap :: "(string \<Rightarrow> string) \<Rightarrow> 's Broker option \<Rightarrow> OIDCConfig \<Rightarrow> string + 's OIDCBootstrap" where
  "NewOIDCBootstrap getenv bo cfg =
     (case bo of
        None \<Rightarrow> Inl ''oidc: NewOIDCBootstrap: broker must not be nil''
      | Some b \<Rightarrow>
          (case cf_Policy cfg of
             None \<Rightarrow> Inl ''oidc: NewOIDCBootstrap: policy must not be nil''
           | Some policy \<Rightarrow>
               if cf_IssuerJWKSURLs cfg = [] then
                 Inl ''oidc: NewOIDCBootstrap: at least one issuer JWKS URL required''
               else if cf_Audience cfg = [] then
                 Inl (''oidc: NewOIDCBootstrap: HANKO_OIDC_AUDIENCE is required '' @ em_dash
                      @ '' empty audience bypasses audience verification'')
               else
                 (let ttl = (if sint (cf_JWKSCacheTTL cfg) \<le> 0 then time_Hour else cf_JWKSCacheTTL cfg)
                  in Inr \<lparr>ob_broker = b, ob_cfg = cfg\<lparr>cf_JWKSCacheTTL := ttl\<rparr>,
                          ob_cache = newIDPJWKSCache ttl,
                          ob_bruteForce = NewBruteForceDetector getenv (cf_WorkspaceID cfg),
                          ob_published = [], ob_audit = []\<rparr>)))"

subsection \<open>Requests\<close>

record BootstrapRequest =
  br_OIDCToken :: string
  br_OIDCIssuer :: string
  br_Audience :: string
  br_RequestedScope :: string
  br_RequestedScopes :: "string slice"
  br_RequestedTTL :: int

definition decode_BootstrapRequest :: "bytes \<Rightarrow> BootstrapRequest option" where
  "decode_BootstrapRequest body =
     Option.bind (json_Decode (take (2 ^ 16) body)) (\<lambda>v. dec_struct True
       [fld ''oidc_token'' dec_string br_OIDCToken br_OIDCToken_update,
        fld ''oidc_issuer'' dec_string br_OIDCIssuer br_OIDCIssuer_update,
        fld ''audience'' dec_string br_Audience br_Audience_update,
        fld ''requested_scope'' dec_string br_RequestedScope br_RequestedScope_update,
        fld ''requested_scopes'' dec_strings br_RequestedScopes br_RequestedScopes_update,
        fld ''requested_ttl_sec'' dec_int br_RequestedTTL br_RequestedTTL_update] v
       \<lparr>br_OIDCToken = [], br_OIDCIssuer = [], br_Audience = [], br_RequestedScope = [],
        br_RequestedScopes = None, br_RequestedTTL = 0\<rparr>)"

text \<open>\<open>errResponse\<close> and \<open>BootstrapResponse\<close>, as the encoder writes them with a final line break.\<close>

definition errResponse_json :: "string \<Rightarrow> string \<Rightarrow> json" where
  "errResponse_json code reason = JObj ((''error'', JStr code) # omit_str ''reason'' reason)"

record BootstrapResponse =
  bp_CapToken :: string
  bp_ExpiresAt :: time
  bp_GrantedScope :: string
  bp_GrantedSigil :: string

definition BootstrapResponse_json :: "BootstrapResponse \<Rightarrow> json option" where
  "BootstrapResponse_json p =
     map_option (\<lambda>ea. JObj [(''cap_token'', JStr (bp_CapToken p)), (''expires_at'', JStr ea),
       (''granted_scope'', JStr (bp_GrantedScope p)), (''granted_sigil'', JStr (bp_GrantedSigil p))])
       (fmt_time (bp_ExpiresAt p))"

definition writeOIDCErr :: "(string \<times> string) list \<Rightarrow> nat \<Rightarrow> string \<Rightarrow> string \<Rightarrow> http_response" where
  "writeOIDCErr hs status code reason =
     \<lparr>rp_status = status, rp_headers = hs, rp_body = json_Marshal (errResponse_json code reason) @ newline\<rparr>"

definition scopesSubset :: "string list \<Rightarrow> string list \<Rightarrow> bool" where
  "scopesSubset requested allowed =
     (let allow = fold (\<lambda>s. map_put s ()) allowed [] in list_all (\<lambda>s. map_of allow s \<noteq> None) requested)"

text \<open>
  \<open>splitHostPort\<close>: the slice \<open>hostport[end+2:]\<close> panics when nothing follows the bracket.
\<close>

datatype split_result = SplitOK string string | SplitErr string | SplitPanic

definition splitHostPort :: "string \<Rightarrow> split_result" where
  "splitHostPort hostport =
     (case strings_LastIndex hostport '':'' of
        None \<Rightarrow> SplitOK hostport []
      | Some i \<Rightarrow>
          if HasPrefix hostport ''['' then
            (case strings_Index hostport '']'' of
               None \<Rightarrow> SplitErr ''missing ] in address''
             | Some e \<Rightarrow>
                 if length hostport < e + 2 then SplitPanic
                 else SplitOK (drop 1 (take e hostport)) (drop (e + 2) hostport))
          else SplitOK (take i hostport) (drop (i + 1) hostport))"

text \<open>\<open>None\<close> is the panic.\<close>

definition clientIP :: "http_request \<Rightarrow> string option" where
  "clientIP r =
     (let xff = rq_header r ''X-Forwarded-For'';
          ip = TrimSpace (hd (strings_SplitN2 xff '',''));
          remote = (case splitHostPort (rq_remote r) of
              SplitOK host _ \<Rightarrow> Some host | SplitErr _ \<Rightarrow> Some (rq_remote r) | SplitPanic \<Rightarrow> None)
      in if xff \<noteq> [] \<and> ip \<noteq> [] then Some ip else remote)"

subsection \<open>Handling a request\<close>

text \<open>
  The JWT library: \<open>jw_keyid\<close> says whether it asks for a key for this token under the allowed
  methods, and with which \<open>kid\<close> header (empty if there is none); \<open>jw_check\<close> checks signature, issuer,
  audience and times with the key and gives the subject; \<open>jw_sign\<close> signs claims under a key id.
\<close>

record jwtlib =
  jw_keyid :: "string list \<Rightarrow> string \<Rightarrow> string option"
  jw_check :: "string list \<Rightarrow> string \<Rightarrow> string \<Rightarrow> time \<Rightarrow> string \<Rightarrow> rsa_key \<Rightarrow> goerror + string"
  jw_sign :: "string \<Rightarrow> (string \<times> json) list \<Rightarrow> bytes \<Rightarrow> goerror + string"

text \<open>What one request reads: \<open>time.Now\<close> (\<open>hr_now\<close>, one index per place that calls it) and the configured
  clock (\<open>hr_cfgNow\<close>), fresh ids, the key fetch, whether the audit file opens, and what \<open>IssueCap\<close>
  reads.\<close>

record oidc_reads =
  hr_now :: "nat \<Rightarrow> time"
  hr_cfgNow :: "nat \<Rightarrow> time"
  hr_corrID :: string
  hr_bfID :: string
  hr_get :: http_get
  hr_auditOpens :: bool
  hr_cap :: reads

definition oidc_methods :: "string list" where "oidc_methods = [''RS256'', ''RS384'', ''RS512'']"

definition verifyJWT :: "jwtlib \<Rightarrow> oidc_reads \<Rightarrow> string \<Rightarrow> string \<Rightarrow> string \<Rightarrow> string \<Rightarrow> idpJWKSCache \<Rightarrow>
    (goerror + string) \<times> idpJWKSCache" where
  "verifyJWT J rd tok jwksURL expectIssuer expectAudience cache =
     (case jw_keyid J oidc_methods tok of
        None \<Rightarrow> (Inl (ErrText ''token is malformed''), cache)
      | Some kid \<Rightarrow>
          if kid = [] then (Inl (ErrText ''missing kid''), cache)
          else (case keyByKid (hr_get rd) (hr_now rd 0) jwksURL kid cache of
                  (Inl err, cache') \<Rightarrow> (Inl err, cache')
                | (Inr key, cache') \<Rightarrow>
                    (jw_check J oidc_methods expectIssuer expectAudience (hr_cfgNow rd 0) tok key, cache')))"

definition oidc_ttl :: "int \<Rightarrow> int \<Rightarrow> duration" where
  "oidc_ttl maxTTLSec requestedTTL =
     (let ttl1 = (if 0 < maxTTLSec then word_of_int maxTTLSec * time_Second else DefaultOIDCTTL);
          asked = word_of_int requestedTTL * time_Second;
          ttl2 = (if 0 < requestedTTL \<and> sint asked < sint ttl1 then asked else ttl1)
      in if sint MaxOIDCTTL < sint ttl2 then MaxOIDCTTL else ttl2)"

definition signCapJWT :: "jwtlib \<Rightarrow> time \<Rightarrow> CapabilityToken \<Rightarrow> OIDCPolicyRow \<Rightarrow> string \<Rightarrow> time \<Rightarrow> 's Broker \<Rightarrow> goerror + string" where
  "signCapJWT J now c row scope expiresAt b =
     jw_sign J (brokerKid (bk_signerPub b))
       [(''iss'', JStr IssuerName), (''sub'', JStr (pr_MappedSigil row)), (''scope'', JStr scope),
        (''jti'', JStr (Cap_ID c)), (''iat'', JNum (Time_Unix now)), (''nbf'', JNum (Time_Unix now)),
        (''exp'', JNum (Time_Unix expiresAt))]
       (bk_signerPriv b)"

definition audit_row :: "oidc_reads \<Rightarrow> nat \<Rightarrow> BootstrapRequest \<Rightarrow> string \<Rightarrow> string \<Rightarrow> string \<Rightarrow> 's OIDCBootstrap \<Rightarrow> 's OIDCBootstrap" where
  "audit_row rd k req sub outcome grantedScope h =
     (if cf_AuditPath (ob_cfg h) = [] \<or> \<not> hr_auditOpens rd then h
      else h\<lparr>ob_audit := ob_audit h @
        [json_Marshal (JObj [(''granted_scope'', JStr grantedScope), (''issuer'', JStr (br_OIDCIssuer req)),
           (''outcome'', JStr outcome), (''sub'', JStr sub),
           (''ts'', JStr (Format_RFC3339Nano (Time_UTC (hr_cfgNow rd k))))]) @ newline]\<rparr>)"

definition oidc_endpoint :: string where "oidc_endpoint = ''/api/v1/sigils/bootstrap-oidc''"

definition since_ms :: "time \<Rightarrow> time \<Rightarrow> int" where
  "since_ms now started = go_quot (sint (Time_Sub now started)) (10 ^ 6)"

definition publish_oidc :: "string \<Rightarrow> OIDCEvent \<Rightarrow> 's OIDCBootstrap \<Rightarrow> 's OIDCBootstrap" where
  "publish_oidc action ev h =
     h\<lparr>ob_published := ob_published h @
         [(OIDCSubject (cf_WorkspaceID (ob_cfg h)) action (OE_CorrID ev), EvOIDC ev)]\<rparr>"

definition base_event :: "string \<Rightarrow> string \<Rightarrow> time \<Rightarrow> string \<Rightarrow> OIDCEvent" where
  "base_event ws corrID now outcome =
     \<lparr>OE_TS = nowRFC3339 now, OE_CorrID = corrID, OE_WorkspaceID = ws, OE_ClientID = [],
      OE_SubjectID = [], OE_Scopes = None, OE_Endpoint = oidc_endpoint, OE_DurationMS = 0,
      OE_Outcome = outcome, OE_FailureReason = []\<rparr>"

text \<open>\<open>publishFail\<close>, followed by the error response.\<close>

definition fail_with :: "oidc_reads \<Rightarrow> string \<Rightarrow> string \<Rightarrow> string \<Rightarrow> nat \<Rightarrow> string \<Rightarrow> string \<Rightarrow> 's OIDCBootstrap \<Rightarrow>
    http_response option \<times> 's OIDCBootstrap" where
  "fail_with rd corrID clientID reason status code text h =
     (Some (writeOIDCErr [(''Content-Type'', ''application/json; charset=utf-8''), (''X-Shikki-Corr-Id'', corrID)]
              status code text),
      publish_oidc ActionFailed ((base_event (cf_WorkspaceID (ob_cfg h)) corrID (hr_now rd 3) ''failure'')
        \<lparr>OE_ClientID := clientID, OE_DurationMS := since_ms (hr_now rd 4) (hr_now rd 1),
         OE_FailureReason := reason\<rparr>) h)"

text \<open>Granting: from the policy decision to the response.\<close>

definition oidc_grant :: "'s store_ops \<Rightarrow> jwtlib \<Rightarrow> oidc_reads \<Rightarrow> string \<Rightarrow> BootstrapRequest \<Rightarrow> string \<Rightarrow> OIDCPolicyRow \<Rightarrow>
    string list \<Rightarrow> 's OIDCBootstrap \<Rightarrow> http_response option \<times> 's OIDCBootstrap" where
  "oidc_grant ops J rd corrID req sub row requestedScopes h =
     (let ttl = oidc_ttl (pr_MaxTTLSec row) (br_RequestedTTL req);
          scopeJoined = strings_Join requestedScopes '' '';
          expiresAt = Time_Add (hr_cfgNow rd 1) ttl;
          success = (\<lambda>k. (base_event (cf_WorkspaceID (ob_cfg h)) corrID (hr_now rd k) ''success'')
             \<lparr>OE_ClientID := pr_MappedSigil row, OE_SubjectID := sub, OE_Scopes := Some requestedScopes,
              OE_DurationMS := since_ms (hr_now rd (k + 1)) (hr_now rd 1)\<rparr>)
      in case IssueCap ops (hr_cap rd) (pr_MappedSigil row) scopeJoined expiresAt (ob_broker h) of
           (Inl err, b') \<Rightarrow>
             fail_with rd corrID (pr_MappedSigil row) ''mint_failed'' 500 ''mint_failed'' ''internal error''
               (h\<lparr>ob_broker := b'\<rparr>)
         | (Inr capTok, b') \<Rightarrow>
             (let h1 = publish_oidc ActionTokenIssued (success 5) (h\<lparr>ob_broker := b'\<rparr>)
              in case signCapJWT J (hr_cfgNow rd 2) capTok row scopeJoined expiresAt b' of
                   Inl err \<Rightarrow>
                     fail_with rd corrID (pr_MappedSigil row) ''sign_failed'' 500 ''sign_failed'' ''internal error'' h1
                 | Inr jws \<Rightarrow>
                     (let h2 = publish_oidc ActionCodeIssued (success 7)
                            (audit_row rd 3 req sub ''granted'' scopeJoined h1)
                      in (Some \<lparr>rp_status = 200,
                             rp_headers = [(''Content-Type'', ''application/json; charset=utf-8''), (''X-Shikki-Corr-Id'', corrID)],
                             rp_body = (case BootstrapResponse_json \<lparr>bp_CapToken = jws, bp_ExpiresAt = expiresAt,
                                 bp_GrantedScope = scopeJoined, bp_GrantedSigil = pr_MappedSigil row\<rparr> of
                               None \<Rightarrow> [] | Some j \<Rightarrow> json_Marshal j @ newline)\<rparr>, h2))))"

text \<open>From the decoded request to the policy decision. A panic (of \<open>clientIP\<close>, or on a nil policy) ends
  the request without a response.\<close>

definition requested_scopes :: "BootstrapRequest \<Rightarrow> string list" where
  "requested_scopes req = elems (br_RequestedScopes req)
     @ (if br_RequestedScope req \<noteq> [] then [br_RequestedScope req] else [])"

definition oidc_decide :: "'s store_ops \<Rightarrow> jwtlib \<Rightarrow> oidc_reads \<Rightarrow> http_request \<Rightarrow> string \<Rightarrow> BootstrapRequest \<Rightarrow>
    's OIDCBootstrap \<Rightarrow> http_response option \<times> 's OIDCBootstrap" where
  "oidc_decide ops J rd r corrID req h =
     (let requestedScopes = requested_scopes req
      in if requestedScopes = [] then
           fail_with rd corrID [] ''no_scopes_requested'' 400 ''invalid_request''
             ''requested_scope or requested_scopes required'' h
         else case map_of (cf_IssuerJWKSURLs (ob_cfg h)) (br_OIDCIssuer req) of
           None \<Rightarrow> fail_with rd corrID [] ''unknown_issuer'' 401 ''unknown_issuer'' ''issuer not configured'' h
         | Some jwksURL \<Rightarrow>
             (let (claims, cache') = verifyJWT J rd (br_OIDCToken req) jwksURL (br_OIDCIssuer req) (br_Audience req) (ob_cache h);
                  h1 = h\<lparr>ob_cache := cache'\<rparr>
              in case claims of
                   Inl err \<Rightarrow>
                     (let (resp, h2) = fail_with rd corrID [] ''invalid_token'' 401 ''invalid_token'' ''token validation failed'' h1
                      in case clientIP r of
                           None \<Rightarrow> (None, h2)
                         | Some ip \<Rightarrow>
                             (resp, h2\<lparr>ob_bruteForce := RecordFailure (hr_bfID rd) (hr_now rd 5) ip (ob_bruteForce h2)\<rparr>))
                 | Inr sub \<Rightarrow>
                     (case cf_Policy (ob_cfg h1) of None \<Rightarrow> (None, h1) | Some policy \<Rightarrow>
                      let (row, ok) = Lookup (br_OIDCIssuer req) sub policy
                      in if \<not> ok \<or> \<not> pr_Enabled row then
                           fail_with rd corrID (pr_MappedSigil row) ''no_policy'' 403 ''no_policy''
                             (''no enabled policy for sub='' @ sub @ '' on issuer='' @ br_OIDCIssuer req)
                             (audit_row rd 1 req sub ''no_policy'' [] h1)
                         else if \<not> scopesSubset requestedScopes (elems (pr_AllowedScopes row)) then
                           fail_with rd corrID (pr_MappedSigil row) ''policy_denied'' 403 ''policy_denied''
                             (''requested scopes exceed policy: requested=['' @ strings_Join requestedScopes '' ''
                              @ ''] allowed=['' @ strings_Join (elems (pr_AllowedScopes row)) '' '' @ '']'')
                             (audit_row rd 1 req sub ''policy_denied'' (strings_Join requestedScopes '' '') h1)
                         else oidc_grant ops J rd corrID req sub row requestedScopes h1)))"

definition Handle :: "'s store_ops \<Rightarrow> jwtlib \<Rightarrow> oidc_reads \<Rightarrow> http_request \<Rightarrow> 's OIDCBootstrap \<Rightarrow>
    http_response option \<times> 's OIDCBootstrap" where
  "Handle ops J rd r h =
     (if rq_method r \<noteq> ''POST'' then (Some (method_not_allowed ''POST''), h)
      else
        (let corrID = (if rq_header r ''X-Shikki-Corr-Id'' = [] then hr_corrID rd else rq_header r ''X-Shikki-Corr-Id'');
             h1 = publish_oidc ActionAuthRequest (base_event (cf_WorkspaceID (ob_cfg h)) corrID (hr_now rd 2) ''pending'') h
         in case decode_BootstrapRequest (rq_body r) of
              None \<Rightarrow> fail_with rd corrID [] ''invalid_request'' 400 ''invalid_request'' ''request body could not be decoded'' h1
            | Some req \<Rightarrow>
                if br_OIDCToken req = [] \<or> br_OIDCIssuer req = [] \<or> br_Audience req = [] then
                  fail_with rd corrID [] ''missing_required_fields'' 400 ''invalid_request''
                    ''oidc_token, oidc_issuer, audience required'' h1
                else if br_Audience req \<noteq> cf_Audience (ob_cfg h) then
                  fail_with rd corrID [] ''audience_mismatch'' 401 ''audience_mismatch'' ''configured audience mismatch'' h1
                else oidc_decide ops J rd r corrID req h1))"

subsection \<open>An example\<close>

definition demo_oidc_reads :: oidc_reads where
  "demo_oidc_reads = \<lparr>hr_now = (\<lambda>_. utc_time 0), hr_cfgNow = (\<lambda>_. utc_time 0), hr_corrID = ''c'', hr_bfID = ''b'',
     hr_get = (\<lambda>_. Inl ''down''), hr_auditOpens = True,
     hr_cap = \<lparr>rd_uuid = (\<lambda>_. ''cap''), rd_now = (\<lambda>_. utc_time 0), rd_rand = Inr (replicate 32 (CHR 0x07))\<rparr>\<rparr>"

definition demo_oidc_jwt :: jwtlib where
  "demo_oidc_jwt = \<lparr>jw_keyid = (\<lambda>_ _. Some ''k''), jw_check = (\<lambda>_ _ _ _ _ _. Inr ''repo''), jw_sign = (\<lambda>_ _ _. Inr ''jws'')\<rparr>"

definition demo_oidc_sigil :: Sigil where
  "demo_oidc_sigil = \<lparr>Sigil_ID = ''ci'', Sigil_Subject = ''ci'', Sigil_PublicKey = None,
     Sigil_CreatedAt = utc_time 0, Sigil_ExpiresAt = None, Sigil_Metadata = None\<rparr>"

definition demo_oidc_body :: json where
  "demo_oidc_body = JObj [(''oidc_token'', JStr ''t''), (''oidc_issuer'', JStr ''iss''), (''audience'', JStr ''aud''),
     (''requested_scope'', JStr ''read'')]"

definition demo_oidc_request :: http_request where
  "demo_oidc_request = \<lparr>rq_method = ''POST'', rq_path = oidc_endpoint, rq_header = (\<lambda>_. []),
     rq_body = json_Marshal demo_oidc_body, rq_remote = ''10.0.0.1:99''\<rparr>"

definition demo_oidc_row :: OIDCPolicyRow where
  "demo_oidc_row = empty_row\<lparr>pr_Issuer := ''iss'', pr_Sub := ''repo'', pr_MappedSigil := ''ci'',
     pr_AllowedScopes := Some [''read'', ''write''], pr_MaxTTLSec := 60, pr_Enabled := True\<rparr>"

text \<open>One configured issuer whose key document is in the cache, and one policy row.\<close>

definition demo_oidc_state :: "MemStore OIDCBootstrap" where
  "demo_oidc_state =
     \<lparr>ob_broker = New (snd (MemStore_SaveSigil demo_oidc_sigil NewMemStore)) [] [],
      ob_cfg = \<lparr>cf_Policy = Some (index_rows [demo_oidc_row]),
        cf_IssuerJWKSURLs = [(''iss'', ''u'')], cf_Audience = ''aud'', cf_AuditPath = [], cf_JWKSCacheTTL = time_Hour,
        cf_WorkspaceID = ''w''\<rparr>,
      ob_cache = \<lparr>ic_cached = [''u'' \<mapsto> \<lparr>ie_doc = [empty_key\<lparr>ik_Kid := ''k'', ik_Kty := ''RSA''\<rparr>], ie_fetched = utc_time 0\<rparr>],
        ic_ttl = time_Hour\<rparr>,
      ob_bruteForce = NewBruteForceDetector (\<lambda>_. []) ''w'', ob_published = [], ob_audit = []\<rparr>"

subsection \<open>What a granted token rests on\<close>

lemma fail_with_denies:
  "fail_with rd corrID cid reason status code msg h = (Some resp, h') \<Longrightarrow> rp_status resp = status"
  by (auto simp: fail_with_def writeOIDCErr_def)

lemma map_of_allow: "map_of (fold (\<lambda>s. map_put s ()) as m) x = Some () \<longleftrightarrow> x \<in> set as \<or> map_of m x = Some ()"
  by (induction as arbitrary: m) auto

lemma scopesSubset_iff: "scopesSubset requested allowed \<longleftrightarrow> set requested \<subseteq> set allowed"
  by (simp add: scopesSubset_def Let_def list_all_iff map_of_allow subset_eq)

lemma verifyJWT_OK:
  assumes "verifyJWT J rd tok url iss aud cache = (Inr sub, cache')"
  obtains kid key where "jw_keyid J oidc_methods tok = Some kid" "kid \<noteq> []"
    "keyByKid (hr_get rd) (hr_now rd 0) url kid cache = (Inr key, cache')"
    "jw_check J oidc_methods iss aud (hr_cfgNow rd 0) tok key = Inr sub"
  using assms by (auto simp: verifyJWT_def split: option.splits if_splits prod.splits sum.splits)

lemma oidc_grant_OK:
  assumes "oidc_grant ops J rd corrID req sub row scopes h = (Some resp, h')" "rp_status resp = 200"
  obtains c where
    "IssueCap ops (hr_cap rd) (pr_MappedSigil row) (strings_Join scopes '' '')
       (Time_Add (hr_cfgNow rd 1) (oidc_ttl (pr_MaxTTLSec row) (br_RequestedTTL req))) (ob_broker h) = (Inr c, ob_broker h')"
  using assms
  by (auto simp: oidc_grant_def Let_def publish_oidc_def audit_row_def dest: fail_with_denies
      split: prod.splits sum.splits)

lemma oidc_decide_OK:
  assumes "oidc_decide ops J rd r corrID req h = (Some resp, h')" "rp_status resp = 200"
  obtains url sub cache' policy row where
    "map_of (cf_IssuerJWKSURLs (ob_cfg h)) (br_OIDCIssuer req) = Some url"
    "verifyJWT J rd (br_OIDCToken req) url (br_OIDCIssuer req) (br_Audience req) (ob_cache h) = (Inr sub, cache')"
    "cf_Policy (ob_cfg h) = Some policy" "Lookup (br_OIDCIssuer req) sub policy = (row, True)"
    "pr_Enabled row" "requested_scopes req \<noteq> []"
    "set (requested_scopes req) \<subseteq> set (elems (pr_AllowedScopes row))"
    "oidc_grant ops J rd corrID req sub row (requested_scopes req) (h\<lparr>ob_cache := cache'\<rparr>) = (Some resp, h')"
  using assms that
  by (auto simp: oidc_decide_def Let_def scopesSubset_iff dest: fail_with_denies
      split: if_splits option.splits prod.splits sum.splits)

lemma publish_oidc_simps [simp]:
  "ob_cfg (publish_oidc a ev h) = ob_cfg h" "ob_cache (publish_oidc a ev h) = ob_cache h"
  "ob_broker (publish_oidc a ev h) = ob_broker h"
  by (simp_all add: publish_oidc_def)

lemma Handle_OK:
  assumes "Handle ops J rd r h = (Some resp, h')" "rp_status resp = 200"
  obtains corrID req h1 where
    "rq_method r = ''POST''" "decode_BootstrapRequest (rq_body r) = Some req"
    "br_Audience req = cf_Audience (ob_cfg h)"
    "ob_cfg h1 = ob_cfg h" "ob_cache h1 = ob_cache h" "ob_broker h1 = ob_broker h"
    "oidc_decide ops J rd r corrID req h1 = (Some resp, h')"
proof -
  let ?corr = "if rq_header r ''X-Shikki-Corr-Id'' = [] then hr_corrID rd else rq_header r ''X-Shikki-Corr-Id''"
  let ?h1 = "publish_oidc ActionAuthRequest (base_event (cf_WorkspaceID (ob_cfg h)) ?corr (hr_now rd 2) ''pending'') h"
  show thesis
    using assms that [of _ ?h1 ?corr]
    unfolding Handle_def Let_def method_not_allowed_def http_Error_def
    by (fastforce dest: fail_with_denies split: if_split_asm option.split_asm)
qed

text \<open>
  C24. A grant is earned. When the handler answers 200, the request was a POST whose body decodes, names
  the configured audience and a configured issuer; the JWT library accepted the token, for that issuer
  and audience, under a key of the issuer's key document; the policy has an enabled row for the issuer
  and the subject of the token; every requested scope is allowed by that row; and the token was minted
  by \<open>IssueCap\<close> for the sigil of the row and exactly the requested scopes.
\<close>

theorem oidc_grant_sound:
  assumes "Handle ops J rd r h = (Some resp, h')" and "rp_status resp = 200"
  shows "rq_method r = ''POST'' \<and>
    (\<exists>req url kid key cache sub policy row c.
       decode_BootstrapRequest (rq_body r) = Some req \<and>
       br_Audience req = cf_Audience (ob_cfg h) \<and>
       map_of (cf_IssuerJWKSURLs (ob_cfg h)) (br_OIDCIssuer req) = Some url \<and>
       jw_keyid J oidc_methods (br_OIDCToken req) = Some kid \<and>
       keyByKid (hr_get rd) (hr_now rd 0) url kid (ob_cache h) = (Inr key, cache) \<and>
       jw_check J oidc_methods (br_OIDCIssuer req) (cf_Audience (ob_cfg h)) (hr_cfgNow rd 0) (br_OIDCToken req) key = Inr sub \<and>
       cf_Policy (ob_cfg h) = Some policy \<and> Lookup (br_OIDCIssuer req) sub policy = (row, True) \<and> pr_Enabled row \<and>
       requested_scopes req \<noteq> [] \<and> set (requested_scopes req) \<subseteq> set (elems (pr_AllowedScopes row)) \<and>
       IssueCap ops (hr_cap rd) (pr_MappedSigil row) (strings_Join (requested_scopes req) '' '')
         (Time_Add (hr_cfgNow rd 1) (oidc_ttl (pr_MaxTTLSec row) (br_RequestedTTL req))) (ob_broker h)
         = (Inr c, ob_broker h'))"
proof -
  obtain corrID req h1 where post: "rq_method r = ''POST''"
    and req: "decode_BootstrapRequest (rq_body r) = Some req" "br_Audience req = cf_Audience (ob_cfg h)"
    and h1: "ob_cfg h1 = ob_cfg h" "ob_cache h1 = ob_cache h" "ob_broker h1 = ob_broker h"
    and decide: "oidc_decide ops J rd r corrID req h1 = (Some resp, h')"
    using assms by (rule Handle_OK)
  obtain url sub cache policy row where
    url: "map_of (cf_IssuerJWKSURLs (ob_cfg h)) (br_OIDCIssuer req) = Some url"
    and jwt: "verifyJWT J rd (br_OIDCToken req) url (br_OIDCIssuer req) (br_Audience req) (ob_cache h) = (Inr sub, cache)"
    and policy: "cf_Policy (ob_cfg h) = Some policy" "Lookup (br_OIDCIssuer req) sub policy = (row, True)" "pr_Enabled row"
      "requested_scopes req \<noteq> []" "set (requested_scopes req) \<subseteq> set (elems (pr_AllowedScopes row))"
    and grant: "oidc_grant ops J rd corrID req sub row (requested_scopes req) (h1\<lparr>ob_cache := cache\<rparr>) = (Some resp, h')"
    using oidc_decide_OK [OF decide assms(2)] unfolding h1 by metis
  obtain kid key where "jw_keyid J oidc_methods (br_OIDCToken req) = Some kid"
    "keyByKid (hr_get rd) (hr_now rd 0) url kid (ob_cache h) = (Inr key, cache)"
    "jw_check J oidc_methods (br_OIDCIssuer req) (br_Audience req) (hr_cfgNow rd 0) (br_OIDCToken req) key = Inr sub"
    using jwt by (rule verifyJWT_OK)
  moreover obtain c where "IssueCap ops (hr_cap rd) (pr_MappedSigil row) (strings_Join (requested_scopes req) '' '')
       (Time_Add (hr_cfgNow rd 1) (oidc_ttl (pr_MaxTTLSec row) (br_RequestedTTL req))) (ob_broker h) = (Inr c, ob_broker h')"
    using oidc_grant_OK [OF grant assms(2)] by (auto simp: h1)
  ultimately show ?thesis using post req url policy by metis
qed

lemma demo_decodes:
  "decode_BootstrapRequest (json_Marshal demo_oidc_body) = Some \<lparr>br_OIDCToken = ''t'', br_OIDCIssuer = ''iss'',
     br_Audience = ''aud'', br_RequestedScope = ''read'', br_RequestedScopes = None, br_RequestedTTL = 0\<rparr>"
proof -
  have "json_wf demo_oidc_body" by (simp add: demo_oidc_body_def ascii_valid_utf8)
  then have "json_Decode (json_Marshal demo_oidc_body) = Some demo_oidc_body"
    by (simp add: json_Decode_Marshal json_wf_nums json_raw_wf)
  moreover have "length (json_Marshal demo_oidc_body) < 100" by code_simp
  moreover have "fold_name ''oidc_token'' = ''OIDC_TOKEN''" "fold_name ''oidc_issuer'' = ''OIDC_ISSUER''"
    "fold_name ''audience'' = ''AUDIENCE''" "fold_name ''requested_scope'' = ''REQUESTED_SCOPE''"
    by code_simp+
  ultimately show ?thesis
    by (simp add: decode_BootstrapRequest_def dec_struct_def fld_def find_field_simps dec_string_def demo_oidc_body_def
        del: fold_name.simps json_Marshal.simps)
qed

lemma demo_oidc_lookup: "Lookup ''iss'' ''repo'' (index_rows [demo_oidc_row]) = (demo_oidc_row, True)"
  by (simp add: Lookup_def index_rows_def policyKey_def demo_oidc_row_def)

lemma demo_oidc_verified:
  "verifyJWT demo_oidc_jwt demo_oidc_reads tok ''u'' iss aud (ob_cache demo_oidc_state) = (Inr ''repo'', ob_cache demo_oidc_state)"
  by (simp add: verifyJWT_def keyByKid_def find_key_def rsaFromJWK_def demo_oidc_jwt_def demo_oidc_reads_def
      demo_oidc_state_def Time_Sub_def time_Hour_def b64_Raw_Decode_def empty_key_def)

lemma demo_oidc_granted:
  assumes "ob_broker h = ob_broker demo_oidc_state"
  shows "\<exists>resp h'. oidc_grant mem_ops demo_oidc_jwt demo_oidc_reads corrID req sub demo_oidc_row scopes h = (Some resp, h')
     \<and> rp_status resp = 200"
  using assms
  by (simp add: oidc_grant_def Let_def IssueCap_def mem_ops_def demo_oidc_state_def demo_oidc_row_def demo_oidc_reads_def
      MemStore_GetSigil_def MemStore_SaveSigil_def NewMemStore_def New_def demo_oidc_sigil_def GenerateNonce_def
      MemStore_SaveCap_def signCapJWT_def demo_oidc_jwt_def empty_row_def)

theorem oidc_grant_sound_witness:
  "\<exists>resp h' c. Handle mem_ops demo_oidc_jwt demo_oidc_reads demo_oidc_request demo_oidc_state = (Some resp, h')
     \<and> rp_status resp = 200
     \<and> IssueCap mem_ops (hr_cap demo_oidc_reads) ''ci'' ''read'' (Time_Add (utc_time 0) (oidc_ttl 60 0))
         (ob_broker demo_oidc_state) = (Inr c, ob_broker h')"
proof -
  let ?req = "\<lparr>br_OIDCToken = ''t'', br_OIDCIssuer = ''iss'', br_Audience = ''aud'', br_RequestedScope = ''read'',
     br_RequestedScopes = None, br_RequestedTTL = 0\<rparr>"
  have cfg: "cf_Policy (ob_cfg demo_oidc_state) = Some (index_rows [demo_oidc_row])"
    "map_of (cf_IssuerJWKSURLs (ob_cfg demo_oidc_state)) ''iss'' = Some ''u''" "cf_Audience (ob_cfg demo_oidc_state) = ''aud''"
    by (simp_all add: demo_oidc_state_def)
  have decodes: "decode_BootstrapRequest (rq_body demo_oidc_request) = Some ?req"
    by (simp only: demo_oidc_request_def http_request.simps demo_decodes)
  have row: "pr_Enabled demo_oidc_row" "elems (pr_AllowedScopes demo_oidc_row) = [''read'', ''write'']"
    "pr_MappedSigil demo_oidc_row = ''ci''" "pr_MaxTTLSec demo_oidc_row = 60"
    by (simp_all add: demo_oidc_row_def)
  have scopes: "requested_scopes ?req = [''read'']" by (simp add: requested_scopes_def)
  have req: "rq_method demo_oidc_request = ''POST''" "rq_header demo_oidc_request x = []" for x
    by (simp_all add: demo_oidc_request_def)
  obtain resp h' where 200: "Handle mem_ops demo_oidc_jwt demo_oidc_reads demo_oidc_request demo_oidc_state = (Some resp, h')"
    "rp_status resp = 200"
    using demo_oidc_granted [of "(publish_oidc _ _ demo_oidc_state)\<lparr>ob_cache := _\<rparr>"]
    by (simp add: Handle_def Let_def req decodes cfg oidc_decide_def scopes demo_oidc_verified demo_oidc_lookup row
        scopesSubset_iff) blast
  have reads: "hr_cfgNow demo_oidc_reads k = utc_time 0" "jw_check demo_oidc_jwt ms iss aud t tok key = Inr ''repo''" for k ms iss aud t tok key
    by (simp_all add: demo_oidc_reads_def demo_oidc_jwt_def)
  from oidc_grant_sound [OF 200] 200 show ?thesis
    by (auto simp: decodes cfg reads demo_oidc_lookup row scopes)
qed

subsection \<open>Lifetimes\<close>

lemma sint_seconds: "- 9223372036 \<le> k \<Longrightarrow> k \<le> 9223372036 \<Longrightarrow> sint (word_of_int k * time_Second) = k * 10 ^ 9"
  using sint_exact [of "k * 10 ^ 9"] by (simp add: time_Second_def)

lemma sint_seconds_wrapped:
  assumes "9223372036 < k" "k \<le> 18446744073"
  shows "sint (word_of_int k * time_Second) = k * 10 ^ 9 - 2 ^ 64"
proof -
  have "word_of_int k * time_Second = (word_of_int (k * 10 ^ 9 - 2 ^ 64) :: 64 word)"
    by (simp add: time_Second_def)
  then show ?thesis using sint_exact [of "k * 10 ^ 9 - 2 ^ 64"] assms by simp
qed

lemma OIDC_limits: "sint MaxOIDCTTL = 300 * 10 ^ 9" "sint DefaultOIDCTTL = 30 * 10 ^ 9"
  by (simp_all add: MaxOIDCTTL_def DefaultOIDCTTL_def time_Minute_def time_Second_def)





subsection \<open>Keys and policy rows\<close>

text \<open>
  C25. Which document a key comes from: one that is in the cache and no older than its TTL, or was
  fetched for this request; only when fetching fails is an older one used, and then for as long as
  fetching fails, whatever its age.
\<close>

theorem jwks_fresh_or_down:
  assumes "keyByKid get now url kid c = (Inr key, c')"
  shows "\<exists>e. ic_cached c' url = Some e \<and> find_key url kid (ie_doc e) = Inr key \<and>
    (ic_cached c url = Some e \<and> c' = c \<and>
       (sint (Time_Sub now (ie_fetched e)) \<le> sint (ic_ttl c) \<or> (\<exists>err. fetch get url = Inl err))
     \<or> fetch get url = Inr (ie_doc e) \<and> ie_fetched e = now)"
  using assms by (auto simp: keyByKid_def split: option.splits sum.splits if_splits)

theorem jwks_fresh_or_down_witness:
  "let c = \<lparr>ic_cached = [''u'' \<mapsto> \<lparr>ie_doc = [empty_key\<lparr>ik_Kid := ''k'', ik_Kty := ''RSA''\<rparr>], ie_fetched = utc_time 0\<rparr>],
        ic_ttl = time_Hour\<rparr>
   in \<exists>key. keyByKid (\<lambda>_. Inl ''down'') (utc_time (10 ^ 18)) ''u'' ''k'' c = (Inr key, c)
      \<and> find_key ''u'' ''k'' [empty_key\<lparr>ik_Kid := ''k'', ik_Kty := ''RSA''\<rparr>] = Inr key"
proof -
  let ?c = "\<lparr>ic_cached = [''u'' \<mapsto> \<lparr>ie_doc = [empty_key\<lparr>ik_Kid := ''k'', ik_Kty := ''RSA''\<rparr>], ie_fetched = utc_time 0\<rparr>],
        ic_ttl = time_Hour\<rparr>"
  obtain key where "keyByKid (\<lambda>_. Inl ''down'') (utc_time (10 ^ 18)) ''u'' ''k'' ?c = (Inr key, ?c)"
    by (simp add: keyByKid_def fetch_def find_key_def rsaFromJWK_def b64_Raw_Decode_def empty_key_def)
  with jwks_fresh_or_down [OF this] show ?thesis by auto
qed

lemma policyKey_inject:
  "CHR ''|'' \<notin> set i \<Longrightarrow> CHR ''|'' \<notin> set i' \<Longrightarrow> policyKey i s = policyKey i' s' \<longleftrightarrow> i = i' \<and> s = s'"
  by (auto simp: policyKey_def append_eq_append_conv2 append_eq_Cons_conv Cons_eq_append_conv)

text \<open>A separator in the issuer makes two identities one.\<close>

lemma policyKey_collision: "policyKey ''a|b'' ''c'' = policyKey ''a'' ''b|c''"
  by (simp add: policyKey_def)

lemma index_rows_snoc: "index_rows (rows @ [r]) = map_put (policyKey (pr_Issuer r) (pr_Sub r)) r (index_rows rows)"
  by (simp add: index_rows_def)

lemma index_rows_lookup:
  "map_of (index_rows rows) k = find (\<lambda>r. policyKey (pr_Issuer r) (pr_Sub r) = k) (rev rows)"
  by (induction rows rule: rev_induct) (auto simp: index_rows_snoc index_rows_def)

text \<open>
  C26. A policy file is looked up by identity, as long as no issuer contains the separator: the row
  found is the last one of the file with that issuer and subject, and there is none exactly when the
  file has none.
\<close>

theorem policy_lookup_exact:
  assumes "LoadOIDCPolicy readFile path = Inr p" and "path \<noteq> []"
    and "readFile path = FileData raw" and "decode_policy raw = Some rows"
    and "list_all (\<lambda>r. CHR ''|'' \<notin> set (pr_Issuer r)) (elems rows)" and "CHR ''|'' \<notin> set issuer"
  shows "Lookup issuer sub p =
    (case find (\<lambda>r. pr_Issuer r = issuer \<and> pr_Sub r = sub) (rev (elems rows)) of
       Some r \<Rightarrow> (r, True) | None \<Rightarrow> (empty_row, False))"
proof -
  have "p = index_rows (elems rows)" using assms(1-4) by (simp add: LoadOIDCPolicy_def)
  moreover have "find (\<lambda>r. policyKey (pr_Issuer r) (pr_Sub r) = policyKey issuer sub) (rev (elems rows))
      = find (\<lambda>r. pr_Issuer r = issuer \<and> pr_Sub r = sub) (rev (elems rows))"
    using assms(5,6) by (intro find_cong) (simp_all add: list_all_iff policyKey_inject)
  ultimately show ?thesis by (simp add: Lookup_def index_rows_lookup)
qed

lemma demo_policy_decodes:
  "decode_policy (json_Marshal (JArr [JObj [(''issuer'', JStr ''iss''), (''sub'', JStr ''repo'')]]))
     = Some (Some [empty_row\<lparr>pr_Issuer := ''iss'', pr_Sub := ''repo''\<rparr>])"
proof -
  let ?v = "JArr [JObj [(''issuer'', JStr ''iss''), (''sub'', JStr ''repo'')]]"
  have "json_wf ?v" by (simp add: ascii_valid_utf8)
  then have "json_Parse (json_Marshal ?v) = Some ?v"
    by (simp add: json_Parse_Marshal json_wf_nums json_raw_wf del: json_Marshal.simps)
  moreover have "fold_name ''issuer'' = ''ISSUER''" "fold_name ''sub'' = ''SUB''" by code_simp+
  ultimately show ?thesis
    by (simp add: decode_policy_def dec_slice_def dec_policy_row_def dec_struct_def fld_def find_field_simps dec_string_def
        empty_row_def del: fold_name.simps json_Marshal.simps)
qed

theorem policy_lookup_exact_witness:
  "let raw = json_Marshal (JArr [JObj [(''issuer'', JStr ''iss''), (''sub'', JStr ''repo'')]])
   in \<exists>p. LoadOIDCPolicy (\<lambda>_. FileData raw) ''f'' = Inr p \<and> snd (Lookup ''iss'' ''repo'' p) \<and> \<not> snd (Lookup ''iss'' ''x'' p)"
proof -
  let ?raw = "json_Marshal (JArr [JObj [(''issuer'', JStr ''iss''), (''sub'', JStr ''repo'')]])"
  obtain p where p: "LoadOIDCPolicy (\<lambda>_. FileData ?raw) ''f'' = Inr p"
    by (simp add: LoadOIDCPolicy_def demo_policy_decodes del: json_Marshal.simps)
  note look = policy_lookup_exact [OF p _ refl demo_policy_decodes, of "''iss''"]
  show ?thesis using p look [of "''repo''"] look [of "''x''"] by (auto simp: Let_def simp del: json_Marshal.simps)
qed

end
