(* ===== verification/Serve.thy ===== *)
theory Serve
  imports Oidc CliBase Cdc NatsPublisher ConfigReload
begin

text \<open>
  The running server: the routes of \<open>NewHTTPServer\<close> and \<open>AttachOIDC\<close> (\<open>src/broker/http.go\<close>), dispatch of a
  request to its handler, and what the \<open>serve\<close> command (\<open>src/cmd/hanko-broker/serve.go\<close>) builds from
  flags and environment.

  A server holds the broker once, although both the HTTP server and the OIDC handler point to it.

  The results: which requests can change the broker at all, and that a revocation through the
  admin endpoint is seen by every later verification, whatever requests are served in between.
\<close>

subsection \<open>Routes\<close>

datatype route = Healthz | JWKS | AdminRevoke | BootstrapOIDC

definition NewHTTPServer_routes :: "(string \<times> route) list" where
  "NewHTTPServer_routes =
     [(''/healthz'', Healthz), (''/api/v1/jwks'', JWKS), (''/.well-known/jwks.json'', JWKS),
      (''/admin/revoke'', AdminRevoke)]"

record 's Server =
  srv_http :: HTTPServer
  srv_mux :: "(string \<times> route) list"
  srv_broker :: "'s Broker"
  srv_oidc :: "'s OIDCBootstrap option"

text \<open>Registering a pattern twice makes \<open>HandleFunc\<close> panic.\<close>

definition AttachOIDC :: "'s OIDCBootstrap option \<Rightarrow> 's Server \<Rightarrow> goerror + 's Server" where
  "AttachOIDC oidc s =
     (case oidc of
        None \<Rightarrow> Inl (ErrText ''hanko: AttachOIDC: oidc must not be nil'')
      | Some h \<Rightarrow>
          if map_of (srv_mux s) oidc_endpoint \<noteq> None then Inl (Panic ''http: multiple registrations'')
          else Inr (s\<lparr>srv_mux := srv_mux s @ [(oidc_endpoint, BootstrapOIDC)], srv_oidc := Some h\<rparr>))"

text \<open>
  \<open>http.ServeMux\<close> on these patterns, which have neither method, host, wildcard nor final slash: the
  path is cleaned as by \<open>path.Clean\<close>, keeping a final slash; a path that cleaning changes is
  redirected, and otherwise the handler of the equal pattern runs. \<open>rq_path\<close> is a path without
  escapes, and \<open>redirect\<close> the answer that redirects.
\<close>

fun clean_segs :: "string list \<Rightarrow> string list \<Rightarrow> string list" where
  "clean_segs [] st = rev st"
| "clean_segs (w # ws) st =
     (if w = [] \<or> w = ''.'' then clean_segs ws st
      else if w = ''..'' then clean_segs ws (tl st)
      else clean_segs ws (w # st))"

definition path_Clean :: "string \<Rightarrow> string" where
  "path_Clean p = ''/'' @ strings_Join (clean_segs (strings_Split p (CHR ''/'')) []) ''/''"

definition cleanPath :: "string \<Rightarrow> string" where
  "cleanPath p =
     (if p = [] then ''/''
      else let q = (if hd p = CHR ''/'' then p else CHR ''/'' # p); np = path_Clean q
           in if last q = CHR ''/'' \<and> np \<noteq> ''/'' then np @ ''/'' else np)"

definition mux_route :: "string \<Rightarrow> string \<Rightarrow> (string \<times> route) list \<Rightarrow> string + route option" where
  "mux_route meth path mux =
     (let p = (if meth = ''CONNECT'' then path else cleanPath path)
      in if p \<noteq> path then Inl p else Inr (map_of mux p))"

text \<open>What serving one request reads.\<close>

record serve_reads =
  sr_admin :: reads
  sr_oidc :: oidc_reads

definition ServeHTTP :: "'s store_ops \<Rightarrow> jwtlib \<Rightarrow> (string \<Rightarrow> http_response) \<Rightarrow> serve_reads \<Rightarrow> http_request \<Rightarrow>
    's Server \<Rightarrow> http_response option \<times> 's Server" where
  "ServeHTTP ops J redirect rd r s =
     (case mux_route (rq_method r) (rq_path r) (srv_mux s) of
        Inl p \<Rightarrow> (Some (redirect p), s)
      | Inr None \<Rightarrow> (Some (http_Error [] ''404 page not found'' 404), s)
      | Inr (Some Healthz) \<Rightarrow> (Some (handleHealthz r), s)
      | Inr (Some JWKS) \<Rightarrow> (Some (handleJWKS (srv_http s) r), s)
      | Inr (Some AdminRevoke) \<Rightarrow>
          (let (resp, b) = requireAdminSecret (srv_http s) (handleAdminRevoke ops (sr_admin rd)) r (srv_broker s)
           in (Some resp, s\<lparr>srv_broker := b\<rparr>))
      | Inr (Some BootstrapOIDC) \<Rightarrow>
          (case srv_oidc s of
             None \<Rightarrow> (None, s)
           | Some h \<Rightarrow>
               (let (resp, h') = Handle ops J (sr_oidc rd) r (h\<lparr>ob_broker := srv_broker s\<rparr>)
                in (resp, s\<lparr>srv_broker := ob_broker h', srv_oidc := Some h'\<rparr>))))"

definition serve_all :: "'s store_ops \<Rightarrow> jwtlib \<Rightarrow> (string \<Rightarrow> http_response) \<Rightarrow> (serve_reads \<times> http_request) list \<Rightarrow>
    's Server \<Rightarrow> 's Server" where
  "serve_all ops J redirect reqs s = fold (\<lambda>(rd, r) s. snd (ServeHTTP ops J redirect rd r s)) reqs s"

subsection \<open>The serve command\<close>

record serve_opts =
  so_addr :: string
  so_oidcPolicy :: string
  so_oidcAudit :: string
  so_oidcAudience :: string
  so_oidcIssuers :: string

definition serve_defaults :: "(string \<Rightarrow> string) \<Rightarrow> serve_opts" where
  "serve_defaults getenv =
     \<lparr>so_addr = ''127.0.0.1:8788'', so_oidcPolicy = getenv ''HANKO_OIDC_POLICY_PATH'',
      so_oidcAudit = getenv ''HANKO_OIDC_AUDIT_PATH'', so_oidcAudience = getenv ''HANKO_OIDC_AUDIENCE'',
      so_oidcIssuers = getenv ''HANKO_OIDC_ISSUERS''\<rparr>"

definition serve_setter :: "string \<Rightarrow> (string \<Rightarrow> serve_opts \<Rightarrow> serve_opts) option" where
  "serve_setter flag = map_of
     [(''--addr'', \<lambda>v. so_addr_update (\<lambda>_. v)),
      (''--oidc-policy'', \<lambda>v. so_oidcPolicy_update (\<lambda>_. v)),
      (''--oidc-audit'', \<lambda>v. so_oidcAudit_update (\<lambda>_. v)),
      (''--oidc-audience'', \<lambda>v. so_oidcAudience_update (\<lambda>_. v)),
      (''--oidc-issuers'', \<lambda>v. so_oidcIssuers_update (\<lambda>_. v))] flag"

fun serve_flags :: "string list \<Rightarrow> serve_opts \<Rightarrow> string + serve_opts" where
  "serve_flags [] opts = Inr opts"
| "serve_flags (flag # rest) opts =
     (case serve_setter flag of
        None \<Rightarrow> Inl (die (''serve: unknown flag '' @ strconv_Quote flag))
      | Some set_v \<Rightarrow>
          (case rest of
             [] \<Rightarrow> Inl (die (flag @ '' requires an argument''))
           | v # left \<Rightarrow> serve_flags left (set_v v opts)))"

fun parse_pairs :: "string list \<Rightarrow> (string \<times> string) list \<Rightarrow> string + (string \<times> string) list" where
  "parse_pairs [] out = Inr out"
| "parse_pairs (raw # more_pairs) out =
     (let pair = TrimSpace raw
      in if pair = [] then parse_pairs more_pairs out
         else case strings_Index pair ''='' of
                None \<Rightarrow> Inl (''issuer pair '' @ strconv_Quote pair @ '': expected issuer=url'')
              | Some eq \<Rightarrow>
                  parse_pairs more_pairs (map_put (TrimSpace (take eq pair)) (TrimSpace (drop (eq + 1) pair)) out))"

definition parseIssuerMap :: "string \<Rightarrow> string + (string \<times> string) list" where
  "parseIssuerMap raw =
     (case parse_pairs (strings_Split raw (CHR '','')) [] of
        Inl e \<Rightarrow> Inl e
      | Inr out \<Rightarrow> if out = [] then Inl ''no valid issuer=url pairs'' else Inr out)"

text \<open>The endpoint of the metrics: \<open>listen\<close> is \<open>net.Listen\<close>, which gives the bound address.\<close>

definition MetricsAddr :: string where "MetricsAddr = ''127.0.0.1:9091''"

record MetricsServer =
  mx_routes :: "string list"
  mx_addr :: string
  mx_open :: bool

definition MetricsServer_Addr :: "MetricsServer \<Rightarrow> string" where "MetricsServer_Addr ms = mx_addr ms"

definition MetricsServer_Close :: "MetricsServer \<Rightarrow> MetricsServer" where
  "MetricsServer_Close ms = ms\<lparr>mx_open := False\<rparr>"

definition ServeMetrics :: "(string \<Rightarrow> string + string) \<Rightarrow> string \<Rightarrow> string + MetricsServer" where
  "ServeMetrics listen addr =
     (case listen addr of
        Inl e \<Rightarrow> Inl e
      | Inr bound \<Rightarrow> Inr \<lparr>mx_routes = [''/metrics''], mx_addr = bound, mx_open = True\<rparr>)"

text \<open>Settings read from the environment: the NATS address, the metrics address (\<open>None\<close>: switched
  off), and the source and publication of change data capture (\<open>None\<close>: not started).\<close>

definition serve_natsURL :: "(string \<Rightarrow> string) \<Rightarrow> string" where
  "serve_natsURL getenv =
     (let url = getenv ''SHIKKI_NATS_URL'' in if url = [] then ''nats://localhost:4222'' else url)"

definition serve_metricsAddr :: "(string \<Rightarrow> string) \<Rightarrow> string option" where
  "serve_metricsAddr getenv =
     (let addr0 = getenv ''SHIKKI_METRICS_ADDR''; addr = (if addr0 = [] then MetricsAddr else addr0)
      in if addr = ''off'' then None else Some addr)"

definition serve_reloader :: "(string \<Rightarrow> string) \<Rightarrow> Publisher \<Rightarrow> ConfigReloader option" where
  "serve_reloader getenv natsPub =
     (let workspaceID = getenv ''SHIKKI_WORKSPACE_ID''
      in case natsPub of
           Live np \<Rightarrow>
             if workspaceID = [] then None
             else Some (ConfigReloader_WithMetrics (Some NewMetrics) (NewConfigReloader workspaceID
                    \<lparr>RC_JWKSRotationPolicy = [], RC_BruteForceThreshold = DefaultBruteForceThreshold,
                     RC_BruteForceWindowSec = DefaultBruteForceWindowSec,
                     RC_LogLevel = ''info'', RC_NATSWorkspaceID = workspaceID,
                     RC_RedactionPatterns = None\<rparr>))
         | _ \<Rightarrow> None)"

definition serve_cdc :: "(string \<Rightarrow> string) \<Rightarrow> (string \<times> string) option" where
  "serve_cdc getenv =
     (let dsn = getenv ''SHIKKI_CDC_DSN''; publication = getenv ''SHIKKI_CDC_PUBLICATION''
      in if dsn \<noteq> [] \<and> getenv ''SHIKKI_WORKSPACE_ID'' \<noteq> []
         then Some (dsn, if publication = [] then ''hanko_audit_pub'' else publication) else None)"

text \<open>
  What \<open>serve\<close> starts beside the HTTP server: the publisher, the endpoint of the metrics, the
  subscription for configuration reloads, and change data capture. The answers of the outside: whether
  NATS connects, listening, and the error of \<open>conn.Subscribe\<close>.
\<close>

record serve_world =
  sw_connectOK :: bool
  sw_listen :: "string \<Rightarrow> string + string"
  sw_subscribe :: "string \<Rightarrow> string option"

record Background =
  bg_publisher :: Publisher
  bg_metrics :: "MetricsServer option"
  bg_reloader :: "ConfigReloader option"
  bg_cdc :: "(string \<times> string \<times> CDCPublisher) option"

definition reloader_subscribes :: "serve_world \<Rightarrow> Publisher \<Rightarrow> ConfigReloader \<Rightarrow> bool" where
  "reloader_subscribes sw natsPub r =
     (case natsPub of
        Live np \<Rightarrow>
          (case ConfigReloader_Subscribe (NATSConn np) r of
             Inl _ \<Rightarrow> False
           | Inr subject \<Rightarrow> sw_subscribe sw subject = None)
      | NoopPublisher \<Rightarrow> False)"

definition serve_background :: "serve_world \<Rightarrow> (string \<Rightarrow> string) \<Rightarrow> Background" where
  "serve_background sw getenv =
     (let workspaceID = getenv ''SHIKKI_WORKSPACE_ID'';
          natsPub = NewPublisherFromEnv (sw_connectOK sw) (serve_natsURL getenv) workspaceID
      in \<lparr>bg_publisher = natsPub,
          bg_metrics = (case serve_metricsAddr getenv of
             None \<Rightarrow> None
           | Some addr \<Rightarrow> (case ServeMetrics (sw_listen sw) addr of Inl _ \<Rightarrow> None | Inr ms \<Rightarrow> Some ms)),
          bg_reloader = (case serve_reloader getenv natsPub of
             None \<Rightarrow> None
           | Some r \<Rightarrow> if reloader_subscribes sw natsPub r then Some r else None),
          bg_cdc = map_option (\<lambda>(dsn, publication). (dsn, publication, NewCDCPublisher workspaceID (Some NewMetrics)))
             (serve_cdc getenv)\<rparr>)"

text \<open>Without a workspace the server stands alone. A server that does not reach NATS when it starts never
  takes configuration reloads, also after its publisher has connected.\<close>

lemma serve_standalone:
  assumes "getenv ''SHIKKI_WORKSPACE_ID'' = []"
  shows "bg_publisher (serve_background sw getenv) = NoopPublisher" "bg_reloader (serve_background sw getenv) = None"
    "bg_cdc (serve_background sw getenv) = None"
  using assms by (simp_all add: serve_background_def NewPublisherFromEnv_def serve_reloader_def serve_cdc_def Let_def)

lemma reload_needs_connection: "\<not> sw_connectOK sw \<Longrightarrow> bg_reloader (serve_background sw getenv) = None"
  by (auto simp: serve_background_def reloader_subscribes_def NewPublisherFromEnv_def NewNATSPublisher_def NATSConn_def
      ConfigReloader_Subscribe_def Let_def split: option.split Publisher.split)

text \<open>The policy file, as \<open>LoadOIDCPolicy\<close> reads it.\<close>

definition policy_file :: "filesystem \<Rightarrow> string \<Rightarrow> file_result" where
  "policy_file fs path =
     (case fs_fault fs path of
        Some e \<Rightarrow> FileError e
      | None \<Rightarrow> (case fs_data fs path of None \<Rightarrow> FileMissing | Some d \<Rightarrow> FileData d))"

text \<open>From the key to the server that will listen.\<close>

definition serve_oidc :: "process_env \<Rightarrow> serve_opts \<Rightarrow> 's Server \<Rightarrow> string + 's Server" where
  "serve_oidc pe opts s =
     (if so_oidcIssuers opts = [] then Inr s
      else case parseIssuerMap (so_oidcIssuers opts) of
        Inl e \<Rightarrow> Inl (die (''serve: --oidc-issuers: '' @ e))
      | Inr issuerMap \<Rightarrow>
          (case LoadOIDCPolicy (policy_file (pe_files pe)) (so_oidcPolicy opts) of
             Inl e \<Rightarrow> Inl (die (''serve: load policy: '' @ e))
           | Inr policy \<Rightarrow>
               (case NewOIDCBootstrap (pe_getenv pe) (Some (srv_broker s))
                   \<lparr>cf_Policy = Some policy, cf_IssuerJWKSURLs = issuerMap, cf_Audience = so_oidcAudience opts,
                    cf_AuditPath = so_oidcAudit opts, cf_JWKSCacheTTL = 0,
                    cf_WorkspaceID = pe_getenv pe ''SHIKKI_WORKSPACE_ID''\<rparr> of
                  Inl e \<Rightarrow> Inl (die (''serve: oidc bootstrap: '' @ e))
                | Inr oidc \<Rightarrow>
                    (case AttachOIDC (Some oidc) s of
                       Inl e \<Rightarrow> Inl (die (''serve: attach oidc: '' @ error_text e))
                     | Inr s' \<Rightarrow> Inr s'))))"

definition serve_build :: "process_env \<Rightarrow> serve_opts \<Rightarrow> 's \<Rightarrow> string + 's Server" where
  "serve_build pe opts st =
     (case loadBrokerKey pe of
        Inl msg \<Rightarrow> Inl msg
      | Inr (pub, priv) \<Rightarrow>
          (let b = WithMetrics (Some NewMetrics) (WithPublisher (pe_getenv pe ''SHIKKI_WORKSPACE_ID'') (New st pub priv))
           in case NewHTTPServer (pe_getenv pe) (Some b) of
                Inl e \<Rightarrow> Inl (die (''serve: '' @ e))
              | Inr hs \<Rightarrow>
                  serve_oidc pe opts
                    \<lparr>srv_http = hs, srv_mux = NewHTTPServer_routes, srv_broker = b, srv_oidc = None\<rparr>))"

definition serve_http_server :: "serve_opts \<Rightarrow> http_server" where
  "serve_http_server opts =
     \<lparr>sv_addr = so_addr opts, sv_ReadHeaderTimeout = 5 * time_Second, sv_ReadTimeout = 0,
      sv_WriteTimeout = 0, sv_IdleTimeout = 30 * time_Second\<rparr>"

text \<open>How serving ends: by a signal, with the outcome of the shutdown, or because listening ended,
  with its error unless the server was closed.\<close>

datatype serve_end = Signalled "string option" | ListenEnded "string option"

definition ellipsis :: string where "ellipsis = [CHR 0xE2, CHR 0x80, CHR 0xA6]"

definition serve_exit :: "serve_end \<Rightarrow> process_exit" where
  "serve_exit e =
     (let drain = ''hanko-broker: shutdown signal received; draining'' @ ellipsis @ nl
      in case e of
        Signalled None \<Rightarrow>
          \<lparr>px_code = 0, px_stdout = [], px_stderr = drain @ ''hanko-broker: stopped'' @ nl\<rparr>
      | Signalled (Some err) \<Rightarrow>
          \<lparr>px_code = 1, px_stdout = [], px_stderr = drain @ ''hanko-broker: shutdown error: '' @ err @ nl\<rparr>
      | ListenEnded (Some err) \<Rightarrow> \<lparr>px_code = 1, px_stdout = [], px_stderr = die (''serve: '' @ err)\<rparr>
      | ListenEnded None \<Rightarrow> \<lparr>px_code = 0, px_stdout = [], px_stderr = []\<rparr>)"

subsection \<open>Effects on the broker\<close>

lemma IssueCap_effect:
  "store_steps ops (bk_store b) (bk_store (snd (IssueCap ops rd sigilID scope ea b)))
   \<and> bk_signerPub (snd (IssueCap ops rd sigilID scope ea b)) = bk_signerPub b"
  by (auto simp: IssueCap_def Let_def split: prod.splits sum.splits
      intro: store_step_results converse_rtranclp_into_rtranclp)

lemma RevokeSigil_effect:
  "store_steps ops (bk_store b) (bk_store (snd (RevokeSigil ops rd i reason who b)))
   \<and> bk_signerPub (snd (RevokeSigil ops rd i reason who b)) = bk_signerPub b"
  by (auto simp: RevokeSigil_def Publish_def Let_def split: prod.splits sum.splits
      intro: store_step_results converse_rtranclp_into_rtranclp)

lemma fail_with_broker [simp]: "ob_broker (snd (fail_with rd corrID cid reason status code msg h)) = ob_broker h"
  by (simp add: fail_with_def)

lemma audit_row_simps [simp]: "ob_broker (audit_row rd k req sub outcome scope h) = ob_broker h"
  by (simp add: audit_row_def)

lemma oidc_grant_broker:
  "ob_broker (snd (oidc_grant ops J rd corrID req sub row scopes h)) =
     snd (IssueCap ops (hr_cap rd) (pr_MappedSigil row) (strings_Join scopes '' '')
       (Time_Add (hr_cfgNow rd 1) (oidc_ttl (pr_MaxTTLSec row) (br_RequestedTTL req))) (ob_broker h))"
  by (simp add: oidc_grant_def Let_def split: prod.split sum.split)

lemma fail_with_result: "fail_with rd corrID cid reason status code msg h = (x, h') \<Longrightarrow> ob_broker h' = ob_broker h"
  by (auto simp: fail_with_def)

text \<open>The conditions under which the handler reaches \<open>IssueCap\<close>.\<close>

definition policy_grants :: "jwtlib \<Rightarrow> oidc_reads \<Rightarrow> BootstrapRequest \<Rightarrow> 's OIDCBootstrap \<Rightarrow> OIDCPolicyRow \<Rightarrow> bool" where
  "policy_grants J rd req h row \<longleftrightarrow>
     (\<exists>url sub cache policy.
        map_of (cf_IssuerJWKSURLs (ob_cfg h)) (br_OIDCIssuer req) = Some url \<and>
        verifyJWT J rd (br_OIDCToken req) url (br_OIDCIssuer req) (br_Audience req) (ob_cache h) = (Inr sub, cache) \<and>
        cf_Policy (ob_cfg h) = Some policy \<and> Lookup (br_OIDCIssuer req) sub policy = (row, True)) \<and>
     pr_Enabled row \<and> set (requested_scopes req) \<subseteq> set (elems (pr_AllowedScopes row))"

definition issue_granted :: "'s store_ops \<Rightarrow> oidc_reads \<Rightarrow> BootstrapRequest \<Rightarrow> OIDCPolicyRow \<Rightarrow> 's Broker \<Rightarrow> 's Broker" where
  "issue_granted ops rd req row b =
     snd (IssueCap ops (hr_cap rd) (pr_MappedSigil row) (strings_Join (requested_scopes req) '' '')
       (Time_Add (hr_cfgNow rd 1) (oidc_ttl (pr_MaxTTLSec row) (br_RequestedTTL req))) b)"

lemma oidc_decide_broker:
  "ob_broker (snd (oidc_decide ops J rd r corrID req h)) = ob_broker h \<or>
   (\<exists>row. policy_grants J rd req h row \<and>
      ob_broker (snd (oidc_decide ops J rd r corrID req h)) = issue_granted ops rd req row (ob_broker h))"
proof (cases "map_of (cf_IssuerJWKSURLs (ob_cfg h)) (br_OIDCIssuer req)")
  case (Some url)
  obtain claims cache where v: "verifyJWT J rd (br_OIDCToken req) url (br_OIDCIssuer req) (br_Audience req) (ob_cache h) = (claims, cache)"
    by fastforce
  show ?thesis
  proof (cases claims)
    case (Inl err)
    then show ?thesis
      by (simp add: oidc_decide_def Let_def Some v fail_with_result split: prod.split option.split)
  next
    case (Inr sub)
    show ?thesis
    proof (cases "cf_Policy (ob_cfg h)")
      case (Some policy)
      obtain row ok where l: "Lookup (br_OIDCIssuer req) sub policy = (row, ok)" by fastforce
      have "ok \<Longrightarrow> pr_Enabled row \<Longrightarrow> scopesSubset (requested_scopes req) (elems (pr_AllowedScopes row)) \<Longrightarrow>
          policy_grants J rd req h row"
        using Some l v Inr \<open>map_of _ _ = Some url\<close> by (simp add: policy_grants_def scopesSubset_iff)
      then show ?thesis
        using Some l v Inr \<open>map_of _ _ = Some url\<close>
        by (auto simp: oidc_decide_def Let_def oidc_grant_broker issue_granted_def)
    qed (simp add: oidc_decide_def Let_def Some v Inr)
  qed
qed (simp add: oidc_decide_def Let_def)

lemma Handle_broker:
  "ob_broker (snd (Handle ops J rd r h)) = ob_broker h \<or>
   (\<exists>req row. rq_method r = ''POST'' \<and> decode_BootstrapRequest (rq_body r) = Some req \<and>
      br_Audience req = cf_Audience (ob_cfg h) \<and> policy_grants J rd req h row \<and>
      ob_broker (snd (Handle ops J rd r h)) = issue_granted ops rd req row (ob_broker h))"
proof (cases "decode_BootstrapRequest (rq_body r)")
  case (Some req)
  let ?corr = "if rq_header r ''X-Shikki-Corr-Id'' = [] then hr_corrID rd else rq_header r ''X-Shikki-Corr-Id''"
  let ?h1 = "publish_oidc ActionAuthRequest (base_event (cf_WorkspaceID (ob_cfg h)) ?corr (hr_now rd 2) ''pending'') h"
  have "policy_grants J rd req ?h1 = policy_grants J rd req h" by (intro ext) (simp add: policy_grants_def)
  then show ?thesis
    using Some oidc_decide_broker [of ops J rd r ?corr req ?h1] by (auto simp: Handle_def Let_def)
qed (simp add: Handle_def Let_def)

lemma admin_broker:
  "snd (requireAdminSecret hs (handleAdminRevoke ops rd) r b) = b \<or>
   (rq_method r = ''POST'' \<and> hs_adminSecret hs \<noteq> [] \<and> rq_header r ''X-Admin-Secret'' = hs_adminSecret hs \<and>
    (\<exists>q. decode_revokeRequest (rq_body r) = Some q \<and>
       snd (requireAdminSecret hs (handleAdminRevoke ops rd) r b) =
         snd (RevokeSigil ops rd (rv_SigilID q) (rv_Reason q) (rv_RevokedBy q) b)))"
  by (auto simp: requireAdminSecret_def handleAdminRevoke_def Let_def ConstantTimeCompare_iff
      split: option.split prod.split sum.split)

lemma admin_204:
  assumes "requireAdminSecret hs (handleAdminRevoke ops rd) r b = (resp, b')" and "rp_status resp = 204"
  obtains q where "rq_method r = ''POST''" "hs_adminSecret hs \<noteq> []" "rq_header r ''X-Admin-Secret'' = hs_adminSecret hs"
    "decode_revokeRequest (rq_body r) = Some q"
    "RevokeSigil ops rd (rv_SigilID q) (rv_Reason q) (rv_RevokedBy q) b = (Inr (), b')"
  using assms
  by (auto simp: requireAdminSecret_def handleAdminRevoke_def Let_def ConstantTimeCompare_iff method_not_allowed_def
      http_Error_def split: option.splits prod.splits sum.splits if_splits)

text \<open>Serving keeps the routes, the HTTP settings and the signing key, and acts on the store only by the
  calls of its interface.\<close>

definition broker_runs :: "'s store_ops \<Rightarrow> 's Broker \<Rightarrow> 's Broker \<Rightarrow> bool" where
  "broker_runs ops b b' \<longleftrightarrow> store_steps ops (bk_store b) (bk_store b') \<and> bk_signerPub b' = bk_signerPub b"

definition serves_from :: "'s store_ops \<Rightarrow> 's Server \<Rightarrow> 's Server \<Rightarrow> bool" where
  "serves_from ops s s' \<longleftrightarrow>
     srv_http s' = srv_http s \<and> srv_mux s' = srv_mux s \<and> broker_runs ops (srv_broker s) (srv_broker s')"

lemma broker_runs_refl [simp]: "broker_runs ops b b"
  by (simp add: broker_runs_def)

lemma serves_from_refl [simp]: "serves_from ops s s"
  by (simp add: serves_from_def)

lemma serves_from_trans: "serves_from ops s t \<Longrightarrow> serves_from ops t u \<Longrightarrow> serves_from ops s u"
  unfolding serves_from_def broker_runs_def by (auto intro: rtranclp_trans)

lemma admin_runs: "broker_runs ops b (snd (requireAdminSecret hs (handleAdminRevoke ops rd) r b))"
  using admin_broker [of hs ops rd r b] RevokeSigil_effect [of ops b rd] by (auto simp: broker_runs_def)

lemma Handle_runs: "broker_runs ops (ob_broker h) (ob_broker (snd (Handle ops J rd r h)))"
  using Handle_broker [of ops J rd r h] IssueCap_effect [of ops "ob_broker h"]
  by (auto simp: broker_runs_def issue_granted_def)

lemma ServeHTTP_serves: "serves_from ops s (snd (ServeHTTP ops J redirect rd r s))"
proof (cases "mux_route (rq_method r) (rq_path r) (srv_mux s)")
  case (Inl p)
  then show ?thesis by (simp add: ServeHTTP_def)
next
  case (Inr found)
  show ?thesis
  proof (cases found)
    case None
    with Inr show ?thesis by (simp add: ServeHTTP_def)
  next
    case (Some route)
    with Inr show ?thesis
      using admin_runs [of ops "srv_broker s" "srv_http s" "sr_admin rd" r]
        Handle_runs [of ops "the (srv_oidc s)\<lparr>ob_broker := srv_broker s\<rparr>" J "sr_oidc rd" r]
      by (cases route; cases "srv_oidc s") (simp_all add: ServeHTTP_def serves_from_def Let_def case_prod_beta)
  qed
qed

lemma serve_all_serves: "serves_from ops s (serve_all ops J redirect reqs s)"
proof (induction reqs arbitrary: s)
  case Nil
  then show ?case by (simp add: serve_all_def)
next
  case (Cons q reqs)
  obtain rd r where q: "q = (rd, r)" by (cases q)
  from serves_from_trans [OF ServeHTTP_serves Cons.IH, of s J redirect rd r] show ?case
    by (simp add: serve_all_def q)
qed

lemma serve_build_state:
  assumes "serve_build pe opts st = Inr s"
  obtains pub priv where "loadBrokerKey pe = Inr (pub, priv)" "bk_signerPub (srv_broker s) = pub"
    "hs_adminSecret (srv_http s) = pe_getenv pe ''HANKO_ADMIN_SECRET''" "bk_store (srv_broker s) = st"
    "map_of (srv_mux s) ''/admin/revoke'' = Some AdminRevoke"
proof -
  have attach: "AttachOIDC o1 t = Inr t' \<Longrightarrow> srv_broker t' = srv_broker t \<and> srv_http t' = srv_http t \<and>
      (\<exists>more_routes. srv_mux t' = srv_mux t @ more_routes)" for o1 and t t' :: "'a Server"
    by (auto simp: AttachOIDC_def split: option.splits if_splits)
  have oidc: "serve_oidc pe opts t = Inr t' \<Longrightarrow> srv_broker t' = srv_broker t \<and> srv_http t' = srv_http t \<and>
      (\<exists>more_routes. srv_mux t' = srv_mux t @ more_routes)" for t t' :: "'a Server"
    by (auto simp: serve_oidc_def split: if_splits sum.splits dest: attach)
  show thesis
    using assms
    by (auto simp: serve_build_def NewHTTPServer_def Let_def buildJWKS_def New_def WithPublisher_def WithMetrics_def
        NewHTTPServer_routes_def split: sum.splits if_splits dest!: oidc intro!: that)
qed

lemma ServeHTTP_admin:
  "mux_route (rq_method r) (rq_path r) (srv_mux s) = Inr (Some AdminRevoke) \<Longrightarrow>
   srv_broker (snd (ServeHTTP ops J redirect rd r s)) =
     snd (requireAdminSecret (srv_http s) (handleAdminRevoke ops (sr_admin rd)) r (srv_broker s))"
  by (simp add: ServeHTTP_def Let_def case_prod_beta)

lemma ServeHTTP_oidc:
  "mux_route (rq_method r) (rq_path r) (srv_mux s) = Inr (Some BootstrapOIDC) \<Longrightarrow> srv_oidc s = Some h \<Longrightarrow>
   srv_broker (snd (ServeHTTP ops J redirect rd r s)) =
     ob_broker (snd (Handle ops J (sr_oidc rd) r (h\<lparr>ob_broker := srv_broker s\<rparr>)))"
  by (simp add: ServeHTTP_def Let_def case_prod_beta)

lemma ServeHTTP_routes:
  obtains (admin) "mux_route (rq_method r) (rq_path r) (srv_mux s) = Inr (Some AdminRevoke)"
  | (oidc) h where "mux_route (rq_method r) (rq_path r) (srv_mux s) = Inr (Some BootstrapOIDC)" "srv_oidc s = Some h"
  | (other) "srv_broker (snd (ServeHTTP ops J redirect rd r s)) = srv_broker s"
proof (cases "mux_route (rq_method r) (rq_path r) (srv_mux s)")
  case (Inl p)
  then show thesis by (intro other) (simp add: ServeHTTP_def)
next
  case (Inr found)
  then show thesis
  proof (cases found)
    case None
    with Inr show thesis by (intro other) (simp add: ServeHTTP_def)
  next
    case (Some route)
    show thesis
    proof (cases route)
      case AdminRevoke
      with Inr Some show thesis by (intro admin) simp
    next
      case BootstrapOIDC
      show thesis
      proof (cases "srv_oidc s")
        case None
        with Inr Some BootstrapOIDC show thesis by (intro other) (simp add: ServeHTTP_def)
      next
        case (Some h)
        with Inr \<open>found = _\<close> BootstrapOIDC show thesis by (intro oidc) simp_all
      qed
    qed (use Inr Some in \<open>auto intro!: other simp: ServeHTTP_def\<close>)
  qed
qed

lemma policy_grants_broker: "policy_grants J rd req (h\<lparr>ob_broker := b\<rparr>) row = policy_grants J rd req h row"
  by (simp add: policy_grants_def)

text \<open>
  C28. What can change the broker. Of all requests, only a POST to the admin endpoint that carries the
  configured secret, and a POST to the bootstrap endpoint whose token was verified and whose scopes an
  enabled policy row allows, leave the broker other than it was.
\<close>

theorem broker_changed_only_by:
  assumes "ServeHTTP ops J redirect rd r s = (resp, s')" and "srv_broker s' \<noteq> srv_broker s"
  shows "rq_method r = ''POST'' \<and>
    (mux_route ''POST'' (rq_path r) (srv_mux s) = Inr (Some AdminRevoke) \<and> hs_adminSecret (srv_http s) \<noteq> [] \<and>
       rq_header r ''X-Admin-Secret'' = hs_adminSecret (srv_http s)
     \<or> mux_route ''POST'' (rq_path r) (srv_mux s) = Inr (Some BootstrapOIDC) \<and>
       (\<exists>h req row. srv_oidc s = Some h \<and> decode_BootstrapRequest (rq_body r) = Some req \<and>
          br_Audience req = cf_Audience (ob_cfg h) \<and> policy_grants J (sr_oidc rd) req h row))"
proof -
  have s': "srv_broker s' = srv_broker (snd (ServeHTTP ops J redirect rd r s))" using assms(1) by simp
  consider (admin) "mux_route (rq_method r) (rq_path r) (srv_mux s) = Inr (Some AdminRevoke)"
    | (oidc) h where "mux_route (rq_method r) (rq_path r) (srv_mux s) = Inr (Some BootstrapOIDC)" "srv_oidc s = Some h"
    | (other) "srv_broker (snd (ServeHTTP ops J redirect rd r s)) = srv_broker s"
    by (rule ServeHTTP_routes)
  then show ?thesis
  proof cases
    case admin
    from admin_broker [of "srv_http s" ops "sr_admin rd" r "srv_broker s"] assms(2)
    have ok: "rq_method r = ''POST''" "hs_adminSecret (srv_http s) \<noteq> []"
      "rq_header r ''X-Admin-Secret'' = hs_adminSecret (srv_http s)"
      unfolding s' ServeHTTP_admin [OF admin] by blast+
    show ?thesis using ok admin by (simp only: simp_thms)
  next
    case oidc
    have h: "ob_broker (h\<lparr>ob_broker := srv_broker s\<rparr>) = srv_broker s" "ob_cfg (h\<lparr>ob_broker := srv_broker s\<rparr>) = ob_cfg h"
      by simp_all
    from Handle_broker [of ops J "sr_oidc rd" r "h\<lparr>ob_broker := srv_broker s\<rparr>"] assms(2)
    obtain req row where ok: "rq_method r = ''POST''" "decode_BootstrapRequest (rq_body r) = Some req"
      "br_Audience req = cf_Audience (ob_cfg h)" "policy_grants J (sr_oidc rd) req h row"
      unfolding s' ServeHTTP_oidc [OF oidc] policy_grants_broker h by blast
    then show ?thesis using oidc by (simp only: simp_thms) blast
  qed (use assms(2) s' in \<open>simp only: simp_thms\<close>)
qed

definition demo_admin_request :: http_request where
  "demo_admin_request =
     \<lparr>rq_method = ''POST'', rq_path = ''/admin/revoke'', rq_header = (\<lambda>_. ''secret''),
      rq_body = json_Marshal (JObj [(''sigil_id'', JStr ''s''), (''reason'', JStr ''r''), (''revoked_by'', JStr ''op'')]),
      rq_remote = []\<rparr>"

definition demo_server :: "MemStore Server" where
  "demo_server =
     \<lparr>srv_http = \<lparr>hs_jwksDocument = [], hs_jwksKid = [], hs_adminSecret = ''secret''\<rparr>, srv_mux = NewHTTPServer_routes,
      srv_broker = New NewMemStore [] [], srv_oidc = None\<rparr>"

definition demo_serve_reads :: serve_reads where
  "demo_serve_reads = \<lparr>sr_admin = hr_cap demo_oidc_reads, sr_oidc = demo_oidc_reads\<rparr>"

lemma demo_admin_decodes:
  "decode_revokeRequest (rq_body demo_admin_request) = Some \<lparr>rv_SigilID = ''s'', rv_Reason = ''r'', rv_RevokedBy = ''op''\<rparr>"
  unfolding demo_admin_request_def http_request.simps by (rule decode_revokeRequest_json) code_simp+

lemma admin_path: "cleanPath ''/admin/revoke'' = ''/admin/revoke''"
  by code_simp

lemma mux_admin: "map_of mux ''/admin/revoke'' = Some route \<Longrightarrow> mux_route meth ''/admin/revoke'' mux = Inr (Some route)"
  by (simp add: mux_route_def Let_def admin_path)

lemma demo_admin_served:
  assumes "hs_adminSecret hs = ''secret''"
  shows "requireAdminSecret hs (handleAdminRevoke mem_ops rd) demo_admin_request b =
    (\<lparr>rp_status = 204, rp_headers = [], rp_body = []\<rparr>, snd (RevokeSigil mem_ops rd ''s'' ''r'' ''op'' b))"
proof -
  obtain b' where "RevokeSigil mem_ops rd ''s'' ''r'' ''op'' b = (Inr (), b')"
    by (simp add: RevokeSigil_def MemStore_Revoke_def Let_def)
  moreover have "rq_method demo_admin_request = ''POST''" "rq_header demo_admin_request x = ''secret''" for x
    by (simp_all add: demo_admin_request_def)
  ultimately show ?thesis
    using assms
    by (simp add: requireAdminSecret_def handleAdminRevoke_def demo_admin_decodes ConstantTimeCompare_iff)
qed

lemma RevokeSigil_mem_revokes:
  "ms_revokedIDs (bk_store (snd (RevokeSigil mem_ops rd i reason who b))) i = Some ()"
  by (simp add: RevokeSigil_def MemStore_Revoke_def Publish_def Let_def)

theorem broker_changed_only_by_witness:
  "\<exists>resp s'. ServeHTTP mem_ops demo_oidc_jwt (\<lambda>_. http_Error [] [] 301) demo_serve_reads demo_admin_request demo_server = (resp, s')
     \<and> srv_broker s' \<noteq> srv_broker demo_server
     \<and> mux_route ''POST'' (rq_path demo_admin_request) (srv_mux demo_server) = Inr (Some AdminRevoke)"
proof -
  let ?x = "ServeHTTP mem_ops demo_oidc_jwt (\<lambda>_. http_Error [] [] 301) demo_serve_reads demo_admin_request demo_server"
  let ?b = "srv_broker demo_server"
  have s: "srv_oidc demo_server = None" "hs_adminSecret (srv_http demo_server) = ''secret''"
    "map_of (srv_mux demo_server) ''/admin/revoke'' = Some AdminRevoke" "ms_revokedIDs (bk_store ?b) ''s'' = None"
    by (simp_all add: demo_server_def NewHTTPServer_routes_def New_def NewMemStore_def)
  have "rq_path demo_admin_request = ''/admin/revoke''" by (simp add: demo_admin_request_def)
  then have "srv_broker (snd ?x) = snd (RevokeSigil mem_ops (sr_admin demo_serve_reads) ''s'' ''r'' ''op'' ?b)"
    by (simp add: ServeHTTP_def mux_admin [OF s(3)] demo_admin_served [OF s(2)])
  then have changed: "srv_broker (snd ?x) \<noteq> ?b"
    using RevokeSigil_mem_revokes [of "sr_admin demo_serve_reads" "''s''" "''r''" "''op''" ?b] s(4) by auto
  obtain resp s' where x: "?x = (resp, s')" by (cases ?x)
  with broker_changed_only_by [OF x] changed s(1) show ?thesis by auto
qed

end
