(* ===== verification/TimeParse.thy ===== *)
theory TimeParse
  imports GoTime "HOL-Library.Monad_Syntax"
begin

text \<open>
  \<open>time.Parse(time.RFC3339, s)\<close>, the parser behind \<open>Time.UnmarshalJSON\<close>: one or two digits for the hour,
  a fraction after the seconds with either separator, of which nine digits count, and an offset
  below or at 24:60. The faster parser that Go tries before accepts fewer texts and gives the same
  results. \<open>None\<close> is the error.

  The result: parsing inverts formatting.
\<close>

definition getnum :: "bool \<Rightarrow> string \<Rightarrow> (nat \<times> string) option" where
  "getnum fixed s =
     (case s of
        [] \<Rightarrow> None
      | a # s1 \<Rightarrow>
          if \<not> is_digit a then None
          else if s1 = [] \<or> \<not> is_digit (hd s1) then (if fixed then None else Some (digits_val [a], s1))
          else Some (digits_val [a, hd s1], tl s1))"

definition getyear :: "string \<Rightarrow> (nat \<times> string) option" where
  "getyear s =
     (if 4 \<le> length s \<and> list_all is_digit (take 4 s) then Some (digits_val (take 4 s), drop 4 s) else None)"

definition expect :: "char \<Rightarrow> string \<Rightarrow> string option" where
  "expect c s = (case s of [] \<Rightarrow> None | d # s1 \<Rightarrow> if d = c then Some s1 else None)"

definition parseNanoseconds :: "string \<Rightarrow> nat" where
  "parseNanoseconds ds = digits_val (take 9 ds) * 10 ^ (9 - length (take 9 ds))"

definition getfrac :: "string \<Rightarrow> nat \<times> string" where
  "getfrac s =
     (case s of
        c # d # s1 \<Rightarrow>
          if (c = CHR ''.'' \<or> c = CHR '','') \<and> is_digit d
          then (parseNanoseconds (takeWhile is_digit (d # s1)), dropWhile is_digit (d # s1))
          else (0, s)
      | _ \<Rightarrow> (0, s))"

definition getzone :: "string \<Rightarrow> (int \<times> string) option" where
  "getzone s =
     (case s of
        [] \<Rightarrow> None
      | c # s1 \<Rightarrow>
          if c = CHR ''Z'' then Some (0, s1)
          else if length s < 6 \<or> s ! 3 \<noteq> CHR '':'' then None
          else do {
            (hr, _) \<leftarrow> getnum True (take 2 s1);
            (mm, _) \<leftarrow> getnum True (take 2 (drop 3 s1));
            if 24 < hr \<or> 60 < mm then None
            else if c = CHR ''+'' then Some (int ((hr * 60 + mm) * 60), drop 5 s1)
            else if c = CHR ''-'' then Some (- int ((hr * 60 + mm) * 60), drop 5 s1)
            else None
          })"

definition daysIn :: "nat \<Rightarrow> int \<Rightarrow> nat" where
  "daysIn mon year = month_lengths (is_leap year) ! (mon - 1)"

text \<open>\<open>time.Date\<close> in UTC, in seconds since 1970.\<close>

definition date_unix :: "int \<Rightarrow> nat \<Rightarrow> nat \<Rightarrow> nat \<Rightarrow> nat \<Rightarrow> nat \<Rightarrow> int" where
  "date_unix year mon day hour minute sec =
     (365 * (year - 1) + (year - 1) div 4 - (year - 1) div 100 + (year - 1) div 400
       + int (sum_list (take (mon - 1) (month_lengths (is_leap year)))) + int day - 1 - 719162) * 86400
     + int (hour * 3600 + minute * 60 + sec)"

definition parse_RFC3339 :: "string \<Rightarrow> time option" where
  "parse_RFC3339 s = do {
     (year, s) \<leftarrow> getyear s;
     s \<leftarrow> expect (CHR ''-'') s;
     (mon, s) \<leftarrow> getnum True s;
     s \<leftarrow> expect (CHR ''-'') s;
     (day, s) \<leftarrow> getnum True s;
     s \<leftarrow> expect (CHR ''T'') s;
     (hour, s) \<leftarrow> getnum False s;
     s \<leftarrow> expect (CHR '':'') s;
     (minute, s) \<leftarrow> getnum True s;
     s \<leftarrow> expect (CHR '':'') s;
     (sec, s) \<leftarrow> getnum True s;
     (off, rest) \<leftarrow> getzone (snd (getfrac s));
     if rest = [] \<and> 1 \<le> mon \<and> mon \<le> 12 \<and> hour < 24 \<and> minute < 60 \<and> sec < 60
        \<and> 1 \<le> day \<and> day \<le> daysIn mon (int year)
     then Some \<lparr>wall = (date_unix (int year) mon day hour minute sec - off) * 10 ^ 9 + int (fst (getfrac s)),
                zone = off\<rparr>
     else None
   }"

subsection \<open>Digits\<close>

lemma byte_digit_val: "byte (digit_char n) - 48 = nat (n mod 10)"
  by (simp add: byte_digit_char)

lemma digits_val_pad: "0 \<le> n \<Longrightarrow> n < 10 ^ w \<Longrightarrow> int (digits_val (pad_digits w n)) = n"
proof (induction w arbitrary: n)
  case 0
  then show ?case by (simp add: digits_val_def)
next
  case (Suc w)
  have "int (digits_val (pad_digits w (n div 10))) = n div 10"
    using Suc.prems by (intro Suc.IH) (auto simp: pos_imp_zdiv_nonneg_iff div_less_iff_less_mult)
  then show ?case by (simp add: digits_val_snoc byte_digit_val)
qed

lemma digits_val_zeros: "digits_val (ds @ replicate k (CHR ''0'')) = digits_val ds * 10 ^ k"
proof (induction k)
  case (Suc k)
  have eq: "ds @ replicate (Suc k) (CHR ''0'') = (ds @ replicate k (CHR ''0'')) @ [CHR ''0'']"
    by (simp add: replicate_append_same)
  show ?case unfolding eq digits_val_snoc using Suc by simp
qed simp

lemma pad_2: "pad_digits 2 n = [digit_char (n div 10), digit_char n]"
  by (simp add: numeral_2_eq_2)

lemma getnum_pad:
  assumes "0 \<le> n" "n < 100"
  shows "getnum fixed (pad_digits 2 n @ s) = Some (nat n, s)"
proof -
  have "digits_val (pad_digits 2 n) = nat n" using digits_val_pad [of n 2] assms by simp
  then show ?thesis by (simp add: getnum_def pad_2)
qed

lemma getyear_pad:
  assumes "0 \<le> n" "n < 10000"
  shows "getyear (pad_digits 4 n @ s) = Some (nat n, s)"
proof -
  have "digits_val (pad_digits 4 n) = nat n" using digits_val_pad [of n 4] assms by simp
  then show ?thesis by (simp add: getyear_def list_all_iff pad_digits_are_digits)
qed

lemma expect_hit: "expect c (c # s) = Some s"
  by (simp add: expect_def)

lemma parseNanoseconds_trim:
  assumes "0 \<le> ns" "ns < 10 ^ 9"
  shows "int (parseNanoseconds (trim_zeros (pad_digits 9 ns))) = ns"
proof -
  let ?p = "pad_digits 9 ns"
  obtain k where k: "?p = trim_zeros ?p @ replicate k (CHR ''0'')" using trim_zeros_split by blast
  then have "length ?p = length (trim_zeros ?p) + k" by (metis length_append length_replicate)
  then have l: "length (trim_zeros ?p) = 9 - k" "k \<le> 9" by simp_all
  have "digits_val ?p = digits_val (trim_zeros ?p) * 10 ^ k" by (subst k) (rule digits_val_zeros)
  with l show ?thesis using digits_val_pad [of ns 9] assms by (simp add: parseNanoseconds_def)
qed

subsection \<open>Fraction and offset\<close>

lemma fmt_zone_nondigit: "fmt_zone z = c # s \<Longrightarrow> \<not> is_digit c \<and> c \<noteq> CHR ''.'' \<and> c \<noteq> CHR '',''"
  by (auto simp: fmt_zone_def is_digit_def split: if_splits)

lemma fmt_zone_cons: obtains c s where "fmt_zone z = c # s"
  by (cases "fmt_zone z") (auto simp: fmt_zone_def split: if_splits)

lemma getfrac_fmt:
  assumes "0 \<le> ns" "ns < 10 ^ 9"
  shows "getfrac (fmt_frac ns @ fmt_zone z) = (nat ns, fmt_zone z)"
proof (cases "ns = 0")
  case True
  obtain c s where z: "fmt_zone z = c # s" by (rule fmt_zone_cons)
  with fmt_zone_nondigit [OF z] True show ?thesis by (simp add: fmt_frac_def getfrac_def split: list.split)
next
  case False
  let ?t = "trim_zeros (pad_digits 9 ns)"
  have val: "int (parseNanoseconds ?t) = ns" using assms by (rule parseNanoseconds_trim)
  have digits: "\<forall>c \<in> set ?t. is_digit c"
    by (auto simp: trim_zeros_def dest!: set_dropWhileD pad_digits_are_digits)
  obtain c s where z: "fmt_zone z = c # s" by (rule fmt_zone_cons)
  have span: "takeWhile is_digit (?t @ fmt_zone z) = ?t" "dropWhile is_digit (?t @ fmt_zone z) = fmt_zone z"
    using digits fmt_zone_nondigit [OF z] by (simp_all add: takeWhile_append dropWhile_append z)
  have "?t \<noteq> []" using val False by (auto simp: parseNanoseconds_def digits_val_def)
  then obtain d t where t: "?t = d # t" by (cases ?t) auto
  have "fmt_frac ns @ fmt_zone z = CHR ''.'' # d # t @ fmt_zone z" using False t by (simp add: fmt_frac_def)
  moreover have "parseNanoseconds ?t = nat ns" using val by simp
  moreover have "is_digit d" using digits t by simp
  ultimately show ?thesis using span unfolding t by (simp add: getfrac_def)
qed

lemma getzone_fmt:
  assumes "\<bar>z\<bar> < 86400" "z mod 60 = 0"
  shows "getzone (fmt_zone z) = Some (z, [])"
proof (cases "z = 0")
  case True
  then show ?thesis by (simp add: fmt_zone_def getzone_def)
next
  case False
  define u where u: "u = \<bar>z\<bar> div 60"
  have abs: "\<bar>z\<bar> = 60 * u" using assms(2) by (simp add: u mod_0_imp_dvd)
  have ub: "0 \<le> u" "u < 1440" "u \<noteq> 0" using abs assms(1) False by linarith+
  have b: "0 \<le> u div 60" "u div 60 < 100" "0 \<le> u mod 60" "u mod 60 < 100" "u \<noteq> 0" "u div 60 \<le> 24" "u mod 60 \<le> 60"
    using ub pos_mod_bound [of 60 u] by linarith+
  have h: "\<bar>z\<bar> div 3600 = u div 60" unfolding abs by simp
  have n: "getnum True (pad_digits 2 (u div 60)) = Some (nat (u div 60), [])"
    "getnum True (pad_digits 2 (u mod 60)) = Some (nat (u mod 60), [])"
    using getnum_pad [OF b(1,2), of True "[]"] getnum_pad [OF b(3,4), of True "[]"] by simp_all
  obtain a1 a2 b1 b2 where ab: "pad_digits 2 (u div 60) = [a1, a2]" "pad_digits 2 (u mod 60) = [b1, b2]"
    by (simp add: pad_2)
  have f: "fmt_zone z = (if z < 0 then CHR ''-'' else CHR ''+'') # [a1, a2, CHR '':'', b1, b2]"
    using False b(5) by (simp add: fmt_zone_def h ab flip: u)
  have i: "int (nat (u div 60)) = u div 60" "int (nat (u mod 60)) = u mod 60" using b(1,3) by simp_all
  have val: "int ((nat (u div 60) * 60 + nat (u mod 60)) * 60) = \<bar>z\<bar>"
    by (simp only: of_nat_mult of_nat_add of_nat_numeral i div_mult_mod_eq) (simp add: abs)
  have "\<not> (24 < nat (u div 60) \<or> 60 < nat (u mod 60))" using b(6,7) by linarith
  with n val show ?thesis unfolding f ab by (cases "z < 0") (simp_all add: getzone_def)
qed

subsection \<open>Dates\<close>

lemma civil_year_leap:
  assumes "civil_year d = (y, 365)"
  shows "is_leap y"
proof -
  define n400 d1 n100 d2 n4 d3 n1 where defs: "n400 = d div 146097" "d1 = d mod 146097"
    "n100 = min 3 (d1 div 36524)" "d2 = d1 - 36524 * n100" "n4 = d2 div 1461" "d3 = d2 mod 1461"
    "n1 = min 3 (d3 div 365)"
  have y: "y = 1 + 400 * n400 + 100 * n100 + 4 * n4 + n1" and yd: "nat (d3 - 365 * n1) = 365"
    using assms unfolding civil_year_def Let_def defs [symmetric] by simp_all
  have d1: "0 \<le> d1" "d1 \<le> 4 * 36524" unfolding defs(2) using pos_mod_bound [of 146097 d] by simp_all
  have n100: "0 \<le> n100" "n100 \<le> 3" "0 \<le> d2" "d2 \<le> 36524"
    unfolding defs(3,4) by (rule capped_div [OF d1(1) _ d1(2)]; simp)+
  have d3: "0 \<le> d3" "d3 \<le> 1460" unfolding defs(6) using pos_mod_bound [of 1461 d2] by simp_all
  have "d3 div 365 \<le> 3 \<Longrightarrow> d3 - 365 * n1 = d3 mod 365"
    unfolding defs(7) by (simp add: min_absorb2 minus_mult_div_eq_mod)
  then have "\<not> d3 div 365 \<le> 3" using yd pos_mod_bound [of 365 d3] by auto
  then have n1: "n1 = 3" unfolding defs(7) by simp
  then have d3': "d3 = 1460" using yd d3 by simp
  then have n4: "d2 = 1461 * n4 + 1460" unfolding defs(5,6) using mult_div_mod_eq [of 1461 d2] by linarith
  then have n4b: "0 \<le> n4" "n4 \<le> 24" using n100(3,4) by linarith+
  have y4: "y = 100 * (4 * n400 + n100) + 4 * (n4 + 1)" using y n1 by simp
  show ?thesis
  proof (cases "n4 = 24")
    case True
    then have "d1 = 36524 * (n100 + 1)" using n4 defs(4) by simp
    then have "d1 div 36524 = n100 + 1" by simp
    then have "n100 = 3" using defs(3) by simp
    with y4 True have "y = 400 * (n400 + 1)" by simp
    then show ?thesis by (simp add: is_leap_def)
  next
    case False
    with n4b have "y mod 100 = 4 * (n4 + 1)" by (intro int_mod_pos_eq [OF y4]) simp_all
    moreover have "y = 4 * (25 * (4 * n400 + n100) + n4 + 1)" using y4 by simp
    then have "y mod 4 = 0" by (metis mod_mult_self1_is_0)
    ultimately show ?thesis using n4b(1) by (simp add: is_leap_def)
  qed
qed

lemma length_month_lengths: "length (month_lengths l) = 12"
  by (simp add: month_lengths_def)

lemma yday_in_year:
  assumes "civil_year d = (y, yday)"
  shows "yday < sum_list (month_lengths (is_leap y))"
  using civil_year_inverse(2) [OF assms] civil_year_leap [of d y] assms
  by (cases "yday = 365") (auto simp: month_lengths_def)

lemma month_day_sum:
  "month_day ls m d = (mon, day) \<Longrightarrow> d < sum_list ls \<Longrightarrow>
   m \<le> mon \<and> mon - m < length ls \<and> sum_list (take (mon - m) ls) + day = d + 1 \<and> 1 \<le> day \<and> day \<le> ls ! (mon - m)"
proof (induction ls m d rule: month_day.induct)
  case (2 l ls m d)
  show ?case
  proof (cases "d < l")
    case False
    with 2 have "m + 1 \<le> mon \<and> mon - (m + 1) < length ls \<and> sum_list (take (mon - (m + 1)) ls) + day = d - l + 1
        \<and> 1 \<le> day \<and> day \<le> ls ! (mon - (m + 1))" by auto
    moreover from this have "mon - m = Suc (mon - (m + 1))" by linarith
    ultimately show ?thesis using False by auto
  qed (use 2 in auto)
qed simp

lemma sod_fields:
  fixes sod :: int
  assumes "0 \<le> sod" "sod < 86400"
  shows "0 \<le> sod div 3600" "sod div 3600 < 24" "0 \<le> sod div 60 mod 60" "sod div 60 mod 60 < 60"
    "0 \<le> sod mod 60" "sod mod 60 < 60" "sod div 3600 * 3600 + sod div 60 mod 60 * 60 + sod mod 60 = sod"
proof -
  show "0 \<le> sod div 3600" using assms(1) by (simp add: pos_imp_zdiv_nonneg_iff)
  show "sod div 3600 < 24" using assms(2) by (simp add: div_less_iff_less_mult)
  show "0 \<le> sod div 60 mod 60" "sod div 60 mod 60 < 60" "0 \<le> sod mod 60" "sod mod 60 < 60" by simp_all
  have "sod div 3600 = sod div 60 div 60" by (simp flip: zdiv_zmult2_eq)
  then show "sod div 3600 * 3600 + sod div 60 mod 60 * 60 + sod mod 60 = sod"
    using div_mult_mod_eq [of "sod div 60" 60] div_mult_mod_eq [of sod 60] by linarith
qed

lemma parse_fields:
  assumes "0 \<le> y" "y < 10000" "1 \<le> mon" "mon \<le> 12" "1 \<le> day" "day < 100" "day \<le> daysIn mon y"
    and "0 \<le> h" "h < 24" "0 \<le> mi" "mi < 60" "0 \<le> se" "se < 60" "0 \<le> ns" "ns < 10 ^ 9"
    and "\<bar>off\<bar> < 86400" "off mod 60 = 0"
  shows "parse_RFC3339 (pad_digits 4 y @ ''-'' @ pad_digits 2 (int mon) @ ''-'' @ pad_digits 2 (int day)
       @ ''T'' @ pad_digits 2 h @ '':'' @ pad_digits 2 mi @ '':'' @ pad_digits 2 se @ fmt_frac ns @ fmt_zone off)
    = Some \<lparr>wall = (date_unix y mon day (nat h) (nat mi) (nat se) - off) * 10 ^ 9 + ns, zone = off\<rparr>"
proof -
  have n: "int mon < 100" "h < 100" "mi < 100" "se < 100" "int day < 100" using assms by linarith+
  note fields = getyear_pad [OF assms(1,2)] getnum_pad [OF of_nat_0_le_iff n(1)] getnum_pad [OF of_nat_0_le_iff n(5)]
    getnum_pad [OF assms(8) n(2)] getnum_pad [OF assms(10) n(3)] getnum_pad [OF assms(12) n(4)]
    getfrac_fmt [OF assms(14,15)] getzone_fmt [OF assms(16,17)]
  have ok: "nat h < 24" "nat mi < 60" "nat se < 60" "int (nat y) = y" "int (nat ns) = ns" "nat (int mon) = mon" "nat (int day) = day"
    using assms by linarith+
  show ?thesis
    unfolding parse_RFC3339_def
    by (simp only: append.simps fields expect_hit bind.simps prod.case fst_conv snd_conv ok assms(3-5,7) simp_thms if_True)
qed

text \<open>Parsing inverts formatting.\<close>

lemma parse_fmt_time:
  assumes "fmt_time t = Some s" and "zone t mod 60 = 0"
  shows "parse_RFC3339 s = Some t"
proof -
  from assms(1) obtain y yday mon day sod where f: "time_year_yday t = (y, yday)"
    "month_day (month_lengths (is_leap y)) 1 yday = (mon, day)" "sod = local_sec t mod 86400"
    "0 \<le> y" "y \<le> 9999" "\<bar>zone t\<bar> < 86400"
    and s: "s = fmt_fields y mon day sod (wall t mod 10 ^ 9) (zone t)" by (rule fmt_timeE)
  have cy: "civil_year (local_sec t div 86400 + 719162) = (y, yday)" using f(1) by (simp add: time_year_yday_def)
  note sums = month_day_sum [OF f(2) yday_in_year [OF cy], unfolded length_month_lengths, folded daysIn_def]
  have md: "1 \<le> mon" "mon \<le> 12" "sum_list (take (mon - 1) (month_lengths (is_leap y))) + day = yday + 1" "1 \<le> day"
    "day \<le> daysIn mon y"
    using sums by (elim conjE, assumption | elim conjE, linarith)+
  have sod: "0 \<le> sod" "sod < 86400" using f(3) by simp_all
  note h = sod_fields [OF sod]
  have "y < 10000" "0 \<le> wall t mod 10 ^ 9" "wall t mod 10 ^ 9 < 10 ^ 9" using f(5) by simp_all
  note parse = parse_fields [OF f(4) this(1) md(1,2,4) date_fields_bounded(2) [OF f(1,2)] md(5) h(1-6) this(2,3) f(6) assms(2)]
  define Q where Q: "Q = 365 * (y - 1) + (y - 1) div 4 - (y - 1) div 100 + (y - 1) div 400"
  have d: "local_sec t div 86400 + 719162 = Q + int yday" using civil_year_inverse(1) [OF cy] unfolding Q .
  have i: "int (nat (sod div 3600)) = sod div 3600" "int (nat (sod div 60 mod 60)) = sod div 60 mod 60"
    "int (nat (sod mod 60)) = sod mod 60"
    using h(1,3,5) by simp_all
  have "Q + int (sum_list (take (mon - 1) (month_lengths (is_leap y)))) + int day - 1 - 719162 = local_sec t div 86400"
    using d md(3) by linarith
  then have "date_unix y mon day (nat (sod div 3600)) (nat (sod div 60 mod 60)) (nat (sod mod 60))
      = (local_sec t div 86400) * 86400 + sod"
    unfolding date_unix_def Q [symmetric] by (simp only: of_nat_add of_nat_mult of_nat_numeral i h(7))
  also have "\<dots> = local_sec t" unfolding f(3) by simp
  finally have "date_unix y mon day (nat (sod div 3600)) (nat (sod div 60 mod 60)) (nat (sod mod 60)) - zone t = wall t div 10 ^ 9"
    unfolding local_sec_def by linarith
  then show ?thesis unfolding s fmt_fields_def parse by (simp only: div_mult_mod_eq) simp
qed

end
