(* ===== verification/Wire.thy ===== *)
theory Wire
  imports Envelope JsonDecode TimeParse
begin

text \<open>
  Decoding an \<open>AttestationEnvelope\<close> (\<open>src/protocol/types.go\<close>) from JSON, as \<open>json.Unmarshal\<close> does it: times
  by \<open>Time.UnmarshalJSON\<close> and byte slices by base64 with padding, or as arrays of numbers. A time is
  read from the unescaped text; Go reads the literal and refuses one that is written with escapes.

  The result: decoding inverts encoding.
\<close>

definition dec_time :: "json \<Rightarrow> time \<Rightarrow> time option" where
  "dec_time v old = (case v of JNull \<Rightarrow> Some old | JStr s \<Rightarrow> parse_RFC3339 s | _ \<Rightarrow> None)"

definition b64_Std_Decode :: "string \<Rightarrow> bytes option" where
  "b64_Std_Decode s =
     (let t = filter (\<lambda>c. c \<noteq> CHR 0x0A \<and> c \<noteq> CHR 0x0D) s;
          body = takeWhile (\<lambda>c. c \<noteq> CHR ''='') t; pad = dropWhile (\<lambda>c. c \<noteq> CHR ''='') t
      in if pad = replicate ((4 - length body mod 4) mod 4) (CHR ''='') then b64_Raw_Decode b64_std_alphabet body
         else None)"

definition dec_byte :: "json \<Rightarrow> char \<Rightarrow> char option" where
  "dec_byte v old =
     (case v of JNull \<Rightarrow> Some old
      | JNum i \<Rightarrow> if 0 \<le> i \<and> i < 256 then Some (char_of (nat i)) else None
      | _ \<Rightarrow> None)"

definition dec_bytes :: "json \<Rightarrow> char slice \<Rightarrow> char slice option" where
  "dec_bytes v old =
     (case v of JStr s \<Rightarrow> map_option Some (b64_Std_Decode s) | _ \<Rightarrow> dec_slice dec_byte (CHR 0x00) v old)"

definition zero_cap :: CapabilityToken where
  "zero_cap = \<lparr>Cap_ID = [], Cap_SigilID = [], Cap_Scope = [], Cap_IssuedAt = zero_time, Cap_ExpiresAt = zero_time,
     Cap_Nonce = None\<rparr>"

definition dec_CapabilityToken :: "json \<Rightarrow> CapabilityToken \<Rightarrow> CapabilityToken option" where
  "dec_CapabilityToken = dec_struct False
     [fld ''id'' dec_string Cap_ID Cap_ID_update, fld ''sigil_id'' dec_string Cap_SigilID Cap_SigilID_update,
      fld ''scope'' dec_string Cap_Scope Cap_Scope_update, fld ''issued_at'' dec_time Cap_IssuedAt Cap_IssuedAt_update,
      fld ''expires_at'' dec_time Cap_ExpiresAt Cap_ExpiresAt_update, fld ''nonce'' dec_bytes Cap_Nonce Cap_Nonce_update]"

definition dec_AttestationEnvelope :: "json \<Rightarrow> AttestationEnvelope \<Rightarrow> AttestationEnvelope option" where
  "dec_AttestationEnvelope = dec_struct False
     [fld ''version'' dec_string Env_Version Env_Version_update, fld ''sigil_id'' dec_string Env_SigilID Env_SigilID_update,
      fld ''caps'' (dec_slice dec_CapabilityToken zero_cap) Env_Caps Env_Caps_update,
      fld ''issuer'' dec_string Env_Issuer Env_Issuer_update, fld ''issued_at'' dec_time Env_IssuedAt Env_IssuedAt_update,
      fld ''expires_at'' dec_time Env_ExpiresAt Env_ExpiresAt_update,
      fld ''signature'' dec_bytes Env_Signature Env_Signature_update]"

definition Unmarshal_AttestationEnvelope :: "bytes \<Rightarrow> AttestationEnvelope option" where
  "Unmarshal_AttestationEnvelope raw =
     Option.bind (json_Parse raw) (\<lambda>v. dec_AttestationEnvelope v
       \<lparr>Env_Version = [], Env_SigilID = [], Env_Caps = None, Env_Issuer = [], Env_IssuedAt = zero_time,
        Env_ExpiresAt = zero_time, Env_Signature = None\<rparr>)"

subsection \<open>Base64\<close>

lemma b64_std_chars:
  assumes "c \<in> set (b64_Raw_Encode b64_std_alphabet bs)"
  shows "c \<noteq> CHR ''='' \<and> c \<noteq> CHR 0x0A \<and> c \<noteq> CHR 0x0D"
proof -
  have "list_all (\<lambda>c. c \<noteq> CHR ''='' \<and> c \<noteq> CHR 0x0A \<and> c \<noteq> CHR 0x0D) b64_std_alphabet" by code_simp
  moreover have "c \<in> set b64_std_alphabet"
    using assms distinct_b64_std by (auto simp: b64_Raw_Encode_def dest!: b64_digits_less)
  ultimately show ?thesis by (simp only: list_all_iff) blast
qed

lemma b64_std_Raw_Decode_Encode: "b64_Raw_Decode b64_std_alphabet (b64_Raw_Encode b64_std_alphabet bs) = Some bs"
proof -
  let ?s = "b64_Raw_Encode b64_std_alphabet bs"
  have "filter (\<lambda>c. c \<noteq> CHR 0x0A \<and> c \<noteq> CHR 0x0D) ?s = ?s"
    using b64_std_chars by (intro filter_True) blast
  moreover have "map (b64_value b64_std_alphabet) ?s = map Some (b64_digits bs)"
    using distinct_b64_std by (auto simp: b64_Raw_Encode_def b64_value_nth b64_digits_less)
  ultimately show ?thesis by (simp add: b64_Raw_Decode_def those_map_Some)
qed

lemma length_b64_digits: "(4 - length (b64_digits bs) mod 4) mod 4 = (3 - length bs mod 3) mod 3"
  by (induction bs rule: b64_digits.induct) simp_all

lemma b64_Std_Decode_Encode: "b64_Std_Decode (b64_Std_Encode bs) = Some bs"
proof -
  let ?r = "b64_Raw_Encode b64_std_alphabet bs" and ?p = "replicate ((3 - length bs mod 3) mod 3) (CHR ''='')"
  have "filter (\<lambda>c. c \<noteq> CHR 0x0A \<and> c \<noteq> CHR 0x0D) (?r @ ?p) = ?r @ ?p"
    using b64_std_chars by (intro filter_True) auto
  moreover have "takeWhile (\<lambda>c. c \<noteq> CHR ''='') (?r @ ?p) = ?r" "dropWhile (\<lambda>c. c \<noteq> CHR ''='') (?r @ ?p) = ?p"
    using b64_std_chars [of _ bs] by (simp_all add: takeWhile_append dropWhile_append)
  moreover have "length ?r = length (b64_digits bs)" by (simp add: b64_Raw_Encode_def)
  ultimately show ?thesis
    unfolding b64_Std_Decode_def b64_Std_Encode_def by (simp add: length_b64_digits b64_std_Raw_Decode_Encode)
qed

subsection \<open>Decoding inverts encoding\<close>

lemma dec_bytes_json: "dec_bytes (bytes_json b) old = Some b"
  by (cases b) (simp_all add: bytes_json_def dec_bytes_def dec_slice_def b64_Std_Decode_Encode)

lemma raw_bytes: "json_raw (bytes_json b) = bytes_json b"
  by (cases b) (simp_all add: bytes_json_def to_valid_utf8_id b64_valid_utf8)

lemma dec_time_fmt: "fmt_time t = Some s \<Longrightarrow> zone t mod 60 = 0 \<Longrightarrow> dec_time (JStr s) old = Some t"
  by (simp add: dec_time_def parse_fmt_time)

lemma fold_wire_names:
  "fold_name ''id'' = ''ID''" "fold_name ''sigil_id'' = ''SIGIL_ID''" "fold_name ''scope'' = ''SCOPE''"
  "fold_name ''issued_at'' = ''ISSUED_AT''" "fold_name ''expires_at'' = ''EXPIRES_AT''" "fold_name ''nonce'' = ''NONCE''"
  "fold_name ''version'' = ''VERSION''" "fold_name ''caps'' = ''CAPS''" "fold_name ''issuer'' = ''ISSUER''"
  "fold_name ''signature'' = ''SIGNATURE''"
  by code_simp+

lemma dec_cap_json:
  assumes "CapabilityToken_json c = Some v" and "cap_exact c"
  shows "dec_CapabilityToken v old = Some c" and "json_raw v = v"
proof -
  obtain ia ea where t: "fmt_time (Cap_IssuedAt c) = Some ia" "fmt_time (Cap_ExpiresAt c) = Some ea"
    and v: "v = JObj [(''id'', JStr (Cap_ID c)), (''sigil_id'', JStr (Cap_SigilID c)), (''scope'', JStr (Cap_Scope c)),
        (''issued_at'', JStr ia), (''expires_at'', JStr ea), (''nonce'', bytes_json (Cap_Nonce c))]"
    using assms(1) by (auto simp: CapabilityToken_json_def split: option.splits)
  have z: "zone (Cap_IssuedAt c) mod 60 = 0" "zone (Cap_ExpiresAt c) mod 60 = 0"
    and u: "valid_utf8 (Cap_ID c)" "valid_utf8 (Cap_SigilID c)" "valid_utf8 (Cap_Scope c)"
    using assms(2) by (simp_all add: cap_exact_def)
  show "dec_CapabilityToken v old = Some c"
    unfolding v dec_CapabilityToken_def dec_struct_def
    by (simp add: fld_def find_field_simps fold_wire_names dec_string_def dec_bytes_json dec_time_fmt [OF t(1) z(1)]
        dec_time_fmt [OF t(2) z(2)] del: fold_name.simps)
  show "json_raw v = v" unfolding v by (simp add: raw_bytes to_valid_utf8_id u fmt_time_clean [OF t(1)] fmt_time_clean [OF t(2)])
qed

lemma dec_caps_json:
  assumes "caps_json cs = Some v" and "list_all cap_exact (elems cs)"
  shows "dec_slice dec_CapabilityToken zero_cap v None = Some cs" and "json_raw v = v"
proof -
  have elems: "those (map CapabilityToken_json xs) = Some vs \<Longrightarrow> list_all cap_exact xs \<Longrightarrow>
      dec_elems dec_CapabilityToken zero_cap vs [] = Some xs \<and> map json_raw vs = vs" for xs vs
    by (induction xs arbitrary: vs) (auto split: option.splits simp: dec_cap_json)
  then show "dec_slice dec_CapabilityToken zero_cap v None = Some cs" "json_raw v = v"
    using assms by (auto simp: caps_json_def dec_slice_def split: option.splits)
qed

lemma Unmarshal_encoded:
  assumes "AttestationEnvelope_json e = Some v" and "env_exact e"
  shows "Unmarshal_AttestationEnvelope (json_Marshal v) = Some e"
proof -
  obtain cs ia ea where cs: "caps_json (Env_Caps e) = Some cs"
    and t: "fmt_time (Env_IssuedAt e) = Some ia" "fmt_time (Env_ExpiresAt e) = Some ea"
    and v: "v = JObj [(''version'', JStr (Env_Version e)), (''sigil_id'', JStr (Env_SigilID e)), (''caps'', cs),
        (''issuer'', JStr (Env_Issuer e)), (''issued_at'', JStr ia), (''expires_at'', JStr ea),
        (''signature'', bytes_json (Env_Signature e))]"
    using assms(1) by (auto simp: AttestationEnvelope_json_def split: option.splits)
  have z: "zone (Env_IssuedAt e) mod 60 = 0" "zone (Env_ExpiresAt e) mod 60 = 0"
    and u: "valid_utf8 (Env_Version e)" "valid_utf8 (Env_SigilID e)" "valid_utf8 (Env_Issuer e)"
    and caps: "list_all cap_exact (elems (Env_Caps e))"
    using assms(2) by (simp_all add: env_exact_def)
  have "json_nums_ok v" using assms(1) by (rule AttestationEnvelope_jsonE)
  moreover have "json_raw v = v"
    unfolding v
    by (simp add: to_valid_utf8_id u fmt_time_clean [OF t(1)] fmt_time_clean [OF t(2)] dec_caps_json(2) [OF cs caps] raw_bytes)
  ultimately have "json_Parse (json_Marshal v) = Some v" by (simp add: json_Parse_Marshal)
  then show ?thesis
    unfolding Unmarshal_AttestationEnvelope_def dec_AttestationEnvelope_def dec_struct_def
    by (simp add: v fld_def find_field_simps fold_wire_names dec_string_def dec_bytes_json dec_caps_json(1) [OF cs caps]
        dec_time_fmt [OF t(1) z(1)] dec_time_fmt [OF t(2) z(2)] del: fold_name.simps json_Marshal.simps)
qed

text \<open>
  C10. The wire format loses nothing: an envelope with text in UTF-8 and offsets of whole minutes, encoded
  to JSON and decoded again, is the same envelope, nil and empty slices included.
\<close>

theorem wire_roundtrip:
  assumes "AttestationEnvelope_json e = Some v" and "env_exact e"
  shows "Unmarshal_AttestationEnvelope (json_Marshal v) = Some e"
  by (rule Unmarshal_encoded [OF assms])

definition demo_wire :: AttestationEnvelope where
  "demo_wire = \<lparr>Env_Version = Version, Env_SigilID = ''s'', Env_Caps = Some [zero_cap], Env_Issuer = ''i'',
     Env_IssuedAt = utc_time 0, Env_ExpiresAt = utc_time 10, Env_Signature = Some []\<rparr>"

theorem wire_roundtrip_witness:
  "\<exists>v. AttestationEnvelope_json demo_wire = Some v \<and> Unmarshal_AttestationEnvelope (json_Marshal v) = Some demo_wire"
proof -
  have "AttestationEnvelope_json demo_wire \<noteq> None" "env_exact demo_wire" by code_simp+
  with wire_roundtrip [of demo_wire] show ?thesis by auto
qed

end
