(* ===== verification/GoDuration.thy ===== *)
theory GoDuration
  imports GoTime Complex_Main
begin

text \<open>
  \<open>time.ParseDuration\<close>: a sign and a sequence of numbers with units. Whole numbers are 64-bit integers
  with the overflow checks of the source; a fraction is multiplied with its unit in \<open>float64\<close>, which is
  modelled by rounding the exact rational to 53 bits, to nearest and ties to even.

  The result: a whole number with a unit denotes that many units, up to the largest \<open>Duration\<close>.
\<close>

subsection \<open>Positive numbers in float64\<close>

fun bitlen :: "nat \<Rightarrow> nat" where
  "bitlen n = (if n = 0 then 0 else Suc (bitlen (n div 2)))"

declare bitlen.simps [simp del]

definition round_even :: "rat \<Rightarrow> int" where
  "round_even r =
     (let f = \<lfloor>r\<rfloor>; d = r - of_int f
      in if d < 1 / 2 \<or> d = 1 / 2 \<and> even f then f else f + 1)"

definition pow2 :: "int \<Rightarrow> rat" where
  "pow2 e = (if 0 \<le> e then 2 ^ nat e else 1 / 2 ^ nat (- e))"

definition fl64 :: "rat \<Rightarrow> rat" where
  "fl64 r =
     (if r = 0 then 0
      else let (p, q) = quotient_of r;
               e0 = int (bitlen (nat p)) - int (bitlen (nat q)) - 53;
               e = (if 2 ^ 53 \<le> r / pow2 e0 then e0 + 1 else e0)
           in of_int (round_even (r / pow2 e)) * pow2 e)"

subsection \<open>The parser\<close>

definition unitMap :: "(string \<times> nat) list" where
  "unitMap =
     [(''ns'', 1), (''us'', 10 ^ 3), ([CHR 0xC2, CHR 0xB5, CHR ''s''], 10 ^ 3), ([CHR 0xCE, CHR 0xBC, CHR ''s''], 10 ^ 3),
      (''ms'', 10 ^ 6), (''s'', 10 ^ 9), (''m'', 60 * 10 ^ 9), (''h'', 3600 * 10 ^ 9)]"

definition time_quote :: "string \<Rightarrow> string" where
  "time_quote s =
     [dquote] @ concat (map (\<lambda>c.
        if byte c < 0x20 \<or> 0x80 \<le> byte c then [bslash, CHR ''x'', hex_digit (byte c div 16), hex_digit (byte c mod 16)]
        else if c = dquote \<or> c = bslash then [bslash, c] else [c]) s) @ [dquote]"

definition digit_val :: "char \<Rightarrow> nat" where "digit_val c = byte c - 48"

fun leadingInt_from :: "nat \<Rightarrow> string \<Rightarrow> (nat \<times> string) option" where
  "leadingInt_from x [] = Some (x, [])"
| "leadingInt_from x (c # s) =
     (if \<not> is_digit c then Some (x, c # s)
      else if 2 ^ 63 div 10 < x then None
      else let y = x * 10 + digit_val c in if 2 ^ 63 < y then None else leadingInt_from y s)"

fun leadingFraction_from :: "nat \<Rightarrow> rat \<Rightarrow> bool \<Rightarrow> string \<Rightarrow> nat \<times> rat \<times> string" where
  "leadingFraction_from x scale overflow [] = (x, scale, [])"
| "leadingFraction_from x scale overflow (c # s) =
     (if \<not> is_digit c then (x, scale, c # s)
      else if overflow then leadingFraction_from x scale True s
      else if (2 ^ 63 - 1) div 10 < x then leadingFraction_from x scale True s
      else let y = x * 10 + digit_val c
           in if 2 ^ 63 < y then leadingFraction_from x scale True s
              else leadingFraction_from y (fl64 (scale * 10)) False s)"

text \<open>The digits after the point, if there is one.\<close>

definition fraction_part :: "string \<Rightarrow> nat \<times> rat \<times> string \<times> bool" where
  "fraction_part s =
     (case s of
        [] \<Rightarrow> (0, 1, s, False)
      | c # t \<Rightarrow>
          if c = CHR ''.'' then
            (let (f, scale, r) = leadingFraction_from 0 1 False t in (f, scale, r, length t \<noteq> length r))
          else (0, 1, s, False))"

definition unit_char :: "char \<Rightarrow> bool" where
  "unit_char c \<longleftrightarrow> c \<noteq> CHR ''.'' \<and> \<not> is_digit c"

definition scaled :: "nat \<Rightarrow> nat \<Rightarrow> rat \<Rightarrow> nat" where
  "scaled f unit scale = nat \<lfloor>fl64 (fl64 (of_nat f) * fl64 (of_nat unit / scale))\<rfloor>"

text \<open>One number with its unit: the error (as a function of the whole text), or the nanoseconds and the
  rest.\<close>

definition parse_unit :: "string \<Rightarrow> (string \<Rightarrow> string) + nat \<times> string" where
  "parse_unit s =
     (let invalid = (\<lambda>orig. ''time: invalid duration '' @ time_quote orig)
      in if unit_char (hd s) then Inl invalid
         else case leadingInt_from 0 s of
                None \<Rightarrow> Inl invalid
              | Some (v, s1) \<Rightarrow>
                  (let (f, scale, s2, post) = fraction_part s1; u = takeWhile unit_char s2
                   in if length s = length s1 \<and> \<not> post then Inl invalid
                      else if u = [] then Inl (\<lambda>orig. ''time: missing unit in duration '' @ time_quote orig)
                      else case map_of unitMap u of
                             None \<Rightarrow> Inl (\<lambda>orig. ''time: unknown unit '' @ time_quote u @ '' in duration '' @ time_quote orig)
                           | Some unit \<Rightarrow>
                               if 2 ^ 63 div unit < v then Inl invalid
                               else (let w = v * unit + (if 0 < f then scaled f unit scale else 0)
                                     in if 2 ^ 63 < w then Inl invalid else Inr (w, dropWhile unit_char s2))))"

lemma leadingInt_shorter: "leadingInt_from x s = Some (v, r) \<Longrightarrow> length r \<le> length s"
  by (induction x s rule: leadingInt_from.induct) (auto simp: Let_def split: if_splits)

lemma leadingFraction_shorter: "leadingFraction_from x sc ov s = (f, sc', r) \<Longrightarrow> length r \<le> length s"
  by (induction x sc ov s rule: leadingFraction_from.induct) (auto simp: Let_def split: if_splits)

lemma fraction_part_shorter: "fraction_part s = (f, sc, r, post) \<Longrightarrow> length r \<le> length s"
  by (auto simp: fraction_part_def Let_def split: list.splits if_splits prod.splits dest: leadingFraction_shorter)

lemma parse_unit_shorter:
  assumes "parse_unit s = Inr (w, r)"
  shows "length r < length s"
proof -
  from assms obtain v s1 f scale s2 post where s1: "leadingInt_from 0 s = Some (v, s1)"
    and s2: "fraction_part s1 = (f, scale, s2, post)" and r: "takeWhile unit_char s2 \<noteq> []" "r = dropWhile unit_char s2"
    by (auto simp: parse_unit_def Let_def split: if_splits option.splits prod.splits)
  have "length (takeWhile unit_char s2) + length r = length s2"
    unfolding r by (metis length_append takeWhile_dropWhile_id)
  with r(1) leadingInt_shorter [OF s1] fraction_part_shorter [OF s2] show ?thesis
    by (cases "takeWhile unit_char s2") auto
qed

text \<open>\<open>d\<close> is the sum so far, a 64-bit unsigned integer.\<close>

function parse_units :: "nat \<Rightarrow> string \<Rightarrow> (string \<Rightarrow> string) + nat" where
  "parse_units d s =
     (if s = [] then Inr d
      else case parse_unit s of
             Inl e \<Rightarrow> Inl e
           | Inr (w, r) \<Rightarrow>
               (let d' = (d + w) mod 2 ^ 64
                in if 2 ^ 63 < d' then Inl (\<lambda>orig. ''time: invalid duration '' @ time_quote orig)
                   else parse_units d' r))"
  by auto
termination
  by (relation "measure (length \<circ> snd)") (auto dest: parse_unit_shorter)

declare parse_units.simps [simp del]

definition ParseDuration :: "string \<Rightarrow> string + duration" where
  "ParseDuration orig =
     (let signed = (orig \<noteq> [] \<and> (hd orig = CHR ''-'' \<or> hd orig = CHR ''+''));
          neg = (signed \<and> hd orig = CHR ''-''); s = (if signed then tl orig else orig);
          invalid = ''time: invalid duration '' @ time_quote orig
      in if s = ''0'' then Inr 0
         else if s = [] then Inl invalid
         else case parse_units 0 s of
                Inl e \<Rightarrow> Inl (e orig)
              | Inr d \<Rightarrow>
                  if neg then Inr (- of_nat d)
                  else if 2 ^ 63 - 1 < d then Inl invalid else Inr (of_nat d))"

subsection \<open>Whole numbers with a unit\<close>

lemma leadingInt_digits:
  assumes "\<forall>c \<in> set ds. is_digit c" and "r \<noteq> []" "\<not> is_digit (hd r)"
    and "digits_val (xs @ ds) \<le> 2 ^ 63"
  shows "leadingInt_from (digits_val xs) (ds @ r) = Some (digits_val (xs @ ds), r)"
  using assms(1,4)
proof (induction ds arbitrary: xs)
  case Nil
  then show ?case using assms(2,3) by (cases r) auto
next
  case (Cons c ds)
  have mono: "digits_val ys \<le> digits_val (ys @ zs)" for ys zs
  proof (induction zs rule: rev_induct)
    case (snoc z zs)
    then show ?case by (simp add: digits_val_snoc flip: append_assoc)
  qed simp
  have y: "digits_val (xs @ [c]) = digits_val xs * 10 + digit_val c" by (simp add: digits_val_snoc digit_val_def)
  have "digits_val (xs @ [c]) \<le> 2 ^ 63" using mono [of "xs @ [c]" ds] Cons.prems(2) by simp
  moreover from this have "\<not> 2 ^ 63 div 10 < digits_val xs" unfolding y by simp
  ultimately show ?case using Cons.IH [of "xs @ [c]"] Cons.prems y by (simp add: Let_def)
qed

lemma unitMap_facts:
  "list_all (\<lambda>(u, unit). u \<noteq> [] \<and> list_all unit_char u \<and> map_of unitMap u = Some unit \<and> 0 < unit) unitMap"
  by (simp add: unitMap_def unit_char_def is_digit_def)

lemma unitMapD:
  assumes "(u, unit) \<in> set unitMap"
  shows "u \<noteq> []" "\<forall>c \<in> set u. unit_char c" "map_of unitMap u = Some unit" "0 < unit"
  using unitMap_facts assms unfolding list_all_iff by auto

lemma parse_unit_whole:
  assumes "(u, unit) \<in> set unitMap" and "n * unit \<le> 2 ^ 63"
  shows "parse_unit (nat_digits n @ u) = Inr (n * unit, [])"
proof -
  note u = unitMapD [OF assms(1)]
  then have hu: "unit_char (hd u)" "takeWhile unit_char u = u" "dropWhile unit_char u = []"
    by (simp_all add: takeWhile_eq_all_conv dropWhile_eq_Nil_conv)
  then have nd: "\<not> is_digit (hd u)" "hd u \<noteq> CHR ''.''" by (simp_all add: unit_char_def)
  have digits: "\<forall>c \<in> set (nat_digits n). is_digit c" using nat_digits_are_digits by blast
  obtain c cs where n: "nat_digits n = c # cs" "is_digit c" by (rule digit_head)
  have le: "n \<le> 2 ^ 63 div unit" using assms(2) u(4) by (simp add: less_eq_div_iff_mult_less_eq)
  also have "\<dots> \<le> 2 ^ 63" by (rule div_le_dividend)
  finally have "leadingInt_from (digits_val []) (nat_digits n @ u) = Some (digits_val ([] @ nat_digits n), u)"
    using digits u(1) nd(1) by (intro leadingInt_digits) (simp_all add: digits_val_nat_digits)
  then have li: "leadingInt_from 0 (nat_digits n @ u) = Some (n, u)" by (simp add: digits_val_nat_digits) (simp add: digits_val_def)
  have fp: "fraction_part u = (0, 1, u, False)" using u(1) nd(2) by (cases u) (simp_all add: fraction_part_def)
  have "\<not> unit_char (hd (nat_digits n @ u))" using n by (simp add: unit_char_def)
  moreover have "length (nat_digits n @ u) \<noteq> length u" using n(1) by simp
  ultimately show ?thesis using le assms(2) by (simp add: parse_unit_def Let_def li fp hu u(1,3))
qed

lemma parse_units_Nil: "parse_units d [] = Inr d"
  by (subst parse_units.simps) simp

text \<open>
  A duration written as a whole number and a unit is parsed to that many units, up to the largest
  \<open>Duration\<close>; and to the opposite when a minus sign precedes it.
\<close>

lemma ParseDuration_whole:
  assumes "(u, unit) \<in> set unitMap" and "n * unit < 2 ^ 63"
  shows "ParseDuration (nat_digits n @ u) = Inr (of_nat (n * unit))
    \<and> ParseDuration (CHR ''-'' # nat_digits n @ u) = Inr (- of_nat (n * unit))"
proof -
  obtain c cs where n: "nat_digits n = c # cs" "is_digit c" by (rule digit_head)
  then have c: "c \<noteq> CHR ''-''" "c \<noteq> CHR ''+''" by (auto simp: is_digit_def)
  have "\<not> unit_char (CHR ''0'')" by code_simp
  moreover have "unit_char (last u)" using unitMapD(1,2) [OF assms(1)] by simp
  ultimately have "last u \<noteq> CHR ''0''" by metis
  then have z: "nat_digits n @ u \<noteq> ''0''" using unitMapD(1) [OF assms(1)] by (metis last_ConsL last_appendR)
  have "parse_units 0 (nat_digits n @ u) = Inr (n * unit)"
    using parse_unit_whole [OF assms(1), of n] assms(2) n(1)
    by (subst parse_units.simps) (simp add: Let_def parse_units_Nil)
  then show ?thesis using c z assms(2) unitMapD(1) [OF assms(1)] by (simp add: ParseDuration_def Let_def n(1))
qed

end
