(* ===== verification/Lifecycle.thy ===== *)
theory Lifecycle
  imports MemStore
begin

text \<open>
  A token from its issue to its verification over the in-memory store (\<open>src/broker/broker.go\<close>,
  \<open>src/store/mem.go\<close>): what the issuing calls leave unchanged, and the state after an envelope with one
  fresh token was accepted, and that it is refused the next time. The life-cycle properties and the demonstration rest on these.
\<close>

lemma IssueSigil_mem:
  assumes "IssueSigil mem_ops rd subject pubKey sexp meta b = (r, b1)"
  shows "ms_revokedIDs (bk_store b1) = ms_revokedIDs (bk_store b)" "ms_nonces (bk_store b1) = ms_nonces (bk_store b)"
    "bk_signerPub b1 = bk_signerPub b" "bk_signerPriv b1 = bk_signerPriv b"
    "\<exists>s. r = Inr s \<and> Sigil_ID s = rd_uuid rd 0 \<and> ms_sigils (bk_store b1) (Sigil_ID s) = Some s"
  using assms by (auto simp: IssueSigil_def MemStore_SaveSigil_def Publish_def Let_def)

lemma IssueCap_mem:
  assumes "IssueCap mem_ops rd sigilID scope cexp b = (Inr c, b1)"
  shows "ms_revokedIDs (bk_store b1) = ms_revokedIDs (bk_store b)" "ms_nonces (bk_store b1) = ms_nonces (bk_store b)"
    "bk_signerPub b1 = bk_signerPub b" "bk_signerPriv b1 = bk_signerPriv b"
    "Cap_ExpiresAt c = cexp" "Cap_Scope c = scope" "Cap_ID c = rd_uuid rd 0" "Cap_IssuedAt c = Time_UTC (rd_now rd 0)"
  using assms by (auto simp: IssueCap_def MemStore_GetSigil_def MemStore_SaveCap_def Let_def
      split: option.splits sum.splits)

lemma fresh_token_accepted:
  assumes "sig_ok ed (bk_signerPub b) env" and "Env_Caps env = Some [c]"
    and "ms_revokedIDs (bk_store b) (Env_SigilID env) = None" "ms_revokedIDs (bk_store b) (Cap_ID c) = None"
    and "ms_nonces (bk_store b) (hexEncodeNonce (Cap_Nonce c)) = None"
    and "\<not> Time_After (rd_now rd 0) (Env_ExpiresAt env)" "\<not> Time_After (rd_now rd 1) (Cap_ExpiresAt c)"
  shows "VerifyAttestation ed mem_ops rd env b =
    (Inr (), b\<lparr>bk_store := (bk_store b)\<lparr>ms_nonces := (ms_nonces (bk_store b))(hexEncodeNonce (Cap_Nonce c) \<mapsto> ())\<rparr>,
       bk_revocationAllowed := bk_revocationAllowed b + 1\<rparr>)"
  using assms(2-)
  by (simp add: VerifyAttestation_sig_ok [OF assms(1)] verify_signed_def MemStore_IsRevoked_def
      MemStore_TryRecordNonce_def Let_def verify_caps.simps)

lemma used_token_refused:
  assumes "sig_ok ed (bk_signerPub b) env" and "Env_Caps env = Some [c]"
    and "ms_revokedIDs (bk_store b) (Env_SigilID env) = None" "ms_revokedIDs (bk_store b) (Cap_ID c) = None"
    and "ms_nonces (bk_store b) (hexEncodeNonce (Cap_Nonce c)) = Some ()"
    and "\<not> Time_After (rd_now rd 0) (Env_ExpiresAt env)" "\<not> Time_After (rd_now rd 1) (Cap_ExpiresAt c)"
  shows "fst (VerifyAttestation ed mem_ops rd env b) = Inl (Sentinel ErrReplayAttack)"
  using assms(2-)
  by (simp add: VerifyAttestation_sig_ok [OF assms(1)] verify_signed_def MemStore_IsRevoked_def
      MemStore_TryRecordNonce_def Let_def verify_caps.simps)

end
