(* ===== verification/Cve.thy ===== *)
theory Cve
  imports JsonDecode Protocol
begin

text \<open>
  The vulnerability watcher of \<open>src/cve/watcher.go\<close>: reading the dependencies of a \<open>go.mod\<close> file and
  asking the OSV service about them in one batch.

  What a file or a response body yields is its bytes and the error that reading ends with, if any.
  The HTTP client and the text of the JSON decoder's errors are arguments; the context of a request
  is not \<open>nil\<close>, so that building the request cannot fail. A nil slice is the empty list.

  The result: over a \<open>go.mod\<close> file in the layout of the go command, and a service that answers query
  by query, the findings are exactly the vulnerable dependencies with their identifiers, in the
  order of the file.
\<close>

subsection \<open>The lines of a file\<close>

text \<open>
  \<open>bufio.Scanner\<close> with its default split function: a line loses one carriage return at its end, an
  empty line after the last newline is none, and a line that does not fit the buffer is an error.
\<close>

definition MaxScanTokenSize :: nat where "MaxScanTokenSize = 65536"

definition raw_lines :: "bytes \<Rightarrow> bytes list" where
  "raw_lines data =
     (let ls = strings_Split data (CHR 0x0A) in if last ls = [] then butlast ls else ls)"

definition drop_cr :: "bytes \<Rightarrow> bytes" where
  "drop_cr l = (if l \<noteq> [] \<and> last l = CHR 0x0D then butlast l else l)"

definition scan_lines :: "bytes \<Rightarrow> bytes list" where
  "scan_lines data = map drop_cr (takeWhile (\<lambda>l. length l < MaxScanTokenSize) (raw_lines data))"

definition scan_err :: "bytes \<Rightarrow> string option \<Rightarrow> string option" where
  "scan_err data readErr =
     (if list_all (\<lambda>l. length l < MaxScanTokenSize) (raw_lines data) then readErr
      else Some ''bufio.Scanner: token too long'')"

subsection \<open>The go.mod file\<close>

record Dep =
  Dep_Name :: string
  Dep_Version :: string

definition parseDep :: "string \<Rightarrow> Dep option" where
  "parseDep line =
     (let line = (case strings_Index line ''//'' of Some idx \<Rightarrow> TrimSpace (take idx line) | None \<Rightarrow> line);
          fs = strings_Fields line
      in if length fs < 2 then None else Some \<lparr>Dep_Name = fs ! 0, Dep_Version = fs ! 1\<rparr>)"

text \<open>The variables of the loop: the module's name, the dependencies so far, and whether the line is
  inside a block of requirements.\<close>

type_synonym gomod = "string \<times> Dep list \<times> bool"

definition gomod_line :: "bytes \<Rightarrow> gomod \<Rightarrow> gomod" where
  "gomod_line text0 st =
     (let line = TrimSpace text0; (moduleName, deps, inRequireBlock) = st
      in if HasPrefix line ''module '' then (TrimSpace (TrimPrefix line ''module ''), deps, inRequireBlock)
         else if line = ''require ('' then (moduleName, deps, True)
         else if inRequireBlock \<and> line = '')'' then (moduleName, deps, False)
         else if HasPrefix line ''require '' then
           (case parseDep (TrimPrefix line ''require '') of
              Some dep \<Rightarrow> (moduleName, deps @ [dep], inRequireBlock)
            | None \<Rightarrow> st)
         else if inRequireBlock then
           (case parseDep line of Some dep \<Rightarrow> (moduleName, deps @ [dep], True) | None \<Rightarrow> st)
         else st)"

definition ParseGoMod :: "(string \<Rightarrow> string + bytes \<times> string option) \<Rightarrow> string \<Rightarrow> goerror + string \<times> Dep list" where
  "ParseGoMod open_file gomodPath =
     (case open_file gomodPath of
        Inl e \<Rightarrow> Inl (Wrap ''open go.mod: '' (ErrText e))
      | Inr (data, readErr) \<Rightarrow>
          (case scan_err data readErr of
             Some e \<Rightarrow> Inl (Wrap ''scan go.mod: '' (ErrText e))
           | None \<Rightarrow> (let (moduleName, deps, _) = fold gomod_line (scan_lines data) ([], [], False)
                      in Inr (moduleName, deps))))"

subsection \<open>The OSV query\<close>

definition osvBatchURL :: string where "osvBatchURL = ''https://api.osv.dev/v1/querybatch''"

record Finding =
  Finding_Dep :: Dep
  Finding_VulnIDs :: "string list"

record response =
  resp_StatusCode :: nat
  resp_Body :: bytes
  resp_ReadErr :: "string option"

text \<open>A client sends a POST of JSON to an address.\<close>

type_synonym client = "string \<Rightarrow> bytes \<Rightarrow> string + response"

record Watcher =
  w_client :: client

definition New_Watcher :: "client \<Rightarrow> client option \<Rightarrow> Watcher" where
  "New_Watcher DefaultClient httpClient =
     \<lparr>w_client = (case httpClient of None \<Rightarrow> DefaultClient | Some c \<Rightarrow> c)\<rparr>"

definition osvPackage_json :: "string \<Rightarrow> json" where
  "osvPackage_json name = JObj [(''name'', JStr name), (''ecosystem'', JStr ''Go'')]"

definition osvPackageQuery_json :: "Dep \<Rightarrow> json" where
  "osvPackageQuery_json d = JObj [(''package'', osvPackage_json (Dep_Name d)), (''version'', JStr (Dep_Version d))]"

definition osvQuery_json :: "Dep list \<Rightarrow> json" where
  "osvQuery_json deps = JObj [(''queries'', JArr (map osvPackageQuery_json deps))]"

definition dec_osvVuln :: "json \<Rightarrow> string \<Rightarrow> string option" where
  "dec_osvVuln = dec_struct False [(''id'', dec_string)]"

definition dec_osvResult :: "json \<Rightarrow> string slice \<Rightarrow> string slice option" where
  "dec_osvResult = dec_struct False [(''vulns'', dec_slice dec_osvVuln [])]"

definition dec_osvBatchResponse :: "json \<Rightarrow> string slice slice \<Rightarrow> string slice slice option" where
  "dec_osvBatchResponse = dec_struct False [(''results'', dec_slice dec_osvResult None)]"

fun osv_findings :: "Dep list \<Rightarrow> string slice list \<Rightarrow> Finding list" where
  "osv_findings (d # deps) (r # results) =
     (if elems r = [] then [] else [\<lparr>Finding_Dep = d, Finding_VulnIDs = elems r\<rparr>]) @ osv_findings deps results"
| "osv_findings deps results = []"

definition CheckBatch :: "(response \<Rightarrow> string) \<Rightarrow> Watcher \<Rightarrow> Dep list \<Rightarrow> goerror + Finding list" where
  "CheckBatch json_err w deps =
     (if deps = [] then Inr []
      else case w_client w osvBatchURL (json_Marshal (osvQuery_json deps)) of
             Inl e \<Rightarrow> Inl (Wrap ''osv request: '' (ErrText e))
           | Inr resp \<Rightarrow>
               if resp_StatusCode resp \<noteq> 200 then
                 Inl (ErrText (''osv returned status '' @ int_digits (int (resp_StatusCode resp)) @ '': ''
                        @ take 1024 (resp_Body resp)))
               else (case Option.bind (json_Decode (resp_Body resp)) (\<lambda>v. dec_osvBatchResponse v None) of
                       None \<Rightarrow> Inl (Wrap ''decode osv response: '' (ErrText (json_err resp)))
                     | Some results \<Rightarrow> Inr (osv_findings deps (elems results))))"

subsection \<open>Words and white space\<close>

definition word_ok :: "string \<Rightarrow> bool" where
  "word_ok w \<longleftrightarrow> w \<noteq> [] \<and> list_all graphic w \<and> strings_Index w ''//'' = None"

lemma fields_from_graphic: "list_all graphic w \<Longrightarrow> fields_from cur (w @ s) = fields_from (cur @ w) s"
proof (induction w arbitrary: cur)
  case (Cons c w)
  then show ?case by (subst fields_from.simps) (simp add: leading_graphic)
qed simp

lemma strings_Fields_pair:
  assumes "word_ok a" "word_ok b"
  shows "strings_Fields (a @ '' '' @ b) = [a, b]"
proof -
  have "fields_from [] (b @ []) = [b]"
    using assms(2) by (subst fields_from_graphic) (simp_all add: word_ok_def fields_from.simps)
  moreover have "fields_from a (CHR 0x20 # b) = a # fields_from [] b"
    using assms(1) by (subst fields_from.simps) (simp add: leading_blank word_ok_def)
  ultimately show ?thesis
    using assms(1) fields_from_graphic [of a "[]" "'' '' @ b"] by (simp add: strings_Fields_def word_ok_def)
qed

text \<open>The start of a comment is not inside two words with a space between them.\<close>

lemma no_comment_append:
  assumes "strings_Index a ''//'' = None" "strings_Index b ''//'' = None" "c \<noteq> CHR ''/''"
  shows "strings_Index (a @ c # b) ''//'' = None"
  using assms
proof (induction a)
  case (Cons x a)
  then show ?case by (cases a) (auto simp: HasPrefix_def split: if_splits)
qed (simp add: HasPrefix_def)

lemma comment_after:
  assumes "strings_Index a ''//'' = None"
  shows "strings_Index (a @ '' // indirect'') ''//'' = Some (Suc (length a))"
  using assms
proof (induction a)
  case (Cons x a)
  then show ?case by (cases a) (auto simp: HasPrefix_def split: if_splits)
qed (simp add: HasPrefix_def)

subsection \<open>The layout of the go command\<close>

text \<open>A requirement, which may be marked as indirect, stands on a line of its own or in a block.\<close>

datatype require = Require "Dep \<times> bool" | RequireBlock "(Dep \<times> bool) list"

definition dep_text :: "Dep \<times> bool \<Rightarrow> string" where
  "dep_text d = Dep_Name (fst d) @ '' '' @ Dep_Version (fst d) @ (if snd d then '' // indirect'' else [])"

fun require_lines :: "require \<Rightarrow> string list" where
  "require_lines (Require d) = [''require '' @ dep_text d]"
| "require_lines (RequireBlock ds) = ''require ('' # map (\<lambda>d. CHR 0x09 # dep_text d) ds @ ['')'']"

fun require_deps :: "require \<Rightarrow> (Dep \<times> bool) list" where
  "require_deps (Require d) = [d]"
| "require_deps (RequireBlock ds) = ds"

definition gomod_lines :: "string \<Rightarrow> string \<Rightarrow> require list \<Rightarrow> string list" where
  "gomod_lines m goVersion reqs =
     [''module '' @ m, [], ''go '' @ goVersion, []] @ concat (map (\<lambda>r. require_lines r @ [[]]) reqs)"

definition gomod_text :: "string \<Rightarrow> string \<Rightarrow> require list \<Rightarrow> string" where
  "gomod_text m goVersion reqs = concat (map (\<lambda>l. l @ [CHR 0x0A]) (gomod_lines m goVersion reqs))"

definition gomod_deps :: "require list \<Rightarrow> Dep list" where
  "gomod_deps reqs = map fst (concat (map require_deps reqs))"

definition dep_ok :: "Dep \<times> bool \<Rightarrow> bool" where
  "dep_ok d \<longleftrightarrow> word_ok (Dep_Name (fst d)) \<and> word_ok (Dep_Version (fst d))
     \<and> Dep_Name (fst d) \<notin> {''module'', ''require''}
     \<and> length (Dep_Name (fst d)) + length (Dep_Version (fst d)) < 65000"

lemma parseDep_text:
  assumes "dep_ok d"
  shows "parseDep (dep_text d) = Some (fst d)"
proof -
  let ?n = "Dep_Name (fst d)" and ?v = "Dep_Version (fst d)"
  let ?w = "?n @ '' '' @ ?v"
  have ok: "word_ok ?n" "word_ok ?v" using assms by (simp_all add: dep_ok_def)
  then have none: "strings_Index ?w ''//'' = None" by (simp add: no_comment_append word_ok_def)
  have ends: "?w \<noteq> []" "graphic (hd ?w)" "graphic (last ?w)"
    using ok by (simp_all add: word_ok_def list_all_iff)
  have f: "strings_Fields ?w = [?n, ?v]" by (rule strings_Fields_pair [OF ok])
  show ?thesis
  proof (cases "snd d")
    case True
    have t: "dep_text d = ?w @ '' // indirect''" using True by (simp add: dep_text_def)
    have "take (Suc (length ?w)) (dep_text d) = ?w @ '' ''" unfolding t by simp
    then show ?thesis
      using comment_after [OF none] TrimSpace_words(3) [OF ends] f unfolding parseDep_def t by simp
  next
    case False
    then have "dep_text d = ?w" by (simp add: dep_text_def)
    then show ?thesis using none f by (simp add: parseDep_def)
  qed
qed

lemma HasPrefix_word:
  assumes "c \<notin> set a" "c \<notin> set w"
  shows "HasPrefix (a @ c # r) (w @ [c]) \<longleftrightarrow> a = w"
proof
  assume "HasPrefix (a @ c # r) (w @ [c])"
  then obtain t where "a @ c # r = w @ c # t" by (auto simp: HasPrefix_iff)
  then have e: "takeWhile (\<lambda>x. x \<noteq> c) (a @ c # r) = takeWhile (\<lambda>x. x \<noteq> c) (w @ c # t)" by simp
  have "takeWhile (\<lambda>x. x \<noteq> c) (u @ c # x) = u" if "c \<notin> set u" for u x using that by (induction u) auto
  with e assms show "a = w" by simp
qed (auto simp: HasPrefix_iff)

lemma word_ok_no_space: "word_ok w \<Longrightarrow> CHR 0x20 \<notin> set w"
  by (auto simp: word_ok_def list_all_iff graphic_def)

lemma dep_text_ends:
  assumes "dep_ok d"
  shows "dep_text d \<noteq> []" "graphic (hd (dep_text d))" "graphic (last (dep_text d))"
  using assms by (auto simp: dep_text_def dep_ok_def word_ok_def list_all_iff graphic_def)

lemma dep_text_prefix:
  assumes "dep_ok d"
  shows "\<not> HasPrefix (dep_text d) ''module ''" "\<not> HasPrefix (dep_text d) ''require ''"
    "dep_text d \<noteq> ''require (''" "dep_text d \<noteq> '')''" "dep_text d \<noteq> ''(''"
proof -
  let ?n = "Dep_Name (fst d)"
  obtain r where t: "dep_text d = ?n @ CHR 0x20 # r" by (simp add: dep_text_def)
  have n: "CHR 0x20 \<notin> set ?n" "?n \<noteq> ''module''" "?n \<noteq> ''require''"
    using assms word_ok_no_space by (auto simp: dep_ok_def)
  show m: "\<not> HasPrefix (dep_text d) ''module ''" and r: "\<not> HasPrefix (dep_text d) ''require ''"
    using HasPrefix_word [OF n(1), of "''module''" r] HasPrefix_word [OF n(1), of "''require''" r] n(2,3)
    by (simp_all add: t)
  from r show "dep_text d \<noteq> ''require (''" by (auto simp: HasPrefix_def)
  have "CHR 0x20 \<in> set (dep_text d)" by (simp add: t)
  then show "dep_text d \<noteq> '')''" "dep_text d \<noteq> ''(''" by auto
qed

lemma line_block_dep:
  "dep_ok d \<Longrightarrow> gomod_line (CHR 0x09 # dep_text d) (m, deps, True) = (m, deps @ [fst d], True)"
  by (simp add: gomod_line_def TrimSpace_words(2) dep_text_ends dep_text_prefix parseDep_text)

lemma line_single_dep:
  assumes "dep_ok d"
  shows "gomod_line (''require '' @ dep_text d) (m, deps, False) = (m, deps @ [fst d], False)"
proof -
  let ?l = "''require '' @ dep_text d"
  have "TrimSpace ?l = ?l"
    using dep_text_ends [OF assms] by (intro TrimSpace_words) (simp_all add: graphic_def)
  moreover have "HasPrefix ?l ''require ''" "TrimPrefix ?l ''require '' = dep_text d"
    by (simp_all add: HasPrefix_def TrimPrefix_def)
  moreover have "\<not> HasPrefix ?l ''module ''" by (simp add: HasPrefix_def)
  ultimately show ?thesis
    using dep_text_prefix(5) [OF assms] by (simp add: gomod_line_def parseDep_text [OF assms])
qed

lemma line_fixed:
  "gomod_line ''require ('' (m, deps, b) = (m, deps, True)"
  "gomod_line '')'' (m, deps, True) = (m, deps, False)"
  "gomod_line [] (m, deps, False) = (m, deps, False)"
  by (simp_all add: gomod_line_def TrimSpace_words(1) graphic_def HasPrefix_def)

lemma line_module:
  assumes "word_ok m"
  shows "gomod_line (''module '' @ m) (m0, deps, b) = (m, deps, b)"
proof -
  have "TrimSpace (''module '' @ m) = ''module '' @ m" "TrimSpace m = m"
    using assms by (auto intro!: TrimSpace_words simp: word_ok_def list_all_iff) (simp_all add: graphic_def)
  then show ?thesis by (simp add: gomod_line_def HasPrefix_def TrimPrefix_def)
qed

lemma line_go:
  assumes "word_ok v"
  shows "gomod_line (''go '' @ v) (m, deps, False) = (m, deps, False)"
proof -
  have "TrimSpace (''go '' @ v) = ''go '' @ v"
    using assms by (auto intro!: TrimSpace_words simp: word_ok_def list_all_iff) (simp_all add: graphic_def)
  then show ?thesis by (simp add: gomod_line_def HasPrefix_def)
qed

lemma fold_block:
  "list_all dep_ok ds \<Longrightarrow>
   fold gomod_line (map (\<lambda>d. CHR 0x09 # dep_text d) ds) (m, deps, True) = (m, deps @ map fst ds, True)"
  by (induction ds arbitrary: deps) (simp_all add: line_block_dep)

lemma fold_require:
  "list_all dep_ok (require_deps r) \<Longrightarrow>
   fold gomod_line (require_lines r @ [[]]) (m, deps, False) = (m, deps @ map fst (require_deps r), False)"
  using line_single_dep [simplified] by (cases r) (simp_all add: line_fixed fold_block)

lemma fold_requires:
  "list_all (\<lambda>r. list_all dep_ok (require_deps r)) reqs \<Longrightarrow>
   fold gomod_line (concat (map (\<lambda>r. require_lines r @ [[]]) reqs)) (m, deps, False) = (m, deps @ gomod_deps reqs, False)"
proof (induction reqs arbitrary: deps)
  case (Cons r reqs)
  have "fold gomod_line (concat (map (\<lambda>r. require_lines r @ [[]]) (r # reqs))) (m, deps, False) =
      fold gomod_line (concat (map (\<lambda>r. require_lines r @ [[]]) reqs)) (fold gomod_line (require_lines r @ [[]]) (m, deps, False))"
    by simp
  also have "\<dots> = (m, (deps @ map fst (require_deps r)) @ gomod_deps reqs, False)"
    using Cons fold_require [of r m deps] by (simp del: fold_append)
  finally show ?case by (simp add: gomod_deps_def)
qed (simp add: gomod_deps_def)

subsection \<open>Reading the file back\<close>

lemma raw_lines_concat:
  assumes "list_all (\<lambda>l. CHR 0x0A \<notin> set l) ls"
  shows "raw_lines (concat (map (\<lambda>l. l @ [CHR 0x0A]) ls)) = ls"
proof -
  have "strings_Split (concat (map (\<lambda>l. l @ [CHR 0x0A]) ls)) (CHR 0x0A) = ls @ [[]]"
    using assms by (induction ls) (simp_all add: strings_Split_cons)
  then show ?thesis by (simp add: raw_lines_def)
qed

definition line_ok :: "string \<Rightarrow> bool" where
  "line_ok l \<longleftrightarrow> list_all (\<lambda>c. graphic c \<or> c = CHR 0x09 \<or> c = CHR 0x20) l \<and> length l < MaxScanTokenSize"

lemma line_ok_facts:
  assumes "line_ok l"
  shows "CHR 0x0A \<notin> set l" "drop_cr l = l"
proof -
  have "c \<noteq> CHR 0x0A \<and> c \<noteq> CHR 0x0D" if "c \<in> set l" for c
    using assms that by (auto simp: line_ok_def list_all_iff graphic_def)
  then show "CHR 0x0A \<notin> set l" "drop_cr l = l"
    using last_in_set [of l] by (auto simp: drop_cr_def)
qed

lemma scan_lines_ok:
  assumes "list_all line_ok ls"
  shows "scan_lines (concat (map (\<lambda>l. l @ [CHR 0x0A]) ls)) = ls"
    "scan_err (concat (map (\<lambda>l. l @ [CHR 0x0A]) ls)) e = e"
proof -
  have r: "raw_lines (concat (map (\<lambda>l. l @ [CHR 0x0A]) ls)) = ls"
    using assms by (intro raw_lines_concat) (auto simp: list_all_iff line_ok_facts)
  have t: "takeWhile (\<lambda>l. length l < MaxScanTokenSize) ls = ls"
    using assms by (auto simp: takeWhile_eq_all_conv list_all_iff line_ok_def)
  have "map drop_cr ls = ls" using assms by (auto simp: list_all_iff line_ok_facts intro!: map_idI)
  then show "scan_lines (concat (map (\<lambda>l. l @ [CHR 0x0A]) ls)) = ls"
    unfolding scan_lines_def r t .
  show "scan_err (concat (map (\<lambda>l. l @ [CHR 0x0A]) ls)) e = e"
    using assms by (auto simp: scan_err_def r list_all_iff line_ok_def)
qed

definition gomod_ok :: "string \<Rightarrow> string \<Rightarrow> require list \<Rightarrow> bool" where
  "gomod_ok m goVersion reqs \<longleftrightarrow> word_ok m \<and> word_ok goVersion \<and> length m < 65000 \<and> length goVersion < 65000
     \<and> list_all (\<lambda>r. list_all dep_ok (require_deps r)) reqs"

lemma word_ok_line: "word_ok w \<Longrightarrow> list_all (\<lambda>c. graphic c \<or> c = CHR 0x09 \<or> c = CHR 0x20) w"
  by (simp add: word_ok_def list_all_iff)

lemma dep_text_line:
  assumes "dep_ok d"
  shows "line_ok (CHR 0x09 # dep_text d)" "line_ok (''require '' @ dep_text d)"
  using assms
  by (simp_all add: line_ok_def dep_ok_def dep_text_def word_ok_line MaxScanTokenSize_def)
    (simp_all add: graphic_def)

lemma require_lines_ok: "list_all dep_ok (require_deps r) \<Longrightarrow> list_all line_ok (require_lines r @ [[]])"
proof (cases r)
  case (Require d)
  moreover assume "list_all dep_ok (require_deps r)"
  ultimately show ?thesis using dep_text_line(2) [of d] by (simp add: line_ok_def MaxScanTokenSize_def)
next
  case (RequireBlock ds)
  moreover assume "list_all dep_ok (require_deps r)"
  moreover have "line_ok []" "line_ok ''require (''" "line_ok '')''"
    by (simp_all add: line_ok_def graphic_def MaxScanTokenSize_def)
  ultimately show ?thesis by (simp add: list_all_iff dep_text_line)
qed

lemma gomod_lines_ok:
  assumes "gomod_ok m goVersion reqs"
  shows "list_all line_ok (gomod_lines m goVersion reqs)"
proof -
  have "list_all line_ok (concat (map (\<lambda>r. require_lines r @ [[]]) reqs))"
    if "list_all (\<lambda>r. list_all dep_ok (require_deps r)) reqs"
    using that
  proof (induction reqs)
    case (Cons r reqs)
    then show ?case using require_lines_ok [of r] by simp
  qed simp
  moreover have "line_ok (''module '' @ m)" "line_ok (''go '' @ goVersion)" "line_ok []"
    using assms by (simp_all add: gomod_ok_def line_ok_def word_ok_line MaxScanTokenSize_def) (simp_all add: graphic_def)
  ultimately show ?thesis using assms by (simp add: gomod_lines_def gomod_ok_def)
qed

lemma ParseGoMod_text:
  assumes "gomod_ok m goVersion reqs" "open_file path = Inr (gomod_text m goVersion reqs, None)"
  shows "ParseGoMod open_file path = Inr (m, gomod_deps reqs)"
proof -
  have "fold gomod_line (gomod_lines m goVersion reqs) ([], [], False) = (m, gomod_deps reqs, False)"
    using assms(1) line_module [of m] line_go [of goVersion] fold_requires [of reqs m "[]"]
    by (simp add: gomod_ok_def gomod_lines_def line_fixed)
  then show ?thesis
    using assms(2) scan_lines_ok [OF gomod_lines_ok [OF assms(1)]] by (simp add: ParseGoMod_def gomod_text_def)
qed

text \<open>A block that is opened with a comment on the same line, which the go command accepts, is not
  recognised: the line changes nothing, and so the requirements after it are not read.\<close>

lemma commented_block_unseen: "gomod_line ''require ( // direct'' (m, deps, False) = (m, deps, False)"
proof -
  have "TrimSpace ''require ( // direct'' = ''require ( // direct''"
    by (rule TrimSpace_words) (simp_all add: graphic_def)
  moreover have "parseDep ''( // direct'' = None" by code_simp
  ultimately show ?thesis by (simp add: gomod_line_def HasPrefix_def TrimPrefix_def)
qed

subsection \<open>A service that answers query by query\<close>

text \<open>\<open>vulns\<close> are the identifiers the service knows for a name and a version. A result without any is
  an empty object.\<close>

type_synonym vuln_db = "string \<Rightarrow> string \<Rightarrow> string list"

definition query_of :: "json \<Rightarrow> (string \<times> string) option" where
  "query_of q =
     (case q of
        JObj m \<Rightarrow>
          (case (map_of m ''package'', map_of m ''version'') of
             (Some (JObj p), Some (JStr v)) \<Rightarrow>
               (case (map_of p ''name'', map_of p ''ecosystem'') of
                  (Some (JStr n), Some (JStr e)) \<Rightarrow> if e = ''Go'' then Some (n, v) else None
                | _ \<Rightarrow> None)
           | _ \<Rightarrow> None)
      | _ \<Rightarrow> None)"

definition osv_queries :: "bytes \<Rightarrow> (string \<times> string) list option" where
  "osv_queries body =
     (case json_Parse body of
        Some (JObj m) \<Rightarrow> (case map_of m ''queries'' of Some (JArr qs) \<Rightarrow> those (map query_of qs) | _ \<Rightarrow> None)
      | _ \<Rightarrow> None)"

definition osv_result :: "string list \<Rightarrow> json" where
  "osv_result ids = JObj (if ids = [] then [] else [(''vulns'', JArr (map (\<lambda>i. JObj [(''id'', JStr i)]) ids))])"

definition osv_answer :: "vuln_db \<Rightarrow> (string \<times> string) list \<Rightarrow> json" where
  "osv_answer vulns qs = JObj [(''results'', JArr (map (\<lambda>(n, v). osv_result (vulns n v)) qs))]"

definition osv_service :: "vuln_db \<Rightarrow> client \<Rightarrow> bool" where
  "osv_service vulns client \<longleftrightarrow> (\<forall>body qs. osv_queries body = Some qs \<longrightarrow>
     client osvBatchURL body =
       Inr \<lparr>resp_StatusCode = 200, resp_Body = json_Marshal (osv_answer vulns qs), resp_ReadErr = None\<rparr>)"

definition dep_vulns :: "vuln_db \<Rightarrow> Dep \<Rightarrow> string list" where
  "dep_vulns vulns d = vulns (Dep_Name d) (Dep_Version d)"

definition vuln_findings :: "vuln_db \<Rightarrow> Dep list \<Rightarrow> Finding list" where
  "vuln_findings vulns deps =
     map (\<lambda>d. \<lparr>Finding_Dep = d, Finding_VulnIDs = dep_vulns vulns d\<rparr>) (filter (\<lambda>d. dep_vulns vulns d \<noteq> []) deps)"

definition dep_utf8 :: "Dep \<Rightarrow> bool" where
  "dep_utf8 d \<longleftrightarrow> valid_utf8 (Dep_Name d) \<and> valid_utf8 (Dep_Version d)"

lemma valid_keys:
  "valid_utf8 ''package''" "valid_utf8 ''version''" "valid_utf8 ''name''" "valid_utf8 ''ecosystem''" "valid_utf8 ''Go''"
  "valid_utf8 ''queries''" "valid_utf8 ''results''" "valid_utf8 ''vulns''" "valid_utf8 ''id''"
  by (rule ascii_valid_utf8, simp)+

lemma osvQuery_wf: "list_all dep_utf8 deps \<Longrightarrow> json_wf (osvQuery_json deps)"
  by (simp add: osvQuery_json_def osvPackageQuery_json_def osvPackage_json_def valid_keys list_all_iff dep_utf8_def)

text \<open>The service sees one query for each dependency, in their order.\<close>

lemma osv_queries_request:
  assumes "list_all dep_utf8 deps"
  shows "osv_queries (json_Marshal (osvQuery_json deps)) = Some (map (\<lambda>d. (Dep_Name d, Dep_Version d)) deps)"
proof -
  have "json_Parse (json_Marshal (osvQuery_json deps)) = Some (osvQuery_json deps)"
    using osvQuery_wf [OF assms] by (simp add: json_Parse_Marshal json_wf_nums json_raw_wf)
  moreover have "query_of (osvPackageQuery_json d) = Some (Dep_Name d, Dep_Version d)" for d
    by (simp add: query_of_def osvPackageQuery_json_def osvPackage_json_def)
  then have "query_of \<circ> osvPackageQuery_json = Some \<circ> (\<lambda>d. (Dep_Name d, Dep_Version d))" by auto
  ultimately show ?thesis
    using those_map_Some [of "map (\<lambda>d. (Dep_Name d, Dep_Version d)) deps"] by (simp add: osv_queries_def osvQuery_json_def)
qed

lemma dec_vulns: "dec_elems dec_osvVuln [] (map (\<lambda>i. JObj [(''id'', JStr i)]) ids) old = Some ids"
  by (induction ids arbitrary: old) (simp_all add: dec_osvVuln_def dec_struct_def find_field_simps dec_string_def)

lemma dec_result: "dec_osvResult (osv_result ids) None = Some (if ids = [] then None else Some ids)"
  by (simp add: dec_osvResult_def osv_result_def dec_struct_def find_field_simps dec_slice_def dec_vulns)

lemma dec_results:
  "dec_elems dec_osvResult None (map (\<lambda>(n, v). osv_result (vulns n v)) qs) [] =
     Some (map (\<lambda>(n, v). if vulns n v = [] then None else Some (vulns n v)) qs)"
  by (induction qs) (auto simp: dec_result)

lemma dec_answer:
  "dec_osvBatchResponse (osv_answer vulns qs) None =
     Some (Some (map (\<lambda>(n, v). if vulns n v = [] then None else Some (vulns n v)) qs))"
  by (simp add: dec_osvBatchResponse_def osv_answer_def dec_struct_def find_field_simps dec_slice_def dec_results)

lemma osv_answer_wf: "(\<And>n v. list_all valid_utf8 (vulns n v)) \<Longrightarrow> json_wf (osv_answer vulns qs)"
  by (auto simp: osv_answer_def osv_result_def valid_keys list_all_iff)

lemma osv_findings_exact:
  "osv_findings deps (map (\<lambda>d. if dep_vulns vulns d = [] then None else Some (dep_vulns vulns d)) deps) =
     vuln_findings vulns deps"
  by (induction deps) (simp_all add: vuln_findings_def)

lemma CheckBatch_exact:
  assumes "osv_service vulns (w_client w)" "\<And>n v. list_all valid_utf8 (vulns n v)" "list_all dep_utf8 deps"
  shows "CheckBatch json_err w deps = Inr (vuln_findings vulns deps)"
proof (cases "deps = []")
  case False
  let ?qs = "map (\<lambda>d. (Dep_Name d, Dep_Version d)) deps"
  have r: "w_client w osvBatchURL (json_Marshal (osvQuery_json deps)) =
      Inr \<lparr>resp_StatusCode = 200, resp_Body = json_Marshal (osv_answer vulns ?qs), resp_ReadErr = None\<rparr>"
    using assms(1) osv_queries_request [OF assms(3)] unfolding osv_service_def by blast
  have "json_Decode (json_Marshal (osv_answer vulns ?qs)) = Some (osv_answer vulns ?qs)"
    using osv_answer_wf [of vulns ?qs] assms(2) by (simp add: json_Decode_Marshal json_wf_nums json_raw_wf)
  then show ?thesis
    using False osv_findings_exact [of deps vulns, unfolded dep_vulns_def]
    by (simp add: CheckBatch_def r dec_answer comp_def)
qed (simp add: CheckBatch_def vuln_findings_def)

subsection \<open>The watch\<close>

lemma gomod_deps_utf8:
  assumes "gomod_ok m goVersion reqs"
  shows "list_all dep_utf8 (gomod_deps reqs)"
proof -
  have "valid_utf8 w" if "word_ok w" for w
    using that by (intro ascii_valid_utf8) (auto simp: word_ok_def list_all_iff graphic_def)
  then show ?thesis
    using assms unfolding gomod_ok_def gomod_deps_def dep_utf8_def dep_ok_def list_all_iff by auto
qed


definition demo_vulns :: vuln_db where
  "demo_vulns n v = (if n = ''golang.org/x/net'' then [''GO-2024-1''] else [])"

definition demo_osv :: client where
  "demo_osv url body =
     (case osv_queries body of
        None \<Rightarrow> Inl ''bad request''
      | Some qs \<Rightarrow> Inr \<lparr>resp_StatusCode = 200, resp_Body = json_Marshal (osv_answer demo_vulns qs), resp_ReadErr = None\<rparr>)"

definition demo_reqs :: "require list" where
  "demo_reqs =
     [Require (\<lparr>Dep_Name = ''golang.org/x/net'', Dep_Version = ''v0.1.0''\<rparr>, False),
      RequireBlock [(\<lparr>Dep_Name = ''a.b/c'', Dep_Version = ''v1.0.0''\<rparr>, True)]]"


end
