(* ===== verification/PgTyping.thy ===== *)
theory PgTyping
  imports PgStore
begin

text \<open>
  The types and constraints of the schema \<open>src/store/migrations_sql/001_initial.sql\<close> as an invariant of
  the tables: every column holds a value of its type, primary keys are unique, and every token refers
  to a sigil that exists. Every method of the store keeps it, whatever the network does, so the store
  never hands out a token whose sigil it cannot find.
\<close>

subsection \<open>Typed tables\<close>

text \<open>
  What is relied on of the column types: the canonical text of a UUID is accepted as itself, and so is
  a time that a \<open>TIMESTAMPTZ\<close> column gave back.
\<close>

definition pgtypes_ok :: "pgtypes \<Rightarrow> bool" where
  "pgtypes_ok T \<longleftrightarrow> (\<forall>s u. uuid_in T s = Some u \<longrightarrow> uuid_in T u = Some u)
     \<and> (\<forall>t u. ts_in T t = Some u \<longrightarrow> ts_in T u = Some u)"

definition sigil_typed :: "pgtypes \<Rightarrow> SigilRow \<Rightarrow> bool" where
  "sigil_typed T r \<longleftrightarrow> uuid_in T (sr_id r) = Some (sr_id r) \<and> text_in T (sr_subject r)
     \<and> ts_in T (sr_created_at r) = Some (sr_created_at r) \<and> ts_opt T (sr_expires_at r) = Some (sr_expires_at r)"

definition cap_typed :: "pgtypes \<Rightarrow> CapRow \<Rightarrow> bool" where
  "cap_typed T r \<longleftrightarrow> uuid_in T (cr_id r) = Some (cr_id r) \<and> uuid_in T (cr_sigil_id r) = Some (cr_sigil_id r)
     \<and> text_in T (cr_scope r) \<and> ts_in T (cr_issued_at r) = Some (cr_issued_at r)
     \<and> ts_in T (cr_expires_at r) = Some (cr_expires_at r)"

definition rev_typed :: "pgtypes \<Rightarrow> RevEntryRow \<Rightarrow> bool" where
  "rev_typed T r \<longleftrightarrow> uuid_in T (re_id r) = Some (re_id r) \<and> sql_ok_target (re_target_type r)
     \<and> text_in T (re_reason r) \<and> text_in T (re_revoked_by r) \<and> ts_in T (re_revoked_at r) = Some (re_revoked_at r)"

definition pgdb_typed :: "pgtypes \<Rightarrow> pgdb \<Rightarrow> bool" where
  "pgdb_typed T d \<longleftrightarrow>
     list_all (sigil_typed T) (t_sigils d) \<and> distinct (map sr_id (t_sigils d))
     \<and> list_all (cap_typed T) (t_caps d) \<and> distinct (map cr_id (t_caps d))
     \<and> cr_sigil_id ` set (t_caps d) \<subseteq> sr_id ` set (t_sigils d)
     \<and> list_all (rev_typed T) (t_revs d) \<and> distinct (map re_id (t_revs d))
     \<and> distinct (t_nonces d)"

subsection \<open>Rows\<close>

lemma sigil_row_typed: "pgtypes_ok T \<Longrightarrow> sigil_row T s meta = Some r \<Longrightarrow> sigil_typed T r"
  by (auto simp: sigil_row_def sigil_typed_def pgtypes_ok_def ts_opt_def split: option.splits bool.splits)

lemma cap_row_typed: "pgtypes_ok T \<Longrightarrow> cap_row T c = Some r \<Longrightarrow> cap_typed T r"
  by (auto simp: cap_row_def cap_typed_def pgtypes_ok_def split: option.splits bool.splits)

lemma upsert_sigil_typed:
  assumes "sigil_typed T r" "list_all (sigil_typed T) rs" "distinct (map sr_id rs)"
  shows "list_all (sigil_typed T) (upsert_sigil r rs) \<and> distinct (map sr_id (upsert_sigil r rs))"
  using assms(2,3)
proof (induction rs)
  case (Cons x xs)
  have "sigil_typed T (r\<lparr>sr_created_at := sr_created_at x\<rparr>)" using assms(1) Cons.prems(1) by (simp add: sigil_typed_def)
  moreover have "sr_id x \<notin> sr_id ` set (upsert_sigil r xs)" if "sr_id x \<noteq> sr_id r"
    using that Cons.prems(2) by (simp add: upsert_sigil_ids)
  ultimately show ?case using Cons by auto
qed (simp add: assms(1))

lemma update_cap_typed:
  assumes "cap_typed T r" "list_all (cap_typed T) rs" "update_cap r rs = Some rs'"
  shows "list_all (cap_typed T) rs' \<and> map cr_id rs' = map cr_id rs \<and> map cr_sigil_id rs' = map cr_sigil_id rs"
  using assms(2,3)
proof (induction rs arbitrary: rs')
  case (Cons x xs)
  have "cap_typed T (r\<lparr>cr_sigil_id := cr_sigil_id x, cr_issued_at := cr_issued_at x\<rparr>)"
    using assms(1) Cons.prems(1) by (simp add: cap_typed_def)
  with Cons show ?case by (auto split: if_splits)
qed simp

lemma update_cap_None: "update_cap r rs = None \<longleftrightarrow> cr_id r \<notin> cr_id ` set rs"
  by (induction rs) auto

lemma upsert_cap_typed:
  assumes "cap_typed T r" "list_all (cap_typed T) caps" "distinct (map cr_id caps)"
    and "cr_sigil_id ` set caps \<subseteq> sr_id ` set sigils" and up: "upsert_cap r sigils caps = Some caps'"
  shows "list_all (cap_typed T) caps' \<and> distinct (map cr_id caps') \<and> cr_sigil_id ` set caps' \<subseteq> sr_id ` set sigils"
proof (cases "update_cap r caps")
  case None
  then have "caps' = caps @ [r]" "cr_sigil_id r \<in> sr_id ` set sigils"
    using up by (auto simp: upsert_cap_def split: if_splits)
  moreover have "cr_id r \<notin> cr_id ` set caps" using None by (simp add: update_cap_None)
  ultimately show ?thesis using assms(1-4) by simp
next
  case (Some rs')
  with up have "caps' = rs'" by (simp add: upsert_cap_def)
  moreover have "cr_sigil_id ` set rs' = cr_sigil_id ` set caps"
    using update_cap_typed [OF assms(1,2) Some] by (metis list.set_map)
  ultimately show ?thesis using update_cap_typed [OF assms(1,2) Some] assms(3,4) by simp
qed

subsection \<open>Statements and methods\<close>

lemma sql_typed:
  assumes T: "pgtypes_ok T" and d: "pgdb_typed T d"
  shows "pgdb_typed T (snd (sql_save_sigil T s m r d))" "pgdb_typed T (snd (sql_save_cap T c r d))"
    "pgdb_typed T (snd (sql_insert_nonce n r d))" "pgdb_typed T (snd (sql_revoke T e r d))"
    "pgdb_typed T (snd (sql_get_sigil T i r d))" "pgdb_typed T (snd (sql_get_cap T i r d))"
    "pgdb_typed T (snd (sql_nonce_exists n r d))" "pgdb_typed T (snd (sql_is_revoked T i r d))"
proof -
  show "pgdb_typed T (snd (sql_save_sigil T s m r d))"
    using d upsert_sigil_typed [OF sigil_row_typed [OF T], of s m _ "t_sigils d"]
    by (auto simp: sql_save_sigil_def pgdb_typed_def upsert_sigil_ids split: option.split)
  show "pgdb_typed T (snd (sql_save_cap T c r d))"
    using d upsert_cap_typed [OF cap_row_typed [OF T], of c _ "t_caps d" "t_sigils d"]
    by (auto simp: sql_save_cap_def pgdb_typed_def split: option.split bind_splits)
  show "pgdb_typed T (snd (sql_insert_nonce n r d))"
    using d by (auto simp: sql_insert_nonce_def pgdb_typed_def split: option.split)
  show "pgdb_typed T (snd (sql_revoke T e r d))"
    using d T by (auto simp: sql_revoke_def pgdb_typed_def rev_typed_def pgtypes_ok_def split: option.split)
qed (use d in \<open>simp_all add: sql_defs split: option.split\<close>)

lemma pg_call_typed:
  assumes "\<And>r d. pgdb_typed T d \<Longrightarrow> pgdb_typed T (snd (stmt r d))" "pgdb_typed T (db p)"
  shows "pgdb_typed T (db (snd (pg_call stmt p)))"
  using pg_call_rel [of "\<lambda>d d'. pgdb_typed T d \<longrightarrow> pgdb_typed T d'" stmt p] assms by blast

lemma pg_step_typed:
  assumes "pgtypes_ok T"
  shows "store_step (pg_ops T) p p' \<Longrightarrow> pgdb_typed T (db p) \<Longrightarrow> pgdb_typed T (db p')"
  by (erule store_stepE)
    (simp_all add: PgStore_RecordNonce_def pg_call_typed sql_typed [OF assms])

subsection \<open>The store\<close>

lemma pgdb_typed_GetCap:
  assumes d: "pgdb_typed T (db p)" and h: "pg_healthy p" and c: "fst (PgStore_GetCap T i p) = Inr c"
  shows "\<exists>s. fst (PgStore_GetSigil T (Cap_SigilID c) p) = Inr s"
proof -
  from c h obtain u row where row: "find_row cr_id u (t_caps (db p)) = Some row" "c = row_cap row"
    by (auto simp: PgStore_GetCap_def pg_call_healthy sql_get_cap_def split: option.splits)
  then have "row \<in> set (t_caps (db p))" by (auto simp: find_row_def find_Some_iff)
  with d have "uuid_in T (cr_sigil_id row) = Some (cr_sigil_id row)" "cr_sigil_id row \<in> sr_id ` set (t_sigils (db p))"
    by (auto simp: pgdb_typed_def cap_typed_def list_all_iff)
  with h row(2) show ?thesis
    by (auto simp: PgStore_GetSigil_def pg_call_healthy sql_get_sigil_def row_cap_def find_row_some)
qed

text \<open>
  C16. The tables stay typed. Let the column types read back what they wrote. Then every sequence of method
  calls, under any network faults, takes tables that satisfy the schema (each column of its type,
  unique keys, the target type of a revocation one of the allowed three, each token's sigil present)
  to tables that satisfy it; and while the database answers, every token that can be read names a
  sigil that can be read.
\<close>

theorem PgStore_typed:
  assumes "pgtypes_ok T" and "pgdb_typed T (db p)" and "store_steps (pg_ops T) p p'"
  shows "pgdb_typed T (db p')
    \<and> (pg_healthy p' \<longrightarrow> fst (PgStore_GetCap T i p') = Inr c \<longrightarrow> (\<exists>s. fst (PgStore_GetSigil T (Cap_SigilID c) p') = Inr s))"
proof -
  have "pgdb_typed T (db p')"
    using assms(3,2) by (induction rule: rtranclp_induct) (auto intro: pg_step_typed [OF assms(1)])
  then show ?thesis using pgdb_typed_GetCap by blast
qed

text \<open>An empty database in which a sigil and a token of it are saved.\<close>

definition typing_types :: pgtypes where
  "typing_types = \<lparr>uuid_in = Some, text_in = (\<lambda>_. True), ts_in = Some, jsonb_in = json_Unmarshal, sql_like = (=)\<rparr>"

definition typing_store :: PgStore where
  "typing_store = \<lparr>net = (\<lambda>_. \<lparr>rnd_fault = NoFault, rnd_now = utc_time 0, rnd_uuid = ''u''\<rparr>), tick = 0,
     db = \<lparr>t_sigils = [], t_caps = [], t_revs = [], t_nonces = []\<rparr>\<rparr>"

definition typing_sigil :: Sigil where
  "typing_sigil = \<lparr>Sigil_ID = ''s'', Sigil_Subject = ''a'', Sigil_PublicKey = Some [], Sigil_CreatedAt = utc_time 0,
     Sigil_ExpiresAt = None, Sigil_Metadata = None\<rparr>"

definition typing_cap :: CapabilityToken where
  "typing_cap = \<lparr>Cap_ID = ''c'', Cap_SigilID = ''s'', Cap_Scope = ''r'', Cap_IssuedAt = utc_time 0,
     Cap_ExpiresAt = utc_time 10, Cap_Nonce = Some ''n''\<rparr>"

definition typing_after :: PgStore where
  "typing_after = snd (PgStore_SaveCap typing_types typing_cap (snd (PgStore_SaveSigil typing_types typing_sigil typing_store)))"

theorem PgStore_typed_witness:
  "fst (PgStore_GetCap typing_types ''c'' typing_after) = Inr typing_cap
   \<and> (\<exists>s. fst (PgStore_GetSigil typing_types (Cap_SigilID typing_cap) typing_after) = Inr s)"
proof -
  have T: "pgtypes_ok typing_types" by (simp add: pgtypes_ok_def typing_types_def)
  have d: "pgdb_typed typing_types (db typing_store)" by (simp add: pgdb_typed_def typing_store_def)
  let ?s1 = "snd (PgStore_SaveSigil typing_types typing_sigil typing_store)"
  have "store_step (pg_ops typing_types) typing_store ?s1" "store_step (pg_ops typing_types) ?s1 typing_after"
    using step_SaveSigil [of "pg_ops typing_types" typing_store typing_sigil]
      step_SaveCap [of "pg_ops typing_types" ?s1 typing_cap] by (simp_all add: typing_after_def)
  then have steps: "store_steps (pg_ops typing_types) typing_store typing_after" by (meson rtranclp.simps)
  have "pg_healthy typing_store" by (simp add: pg_healthy_def typing_store_def)
  then have h: "pg_healthy typing_after" by (rule pg.healthy_steps [OF steps])
  have "fst (PgStore_GetCap typing_types ''c'' typing_after) = Inr typing_cap" by code_simp
  with h PgStore_typed [OF T d steps, of "''c''" typing_cap] show ?thesis by blast
qed

end
