(* ===== verification/Spec2Isabelle.thy ===== *)
theory Spec2Isabelle
  imports MemStore PgStore PoolStore BruteForce NatsPublisher ConfigReload Cdc Oidc Serve Cli Cve PgTyping
begin

text \<open>
  The Hanko broker: identity assertions (sigils), capability tokens and signed attestation envelopes, their
  verification and revocation, the stores behind them, the HTTP and OIDC surface, the observability
  services and the command line. The development models the Go code under \<open>src/\<close> as functions on
  explicit state and proves what makes each part correct. This theory imports all others and holds
  the properties that span several of them.

  \<^bold>\<open>The program.\<close> A broker issues sigils and tokens into a store and signs envelopes over them. Verification
  checks the signature over the canonical JSON, asks the store for revocations, checks the expiry
  times and consumes the nonce of every token. Three stores implement the interface: an in-memory
  one and two on Postgres. The HTTP server publishes the signing key, takes revocations from
  an administrator and exchanges OIDC tokens for capability tokens. Lifecycle events go to a NATS
  publisher with a ring buffer; failed exchanges feed a brute-force detector; settings can be
  reloaded at run time; the audit table is replicated as events. The command line runs single
  operations or the server.

  \<^bold>\<open>How code becomes definitions.\<close> A struct is a record, a method a function that returns its result and the
  changed state, an interface a record of functions (\<open>'s store_ops\<close>). Errors are values: \<open>goerror + 'a\<close>, where a panic is
  an error too. Strings and byte slices are lists of bytes. Durations and counters are 64-bit words,
  so their arithmetic wraps as in Go. What a call reads from outside (clock, random bytes, UUIDs, the
  network, files) is an argument, indexed by the order of the reads. Every method of a store, of the
  detector and of the ring is one critical section of the source, so concurrency is the
  interleaving of calls: \<open>store_step\<close>, \<open>np_step\<close>, and the verifier of \<open>Interleaving\<close> that makes one store call per
  step.

  \<^bold>\<open>Theories and sources.\<close>

  \<^item> \<open>Prelude\<close>: types, rule collections and generic lemmas. \<open>GoLib\<close>, \<open>GoStrings\<close>, \<open>Json\<close>, \<open>JsonDecode\<close>, \<open>GoTime\<close>, \<open>TimeParse\<close>,
    \<open>GoDuration\<close>, \<open>Sha256\<close>: the parts of Go's standard library the program uses (hex, base64, UTF-8, strings,
    \<open>encoding/json\<close>, \<open>time\<close>, \<open>crypto/sha256\<close>), with their round trips.

  \<^item> \<open>Protocol\<close>: \<open>protocol/types.go\<close>. \<open>Crypto\<close>: \<open>crypto/ed25519.go\<close>. \<open>Envelope\<close>: the signed body, and that it determines the
    envelope. \<open>Wire\<close>: decoding an envelope inverts encoding it.

  \<^item> \<open>StoreSpec\<close>: the interface \<open>Store\<close> with its contract as three locales; \<open>store_contract\<close> holds under all faults,
    \<open>reliable_store\<close> and \<open>sigil_store\<close> while the store answers. \<open>Broker\<close>: \<open>broker/broker.go\<close> and \<open>broker/scope_registry.go\<close>. \<open>VerifyProps\<close> and
    \<open>Interleaving\<close> prove, inside the locales, what sequential and concurrent verification guarantee; \<open>Lifecycle\<close> follows a token from issue
    to verification.

  \<^item> \<open>MemStore\<close>: \<open>store/mem.go\<close> and \<open>store/interface.go\<close> (interpretation \<open>mem\<close>). \<open>Postgres\<close>: statements, constraints and lost
    round trips. \<open>PgStore\<close>: \<open>store/postgres.go\<close> (\<open>pg\<close>), and \<open>PgTyping\<close>, its schema as an invariant. \<open>PoolStore\<close>: \<open>store/pgstore/pgstore.go\<close> (\<open>pool\<close>).

  \<^item> \<open>Subject\<close>, \<open>Metrics\<close>, \<open>BruteForce\<close>, \<open>NatsPublisher\<close>, \<open>ConfigReload\<close>, \<open>Cdc\<close>: the files of \<open>internal/observability\<close>. \<open>BoundedQueue\<close> is the contract of a
    bounded queue; the ring of \<open>NatsPublisher\<close> is an interpretation of it (\<open>ring\<close>).

  \<^item> \<open>Http\<close>: \<open>broker/http.go\<close> and \<open>broker/http_admin.go\<close>. \<open>Oidc\<close>: \<open>broker/oidc.go\<close>. \<open>Serve\<close>: routing, and \<open>cmd/hanko-broker/serve.go\<close>. \<open>CliBase\<close> and
    \<open>Cli\<close>: \<open>cmd/hanko-broker/main.go\<close>. \<open>Cve\<close>: \<open>cve/watcher.go\<close>.

  \<^bold>\<open>What is shown.\<close> Verification accepts exactly what passes every check; no nonce is accepted twice, over
  any network faults and in any interleaving; a revoked sigil or token is refused from then on, also
  when it was revoked over HTTP while the server handles other requests, and a consumed nonce stays
  consumed for later processes over the same database; an accepted envelope agrees
  with an issued one in every signed field, because the canonical bytes determine the value and
  the wire form can be read back; the step-wise verifier refines the sequential one. The stores keep
  their invariants. The ring is a first-in first-out queue that accounts for every event, and
  shutting down ends. The detector reports an attack that reaches the threshold, once per bucket. A reload is all or nothing and
  independent of map order. Replication publishes only hashes. A granted OIDC exchange
  passed every check of token and policy, and nothing else served over HTTP but an authorised revocation changes the broker.
  The commands read back the keys they write, and their exit status is the verdict. The
  watcher reports exactly the vulnerable requirements.

  Some results show limits of the code: revocation queries fail open, a failed send loses its event,
  concurrent reloads can undo each other, large windows and lifetimes overflow, the lag gauge is never set,
  and scopes that are not UTF-8 share their signed bytes.

  \<^bold>\<open>Bounds.\<close> The JSON parser recurses on a fuel of one more than the length of its input; every nested value
  consumes a byte, so this is enough, and \<open>json_Parse_Marshal\<close> proves it for every encoded value. All other loops are structural
  or come with a termination proof. The replication loop and the server run over the finite list of
  inputs that arrive; the drain loop is modelled turn by turn.

  \<^bold>\<open>Arguments of the model.\<close> Ed25519, the random source, the JWT library, the TOML parser, the NATS client, the parsers of the
  replication protocol, the HTTP client, Postgres (column types, network, clock) and files. What is
  assumed of them stands in the theorems: that a key pair signs what it verifies, that an iteration over
  a map is a permutation of it, that a UUID column reads back what it wrote.

  \<^bold>\<open>Not modelled.\<close> Log lines; stack traces of panics; timeouts and cancellation other than as a failed call; the Prometheus
  registry, its text format and the conversion to floating point; the text of
  JSON decoding errors; signal delivery; the migration scripts beyond the tables and constraints
  they create. These are output or belong to libraries outside the repository. The tests under \<open>src/\<close> are
  not modelled.
\<close>

section \<open>Concrete values for the witnesses\<close>

text \<open>
  A signature scheme whose signature is the message itself, a clock that stands still, and the
  smallest envelopes.
\<close>

definition echo_ed :: ed25519 where
  "echo_ed = \<lparr>ed_Sign = (\<lambda>_ m. m), ed_Verify = (\<lambda>_ m sig. sig = m)\<rparr>"

definition any_ed :: ed25519 where
  "any_ed = \<lparr>ed_Sign = (\<lambda>_ m. m), ed_Verify = (\<lambda>_ _ _. True)\<rparr>"

definition demo_reads :: reads where
  "demo_reads = \<lparr>rd_uuid = (\<lambda>k. if k = 0 then ''u0'' else ''u1''), rd_now = (\<lambda>_. utc_time 0),
     rd_rand = Inr (replicate 16 (CHR ''n''))\<rparr>"

definition demo_cap :: CapabilityToken where
  "demo_cap = \<lparr>Cap_ID = ''c'', Cap_SigilID = ''s'', Cap_Scope = ''r'', Cap_IssuedAt = utc_time 0,
     Cap_ExpiresAt = utc_time 10, Cap_Nonce = Some ''n''\<rparr>"

definition demo_env :: AttestationEnvelope where
  "demo_env = \<lparr>Env_Version = Version, Env_SigilID = ''s'', Env_Caps = Some [demo_cap],
     Env_Issuer = IssuerName, Env_IssuedAt = utc_time 0, Env_ExpiresAt = utc_time 10,
     Env_Signature = Some []\<rparr>"

definition demo_key :: bytes where "demo_key = replicate 32 (CHR 0x00)"

definition demo_types :: pgtypes where
  "demo_types = \<lparr>uuid_in = Some, text_in = (\<lambda>_. True), ts_in = Some, jsonb_in = json_Unmarshal,
     sql_like = (=)\<rparr>"

definition demo_net :: "fault \<Rightarrow> nat \<Rightarrow> round" where
  "demo_net f k = \<lparr>rnd_fault = (if k = 0 then f else NoFault), rnd_now = utc_time 0, rnd_uuid = ''row''\<rparr>"

definition demo_pg :: PgStore where
  "demo_pg = \<lparr>net = demo_net NoFault, tick = 0, db = \<lparr>t_sigils = [], t_caps = [], t_revs = [], t_nonces = []\<rparr>\<rparr>"

definition demo_row :: SigilRow where
  "demo_row = \<lparr>sr_id = ''s'', sr_subject = ''x'', sr_public_key = demo_key, sr_created_at = utc_time 0,
     sr_expires_at = None, sr_metadata = JObj []\<rparr>"

definition demo_pool :: "fault \<Rightarrow> RevocationRow list \<Rightarrow> PGStore" where
  "demo_pool f revs = \<lparr>net = demo_net f, tick = 0, db = \<lparr>h_sigils = [demo_row], h_caps = [],
     h_attestations = [], h_revocations = revs, h_audit = [], h_nonces = []\<rparr>\<rparr>"

lemma fmt_demo: "fmt_time (utc_time 0) = Some ''1970-01-01T00:00:00Z''"
  "fmt_time (utc_time 10) = Some ''1970-01-01T00:00:00.00000001Z''"
  by code_simp+

lemma demo_key_length [simp]: "length demo_key = 32"
  by (simp add: demo_key_def)

lemma demo_sig_ok [simp]: "sig_ok any_ed demo_key (demo_env\<lparr>Env_Caps := cs\<rparr>)" if "caps_json cs \<noteq> None"
proof -
  from that have "AttestationEnvelope_json (demo_env\<lparr>Env_Caps := cs\<rparr>) \<noteq> None"
    by (auto simp: AttestationEnvelope_json_def demo_env_def fmt_demo)
  from signed_bytes_exists [OF this] show ?thesis by (auto simp: sig_ok_def any_ed_def)
qed

lemma demo_caps_json: "caps_json (Some [demo_cap]) \<noteq> None" "caps_json None \<noteq> None"
  by (simp_all add: caps_json_def CapabilityToken_json_def demo_cap_def fmt_demo)

lemma demo_env_caps: "demo_env\<lparr>Env_Caps := Some [demo_cap]\<rparr> = demo_env"
  by (simp add: demo_env_def)

lemmas demo_env_sig_ok = demo_sig_ok [OF demo_caps_json(1), unfolded demo_env_caps]

section \<open>Verification over the stores\<close>


text \<open>
  C1. Over the in-memory store, \<open>VerifyAttestation\<close> accepts an envelope whose tokens carry nonces
  exactly when its signature is valid, neither its sigil nor any of its tokens is revoked,
  neither it nor any token is expired at the clock reading of its check, and the nonces are
  pairwise distinct and none was consumed before.
\<close>

theorem verify_accepts_iff:
  assumes "\<forall>c \<in> set (elems (Env_Caps env)). Cap_Nonce c \<noteq> None"
  shows "fst (VerifyAttestation ed mem_ops rd env b) = Inr () \<longleftrightarrow>
     sig_ok ed (bk_signerPub b) env
     \<and> ms_revokedIDs (bk_store b) (Env_SigilID env) = None
     \<and> \<not> Time_After (rd_now rd 0) (Env_ExpiresAt env)
     \<and> (\<forall>c \<in> set (elems (Env_Caps env)). ms_revokedIDs (bk_store b) (Cap_ID c) = None)
     \<and> (\<forall>i < length (elems (Env_Caps env)).
          \<not> Time_After (rd_now rd (Suc i)) (Cap_ExpiresAt (elems (Env_Caps env) ! i)))
     \<and> distinct (map cap_nonce (elems (Env_Caps env)))
     \<and> (\<forall>c \<in> set (elems (Env_Caps env)). ms_nonces (bk_store b) (hexEncodeNonce (Cap_Nonce c)) = None)"
proof (cases "sig_ok ed (bk_signerPub b) env")
  case True
  then show ?thesis
    using mem.verify_signed_iff [where b = b and env = env and rd = rd] assms
    by (auto simp: VerifyAttestation_sig_ok mem_revoked_def mem_consumed_def hexEncodeNonce_def
        domIff disjoint_iff)
next
  case False
  then show ?thesis using VerifyAttestation_sig_bad [OF False, of mem_ops rd] by auto
qed

theorem verify_accepts_iff_witness:
  "fst (VerifyAttestation any_ed mem_ops demo_reads demo_env (New NewMemStore demo_key [])) = Inr ()"
proof -
  have "\<forall>c \<in> set (elems (Env_Caps demo_env)). Cap_Nonce c \<noteq> None"
    by (simp add: demo_env_def demo_cap_def)
  then show ?thesis
    by (simp add: verify_accepts_iff New_def demo_env_sig_ok NewMemStore_def Time_After_def demo_reads_def)
      (simp add: demo_env_def demo_cap_def)
qed

text \<open>
  C7. A sigil that was revoked is refused by every later verification with a valid signature,
  whatever other calls reach the in-memory store in between: the answer is
  \<open>ErrSigilRevoked\<close>, no nonce is consumed and the denied counter is incremented.
\<close>

theorem revoked_sigil_denied:
  assumes "RevokeSigil mem_ops rd0 (Env_SigilID env) reason revokedBy b0 = (Inr (), b1)"
    and "store_steps mem_ops (bk_store b1) (bk_store b2)"
    and "sig_ok ed (bk_signerPub b2) env"
  shows "VerifyAttestation ed mem_ops rd env b2 =
     (Inl (Sentinel ErrSigilRevoked), b2\<lparr>bk_revocationDenied := bk_revocationDenied b2 + 1\<rparr>)"
proof -
  have "Env_SigilID env \<in> mem_revoked (bk_store b1)"
    using assms(1) by (auto simp: RevokeSigil_def Publish_def MemStore_defs mem_revoked_def Let_def)
  with mem.steps_keep [OF assms(2)] have "Env_SigilID env \<in> mem_revoked (bk_store b2)" by auto
  from mem.verify_revoked_sigil [OF _ this] show ?thesis
    by (simp add: VerifyAttestation_sig_ok [OF assms(3)] MemStore_IsRevoked_def)
qed

theorem revoked_sigil_denied_witness:
  "VerifyAttestation any_ed mem_ops demo_reads demo_env
     (snd (RevokeSigil mem_ops demo_reads ''s'' ''r'' ''op'' (New NewMemStore demo_key []))) =
   (Inl (Sentinel ErrSigilRevoked),
    (snd (RevokeSigil mem_ops demo_reads ''s'' ''r'' ''op'' (New NewMemStore demo_key [])))
      \<lparr>bk_revocationDenied := 1\<rparr>)"
proof -
  let ?r = "RevokeSigil mem_ops demo_reads (Env_SigilID demo_env) ''r'' ''op'' (New NewMemStore demo_key [])"
  have "?r = (Inr (), snd ?r)" "sig_ok any_ed (bk_signerPub (snd ?r)) demo_env"
    "bk_revocationDenied (snd ?r) = 0"
    by (simp_all add: RevokeSigil_def MemStore_Revoke_def Publish_def Let_def New_def demo_env_sig_ok)
  from revoked_sigil_denied [OF this(1) rtranclp.rtrancl_refl this(2), of demo_reads] this(3)
  show ?thesis by (simp add: demo_env_def)
qed

text \<open>
  C8. Over the pooled Postgres store, a capability token whose revocation was recorded makes
  every later verification of an envelope that carries it fail, as long as the database
  answers.
\<close>

theorem revoked_cap_denied:
  assumes "RevokeCap (pool_ops T) rd0 (Cap_ID c) reason revokedBy b0 = (Inr (), b1)"
    and "store_steps (pool_ops T) (bk_store b1) (bk_store b2)"
    and "pg_healthy (bk_store b2)" and "c \<in> set (elems (Env_Caps env))"
  shows "fst (VerifyAttestation ed (pool_ops T) rd env b2) \<noteq> Inr ()"
proof -
  let ?e = "\<lparr>Rev_ID = Cap_ID c, Rev_TargetType = ''cap'', Rev_Reason = reason,
    Rev_RevokedAt = Time_UTC (rd_now rd0 0), Rev_RevokedBy = revokedBy\<rparr>"
  have "st_Revoke (pool_ops T) ?e (bk_store b0) = (Inr (), bk_store b1)"
    using assms(1) by (auto simp: RevokeCap_def Let_def split: prod.splits)
  from pool.revoked_stays [OF this assms(2)] have "Cap_ID c \<in> pool_revoked T (bk_store b2)" by simp
  with assms(3,4) show ?thesis by (rule pool.verify_revoked_cap)
qed

theorem revoked_cap_denied_witness:
  "fst (VerifyAttestation any_ed (pool_ops demo_types) demo_reads demo_env
     (snd (RevokeCap (pool_ops demo_types) demo_reads ''c'' ''r'' ''s''
        (New (demo_pool NoFault []) demo_key [])))) \<noteq> Inr ()"
proof -
  let ?r = "RevokeCap (pool_ops demo_types) demo_reads (Cap_ID demo_cap) ''r'' ''s''
    (New (demo_pool NoFault []) demo_key [])"
  have "?r = (Inr (), snd ?r)" "pg_healthy (bk_store (snd ?r))"
    by (simp_all add: RevokeCap_def PGStore_Revoke_def pg_call_def Let_def New_def demo_pool_def
        demo_net_def hsql_revoke_def demo_types_def demo_row_def pg_healthy_def)
  moreover have "demo_cap \<in> set (elems (Env_Caps demo_env))" by (simp add: demo_env_def)
  ultimately show ?thesis
    using revoked_cap_denied [of demo_types demo_reads demo_cap "''r''" "''s''" _ "snd ?r" "snd ?r"]
    by (simp add: demo_cap_def)
qed

text \<open>
  C2. No nonce is accepted twice: over \<open>PgStore\<close>, whatever network faults occur and whatever
  calls other goroutines make between them, two accepted verifications share no nonce.
\<close>

theorem replay_denied:
  assumes "VerifyAttestation ed (pg_ops T) rd env b = (Inr u, b1)"
    and "store_steps (pg_ops T) (bk_store b1) (bk_store b2)"
    and "c \<in> set (elems (Env_Caps env))" and "c' \<in> set (elems (Env_Caps env'))"
    and "cap_nonce c = cap_nonce c'"
  shows "fst (VerifyAttestation ed' (pg_ops T) rd' env' b2) \<noteq> Inr v"
  using assms by (rule pg.verify_no_replay)

lemma demo_pg_accepts:
  "VerifyAttestation any_ed (pg_ops demo_types) demo_reads demo_env (New demo_pg demo_key priv) =
     (Inr (), (New demo_pg demo_key priv)\<lparr>bk_revocationAllowed := 1,
        bk_store := demo_pg\<lparr>tick := 3, db := (db demo_pg)\<lparr>t_nonces := [''n'']\<rparr>\<rparr>\<rparr>)"
proof -
  have sig: "sig_ok any_ed (bk_signerPub (New demo_pg demo_key priv)) demo_env"
    by (simp add: New_def demo_env_sig_ok)
  show ?thesis
    unfolding VerifyAttestation_sig_ok [OF sig]
    by (simp add: New_def verify_signed_def Let_def PgStore_IsRevoked_def demo_pg_def demo_env_def
        demo_cap_def verify_caps.simps PgStore_TryRecordNonce_def PgStore_RecordNonceStrict_def
        pg_call_def sql_insert_nonce_def sql_is_revoked_def demo_types_def demo_net_def
        demo_reads_def Time_After_def)
qed

theorem replay_denied_witness:
  "fst (VerifyAttestation any_ed (pg_ops demo_types) demo_reads demo_env
     (snd (VerifyAttestation any_ed (pg_ops demo_types) demo_reads demo_env (New demo_pg demo_key [])))) \<noteq> Inr ()"
proof -
  have "demo_cap \<in> set (elems (Env_Caps demo_env))" by (simp add: demo_env_def)
  from replay_denied [OF demo_pg_accepts rtranclp.rtrancl_refl this this refl]
  show ?thesis unfolding demo_pg_accepts by simp
qed

text \<open>
  What a verification changes of the broker besides the store: the allowed counter goes up by
  one exactly when it accepts, the denied counter exactly when it answers \<open>sigil_revoked\<close> or
  \<open>cap_revoked\<close>, modulo \<open>2 ^ 64\<close>; on every other outcome neither counter moves. Keys, metrics and
  published events stay.
\<close>

lemma verify_counters:
  "same_broker b (snd (VerifyAttestation ed ops rd env b))
   \<and> bk_revocationAllowed (snd (VerifyAttestation ed ops rd env b)) = bk_revocationAllowed b
        + (if fst (VerifyAttestation ed ops rd env b) = Inr () then 1 else 0)
   \<and> bk_revocationDenied (snd (VerifyAttestation ed ops rd env b)) = bk_revocationDenied b
        + (if fst (VerifyAttestation ed ops rd env b)
              \<in> {Inl (Sentinel ErrSigilRevoked), Inl (Sentinel ErrCapRevoked)} then 1 else 0)"
proof (cases "sig_ok ed (bk_signerPub b) env")
  case True
  obtain r b' where "verify_signed ops rd env b = (r, b')" by fastforce
  from verify_signed_frame [OF this] this True show ?thesis by (simp add: VerifyAttestation_sig_ok)
next
  case False
  then show ?thesis
    using VerifyAttestation_sig_bad [OF False, of ops rd] by (auto simp: same_broker_def)
qed

text \<open>
  C6. The life cycle of a token over the in-memory store: with a key pair for which signatures
  verify, a sigil, a token and an attestation that were issued are accepted by the first
  verification before they expire, when the ids are not revoked and the nonce is new, and the
  second verification of the same envelope is answered \<open>replay_attack\<close>.
\<close>

theorem issue_then_verify:
  assumes "IssueSigil mem_ops rd1 subject pubKey sexp meta b0 = (Inr s, b1)"
    and "IssueCap mem_ops rd2 (Sigil_ID s) scope cexp b1 = (Inr c, b2)"
    and "IssueAttestation ed rd3 (Sigil_ID s) (Some [c]) eexp b2 = Inr env"
    and "keys_match ed (bk_signerPub b0) (bk_signerPriv b0)"
    and "ms_revokedIDs (bk_store b0) (Sigil_ID s) = None" "ms_revokedIDs (bk_store b0) (Cap_ID c) = None"
    and "ms_nonces (bk_store b0) (hexEncodeNonce (Cap_Nonce c)) = None"
    and "\<not> Time_After (rd_now rd4 0) eexp" "\<not> Time_After (rd_now rd4 1) cexp"
    and "\<not> Time_After (rd_now rd5 0) eexp" "\<not> Time_After (rd_now rd5 1) cexp"
  shows "fst (VerifyAttestation ed mem_ops rd4 env b2) = Inr ()
     \<and> fst (VerifyAttestation ed mem_ops rd5 env (snd (VerifyAttestation ed mem_ops rd4 env b2)))
         = Inl (Sentinel ErrReplayAttack)"
proof -
  note m = IssueSigil_mem [OF assms(1)] IssueCap_mem [OF assms(2)]
  from assms(3) have env: "Env_SigilID env = Sigil_ID s" "Env_Caps env = Some [c]" "Env_ExpiresAt env = eexp"
    by (auto elim: IssueAttestationE)
  have ok: "sig_ok ed (bk_signerPub b2) env"
    using IssueAttestation_sig_ok [OF assms(3)] assms(4) m by simp
  have first: "VerifyAttestation ed mem_ops rd4 env b2 =
      (Inr (), b2\<lparr>bk_store := (bk_store b2)\<lparr>ms_nonces := (ms_nonces (bk_store b2))(hexEncodeNonce (Cap_Nonce c) \<mapsto> ())\<rparr>,
         bk_revocationAllowed := bk_revocationAllowed b2 + 1\<rparr>)"
    using assms(5-9) m env by (intro fresh_token_accepted [OF ok env(2)]) simp_all
  show ?thesis
    unfolding first using ok assms(5,6,10,11) m env
    by (auto intro!: used_token_refused [OF _ env(2)])
qed

theorem issue_then_verify_witness:
  "\<exists>s b1 c b2 env.
     IssueSigil mem_ops demo_reads ''x'' (Some demo_key) None None
       (New NewMemStore demo_key (replicate 64 (CHR 0x00))) = (Inr s, b1)
     \<and> IssueCap mem_ops demo_reads (Sigil_ID s) ''r'' (utc_time 10) b1 = (Inr c, b2)
     \<and> IssueAttestation echo_ed demo_reads (Sigil_ID s) (Some [c]) (utc_time 10) b2 = Inr env
     \<and> fst (VerifyAttestation echo_ed mem_ops demo_reads env b2) = Inr ()"
proof -
  let ?b0 = "New NewMemStore demo_key (replicate 64 (CHR 0x00))"
  obtain s b1 where 1: "IssueSigil mem_ops demo_reads ''x'' (Some demo_key) None None ?b0 = (Inr s, b1)"
    and s: "Sigil_ID s = ''u0''" "ms_sigils (bk_store b1) ''u0'' \<noteq> None" "bk_signerPriv b1 = bk_signerPriv ?b0"
    by (simp add: IssueSigil_def MemStore_SaveSigil_def Publish_def Let_def demo_reads_def New_def)
  define c where "c = \<lparr>Cap_ID = ''u0'', Cap_SigilID = ''u0'', Cap_Scope = ''r'', Cap_IssuedAt = utc_time 0,
      Cap_ExpiresAt = utc_time 10, Cap_Nonce = Some (replicate 16 (CHR ''n''))\<rparr>"
  obtain res b2 where r: "IssueCap mem_ops demo_reads (Sigil_ID s) ''r'' (utc_time 10) b1 = (res, b2)" by fastforce
  have "res = Inr c" and c: "bk_signerPriv b2 = bk_signerPriv ?b0"
    using r s by (auto simp: IssueCap_def MemStore_GetSigil_def MemStore_SaveCap_def GenerateNonce_def
        demo_reads_def Time_UTC_def Let_def c_def)
  note 2 = r [unfolded this(1)]
  have "caps_json (Some [c]) \<noteq> None" "length (bk_signerPriv b2) = 64"
    using c by (simp_all add: c_def caps_json_def CapabilityToken_json_def fmt_demo New_def)
  then obtain env where 3: "IssueAttestation echo_ed demo_reads (Sigil_ID s) (Some [c]) (utc_time 10) b2 = Inr env"
    using IssueAttestation_succeeds [of "Some [c]" demo_reads "utc_time 10" b2 echo_ed "Sigil_ID s"]
    by (auto simp: demo_reads_def Time_UTC_def fmt_demo)
  have "keys_match echo_ed (bk_signerPub ?b0) (bk_signerPriv ?b0)"
    by (simp add: keys_match_def echo_ed_def New_def)
  from issue_then_verify [OF 1 2 3 this, of demo_reads demo_reads] 1 2 3 show ?thesis
    by (auto simp: New_def NewMemStore_def demo_reads_def Time_After_def)
qed




text \<open>
  C35. The Postgres stores fail open: when the round trip of the revocation check is lost, the
  pooled store answers that the sigil is not revoked, and an envelope without tokens is
  accepted although its sigil is in the revocation table.
\<close>

theorem revocation_fails_open:
  assumes "sig_ok ed (bk_signerPub b) env" and "\<not> Time_After (rd_now rd 0) (Env_ExpiresAt env)"
    and "elems (Env_Caps env) = []"
    and "rnd_fault (net (bk_store b) (tick (bk_store b))) \<noteq> NoFault"
  shows "fst (VerifyAttestation ed (pool_ops T) rd env b) = Inr ()"
proof -
  have "\<not> fst (PGStore_IsRevoked T (Env_SigilID env) (bk_store b))"
    using assms(4) by (auto simp: PGStore_IsRevoked_def pg_call_def Let_def split: fault.splits)
  with assms show ?thesis
    by (cases "PGStore_IsRevoked T (Env_SigilID env) (bk_store b)")
      (auto simp: VerifyAttestation_sig_ok verify_signed_def Let_def)
qed

theorem revocation_fails_open_witness:
  "let p = demo_pool LostRequest [\<lparr>rr_id = ''row'', rr_target_type = ''sigil'', rr_target_id = ''s'',
         rr_reason = None, rr_revoked_at = utc_time 0, rr_revoked_by = ''s''\<rparr>];
       env = demo_env\<lparr>Env_Caps := None\<rparr>
   in Env_SigilID env \<in> pool_revoked demo_types p
      \<and> fst (VerifyAttestation any_ed (pool_ops demo_types) demo_reads env (New p demo_key [])) = Inr ()"
proof -
  let ?p = "demo_pool LostRequest [\<lparr>rr_id = ''row'', rr_target_type = ''sigil'', rr_target_id = ''s'',
         rr_reason = None, rr_revoked_at = utc_time 0, rr_revoked_by = ''s''\<rparr>]"
  let ?env = "demo_env\<lparr>Env_Caps := None\<rparr>"
  have "sig_ok any_ed (bk_signerPub (New ?p demo_key [])) ?env"
    using demo_sig_ok [OF demo_caps_json(2)] by (simp add: New_def)
  from revocation_fails_open [OF this, of demo_reads demo_types]
  have "fst (VerifyAttestation any_ed (pool_ops demo_types) demo_reads ?env (New ?p demo_key [])) = Inr ()"
    by (simp add: demo_reads_def Time_After_def demo_env_def New_def demo_pool_def demo_net_def)
  moreover have "Env_SigilID ?env \<in> pool_revoked demo_types ?p"
    by (simp add: pool_revoked_def demo_types_def demo_pool_def demo_env_def)
  ultimately show ?thesis by (simp add: Let_def)
qed

text \<open>
  In the pooled store the two ways of recording a nonce do not know of each other: a nonce
  that \<open>TryRecordNonce\<close> consumed is not reported by \<open>NonceUsed\<close> unless it was before.
\<close>

lemma pool_nonce_used_unaware:
  assumes "pg_healthy p"
  shows "fst (PGStore_NonceUsed m (snd (PGStore_TryRecordNonce n p))) = fst (PGStore_NonceUsed m p)"
proof -
  have "pg_healthy (snd (pg_call (hsql_insert_nonce n) p))" using assms by (rule pg_call_keeps_healthy)
  then show ?thesis
    by (simp add: PGStore_NonceUsed_def pg_call_healthy [OF assms] pg_call_healthy hsql_audit_nonce_def)
      (simp add: hsql_insert_nonce_def split: option.split)
qed

text \<open>
  C15. Every state of the in-memory store that calls can reach is consistent: the revocation
  index answers as a scan of the revocation list would, and sigils and tokens are stored under
  their own ids.
\<close>

theorem MemStore_consistent:
  assumes "store_steps mem_ops NewMemStore m"
  shows "MemStore_inv m \<and> fst (MemStore_IsRevoked i m) = (i \<in> Rev_ID ` set (fst (MemStore_RevocationList m)))"
  using MemStore_inv_steps [OF assms MemStore_inv_New]
  by (auto simp: MemStore_inv_def MemStore_IsRevoked_def MemStore_RevocationList_def)

theorem MemStore_consistent_witness:
  "let e = \<lparr>Rev_ID = ''x'', Rev_TargetType = ''cap'', Rev_Reason = [], Rev_RevokedAt = utc_time 0,
          Rev_RevokedBy = []\<rparr>
   in MemStore_inv (snd (MemStore_Revoke e NewMemStore)) \<and> fst (MemStore_IsRevoked ''x'' (snd (MemStore_Revoke e NewMemStore)))"
proof -
  let ?e = "\<lparr>Rev_ID = ''x'', Rev_TargetType = ''cap'', Rev_Reason = [], Rev_RevokedAt = utc_time 0, Rev_RevokedBy = []\<rparr>"
  have "store_steps mem_ops NewMemStore (snd (MemStore_Revoke ?e NewMemStore))"
    using step_Revoke [of mem_ops NewMemStore ?e] by (simp add: r_into_rtranclp)
  from MemStore_consistent [OF this, of "''x''"] show ?thesis
    by (simp add: Let_def MemStore_defs)
qed


section \<open>Concurrent verification\<close>

definition demo_env_of :: "string \<Rightarrow> AttestationEnvelope" where
  "demo_env_of n = demo_env\<lparr>Env_Caps := Some [demo_cap\<lparr>Cap_Nonce := Some n\<rparr>]\<rparr>"

definition demo_pg_after :: "nat \<Rightarrow> string list \<Rightarrow> PgStore" where
  "demo_pg_after k ns = demo_pg\<lparr>tick := k, db := (db demo_pg)\<lparr>t_nonces := ns\<rparr>\<rparr>"

lemma demo_env_of_sig_ok: "sig_ok any_ed demo_key (demo_env_of n)"
  unfolding demo_env_of_def
  by (rule demo_sig_ok) (simp add: caps_json_def CapabilityToken_json_def demo_cap_def fmt_demo)

lemma demo_signed:
  assumes "n \<notin> set ns"
  shows "verify_signed (pg_ops demo_types) demo_reads (demo_env_of n) (New (demo_pg_after k ns) demo_key []) =
     (Inr (), (New (demo_pg_after k ns) demo_key [])\<lparr>bk_revocationAllowed := 1,
        bk_store := demo_pg_after (k + 3) (ns @ [n])\<rparr>)"
  using assms
  by (simp add: New_def verify_signed_def Let_def PgStore_IsRevoked_def demo_pg_def demo_env_of_def
      demo_env_def demo_cap_def verify_caps.simps PgStore_TryRecordNonce_def demo_pg_after_def
      PgStore_RecordNonceStrict_def pg_call_def sql_insert_nonce_def sql_is_revoked_def
      demo_types_def demo_net_def demo_reads_def Time_After_def)

text \<open>
  C3. Interleaved verifications: over \<open>PgStore\<close>, in every run that interleaves the store calls of
  any number of verifiers with arbitrary other store calls and network faults, two different
  verifiers that accept have disjoint sets of nonces, and none accepts an envelope that repeats
  a nonce.
\<close>

theorem concurrent_accepts_disjoint:
  assumes "runs (pg_ops T) (s, \<lambda>i. start (envs i)) (s', ts)"
    and "vt_pc (ts i) = Finished (Inr ())" and "vt_pc (ts j) = Finished (Inr ())" and "i \<noteq> j"
  shows "distinct (map cap_nonce (elems (Env_Caps (envs i))))
     \<and> set (map cap_nonce (elems (Env_Caps (envs i))))
        \<inter> set (map cap_nonce (elems (Env_Caps (envs j)))) = {}"
proof -
  have "vt_env (ts k) = envs k" for k using runs_env [OF assms(1), of k] by (simp add: start_def)
  with pg.accepted_disjoint [OF assms] show ?thesis by simp
qed

theorem concurrent_accepts_disjoint_witness:
  "\<exists>s' ts. runs (pg_ops demo_types) (demo_pg_after 0 [], \<lambda>i. start (demo_env_of (if i = 0 then ''n'' else ''m''))) (s', ts)
     \<and> vt_pc (ts 0) = Finished (Inr ()) \<and> vt_pc (ts 1) = Finished (Inr ())
     \<and> set (map cap_nonce (elems (Env_Caps (demo_env_of ''n''))))
        \<inter> set (map cap_nonce (elems (Env_Caps (demo_env_of ''m'')))) = {}"
proof -
  let ?envs = "\<lambda>i. demo_env_of (if i = (0::nat) then ''n'' else ''m'')"
  let ?ts = "\<lambda>i. start (?envs i)"
  obtain t where 1: "runs (pg_ops demo_types) (demo_pg_after 0 [], ?ts) (demo_pg_after 3 [''n''], ?ts(0 := t))"
    "vt_pc t = Finished (Inr ())"
    using signed_runs [OF demo_signed [of "''n''" "[]" 0], of ?ts 0] by (auto simp: New_def)
  obtain u where 2: "runs (pg_ops demo_types) (demo_pg_after 3 [''n''], ?ts(0 := t))
      (demo_pg_after 6 [''n'', ''m''], (?ts(0 := t))(1 := u))" "vt_pc u = Finished (Inr ())"
    using signed_runs [OF demo_signed [of "''m''" "[''n'']" 3], of "?ts(0 := t)" 1] by (auto simp: New_def)
  have run: "runs (pg_ops demo_types) (demo_pg_after 0 [], ?ts)
      (demo_pg_after 6 [''n'', ''m''], (?ts(0 := t))(1 := u))"
    using 1(1) 2(1) by (rule rtranclp_trans)
  have "vt_pc (((?ts(0 := t))(1 := u)) 0) = Finished (Inr ())" "vt_pc (((?ts(0 := t))(1 := u)) 1) = Finished (Inr ())"
    using 1(2) 2(2) by simp_all
  with concurrent_accepts_disjoint [OF run this] run show ?thesis
    by (intro exI [of _ "demo_pg_after 6 [''n'', ''m'']"] exI [of _ "(?ts(0 := t))(1 := u)"]) simp
qed



section \<open>The running server\<close>

text \<open>
  C9. From the flags of the \<open>serve\<close> command to a verification: when the server was built over the
  in-memory store and answered 204 to a request to the admin endpoint, then that request carried the
  configured secret, and whatever requests are served afterwards, an envelope of the sigil it named
  with a valid signature is refused with \<open>ErrSigilRevoked\<close>.
\<close>

theorem served_revocation_holds:
  assumes "serve_build pe opts NewMemStore = Inr s0" and "loadBrokerKey pe = Inr (pub, priv)"
    and "ServeHTTP mem_ops J redirect rd r (serve_all mem_ops J redirect earlier s0) = (Some resp, s1)"
    and "rq_path r = ''/admin/revoke''" and "rp_status resp = 204"
    and "decode_revokeRequest (rq_body r) = Some q" and "Env_SigilID env = rv_SigilID q" and "sig_ok ed pub env"
  shows "pe_getenv pe ''HANKO_ADMIN_SECRET'' \<noteq> [] \<and> rq_header r ''X-Admin-Secret'' = pe_getenv pe ''HANKO_ADMIN_SECRET'' \<and>
    fst (VerifyAttestation ed mem_ops rd' env (srv_broker (serve_all mem_ops J redirect later s1)))
      = Inl (Sentinel ErrSigilRevoked)"
proof -
  let ?s = "serve_all mem_ops J redirect earlier s0" and ?t = "serve_all mem_ops J redirect later s1"
  have s0: "bk_signerPub (srv_broker s0) = pub" "hs_adminSecret (srv_http s0) = pe_getenv pe ''HANKO_ADMIN_SECRET''"
    "map_of (srv_mux s0) ''/admin/revoke'' = Some AdminRevoke"
    using serve_build_state [OF assms(1)] assms(2) by (metis Pair_inject sum.inject(2))+
  have s: "serves_from mem_ops s0 ?s" "serves_from mem_ops ?s s1" "serves_from mem_ops s1 ?t"
    using serve_all_serves ServeHTTP_serves [of mem_ops ?s J redirect rd r] assms(3) by (simp_all add: serve_all_serves)
  then have "map_of (srv_mux ?s) ''/admin/revoke'' = Some AdminRevoke" and hs: "srv_http ?s = srv_http s0"
    using s0(3) by (simp_all add: serves_from_def)
  from mux_admin [OF this(1), of "rq_method r"] assms(3,4)
  have admin: "requireAdminSecret (srv_http ?s) (handleAdminRevoke mem_ops (sr_admin rd)) r (srv_broker ?s) = (resp, srv_broker s1)"
    by (auto simp: ServeHTTP_def case_prod_beta)
  from admin_204 [OF admin assms(5)] assms(6)
  have rev: "RevokeSigil mem_ops (sr_admin rd) (Env_SigilID env) (rv_Reason q) (rv_RevokedBy q) (srv_broker ?s) = (Inr (), srv_broker s1)"
    and secret: "hs_adminSecret (srv_http ?s) \<noteq> []" "rq_header r ''X-Admin-Secret'' = hs_adminSecret (srv_http ?s)"
    unfolding assms(7) by auto
  have "Env_SigilID env \<in> mem_revoked (bk_store (srv_broker s1))"
    using RevokeSigil_mem_revokes rev by (metis domI mem_revoked_def snd_conv)
  moreover have "store_steps mem_ops (bk_store (srv_broker s1)) (bk_store (srv_broker ?t))"
    using s(3) by (simp add: serves_from_def broker_runs_def)
  ultimately have "Env_SigilID env \<in> mem_revoked (bk_store (srv_broker ?t))" using mem.steps_keep by blast
  moreover have "bk_signerPub (srv_broker ?t) = pub"
    using s s0(1) by (simp add: serves_from_def broker_runs_def)
  ultimately have "fst (VerifyAttestation ed mem_ops rd' env (srv_broker ?t)) = Inl (Sentinel ErrSigilRevoked)"
    using mem.verify_revoked_sigil VerifyAttestation_sig_ok assms(8) by (metis fst_conv)
  with secret hs s0(2) show ?thesis by simp
qed

definition demo_serve_env :: process_env where
  "demo_serve_env = \<lparr>pe_getenv = (\<lambda>v. if v = ''HANKO_ADMIN_SECRET'' then ''secret'' else if v = ''HANKO_BROKER_KEY_PATH'' then ''k'' else []),
     pe_home = None, pe_files = \<lparr>fs_data = [''k'' \<mapsto> hex_EncodeToString (demo_key @ demo_key)], fs_fault = (\<lambda>_. None)\<rparr>\<rparr>"

lemma demo_serve_key: "loadBrokerKey demo_serve_env = Inr (demo_key, demo_key @ demo_key)"
  by (simp add: loadBrokerKey_def brokerKeyPath_def os_ReadFile_def demo_serve_env_def)

lemma demo_serve_built: "\<exists>s. serve_build demo_serve_env (serve_defaults (\<lambda>_. [])) NewMemStore = Inr s"
  by (simp add: serve_build_def demo_serve_key NewHTTPServer_def New_def WithPublisher_def WithMetrics_def Let_def
      serve_oidc_def serve_defaults_def)

theorem served_revocation_holds_witness:
  "\<exists>s0 s1. serve_build demo_serve_env (serve_defaults (\<lambda>_. [])) NewMemStore = Inr s0
     \<and> ServeHTTP mem_ops demo_oidc_jwt (\<lambda>_. http_Error [] [] 301) demo_serve_reads demo_admin_request s0
         = (Some \<lparr>rp_status = 204, rp_headers = [], rp_body = []\<rparr>, s1)
     \<and> fst (VerifyAttestation any_ed mem_ops demo_reads demo_env (srv_broker s1)) = Inl (Sentinel ErrSigilRevoked)"
proof -
  let ?serve = "ServeHTTP mem_ops demo_oidc_jwt (\<lambda>_. http_Error [] [] 301) demo_serve_reads demo_admin_request"
  obtain s0 where s0: "serve_build demo_serve_env (serve_defaults (\<lambda>_. [])) NewMemStore = Inr s0"
    using demo_serve_built by blast
  then have h: "hs_adminSecret (srv_http s0) = ''secret''" "map_of (srv_mux s0) ''/admin/revoke'' = Some AdminRevoke"
    using serve_build_state [OF s0] by (auto simp: demo_serve_env_def)
  have path: "rq_path demo_admin_request = ''/admin/revoke''" by (simp add: demo_admin_request_def)
  have served: "?serve s0 = (Some \<lparr>rp_status = 204, rp_headers = [], rp_body = []\<rparr>, snd (?serve s0))"
    by (simp add: ServeHTTP_def path mux_admin [OF h(2)] demo_admin_served [OF h(1)])
  have "serve_all mem_ops demo_oidc_jwt (\<lambda>_. http_Error [] [] 301) [] x = x" for x by (simp add: serve_all_def)
  note none = this
  have "Env_SigilID demo_env = ''s''" by (simp add: demo_env_def)
  then have "fst (VerifyAttestation any_ed mem_ops demo_reads demo_env (srv_broker (snd (?serve s0)))) = Inl (Sentinel ErrSigilRevoked)"
    using served_revocation_holds [OF s0 demo_serve_key, of demo_oidc_jwt "\<lambda>_. http_Error [] [] 301" demo_serve_reads
        demo_admin_request "[]" _ "snd (?serve s0)" _ demo_env any_ed demo_reads "[]", unfolded none,
        OF served path _ demo_admin_decodes _ demo_env_sig_ok] by simp
  with s0 served show ?thesis by blast
qed

section \<open>Across processes\<close>

text \<open>What the \<open>verify\<close> command that exits with 0 did over Postgres.\<close>

lemma runVerify_pg_accepts:
  assumes "verify_input w args = Inr input" "Unmarshal_AttestationEnvelope input = Some env"
    and "openStore w flag = Inr (OpenPg p)" and "px_code (fst (runVerify w args flag)) = 0"
  shows "\<exists>pub priv b'. VerifyAttestation (cw_ed w) (pg_ops (cw_types w)) (cw_reads w 0) env (New p pub priv) = (Inr (), b')
     \<and> snd (runVerify w args flag) = Some (bk_store b')"
proof (cases "loadBrokerKey (cw_env w)")
  case (Inl msg)
  with assms show ?thesis by (simp add: runVerify_def with_store_def with_broker_def exit_die_def)
next
  case (Inr k)
  obtain pub priv where k: "k = (pub, priv)" by (cases k)
  obtain x b' where x: "cmd_verify (pg_ops (cw_types w)) (cw_ed w) (cw_reads w 0) env (New p pub priv) = (x, b')" by fastforce
  have r: "runVerify w args flag = (x, Some (bk_store b'))"
    using assms(1-3) by (simp add: runVerify_def with_store_def with_broker_def Inr k x)
  have "fst (VerifyAttestation (cw_ed w) (pg_ops (cw_types w)) (cw_reads w 0) env (New p pub priv)) = Inr ()"
    using cmd_verify_exit [of "pg_ops (cw_types w)" "cw_ed w" "cw_reads w 0" env "New p pub priv"] assms(4) x r by simp
  with x have "VerifyAttestation (cw_ed w) (pg_ops (cw_types w)) (cw_reads w 0) env (New p pub priv) = (Inr (), b')"
    by (auto simp: cmd_verify_def split: prod.splits sum.splits)
  with r show ?thesis by auto
qed

text \<open>
  C12. Replay protection outlives the process. When one process of \<open>verify\<close> over Postgres exits with 0, no later
  process does for an envelope that shares a nonce with the first one, whatever other clients of the
  database do in between, and whatever the files, flags, keys and clocks of the two processes are.
\<close>

theorem replay_across_processes:
  assumes "verify_input w args = Inr input" "Unmarshal_AttestationEnvelope input = Some env"
    and "verify_input w' args' = Inr input'" "Unmarshal_AttestationEnvelope input' = Some env'"
    and "openStore w flag = Inr (OpenPg p)" "openStore w' flag' = Inr (OpenPg q)"
    and "runVerify w args flag = (x, Some p1)" "px_code x = 0"
    and "store_steps (pg_ops T) p1 p2" "db q = db p2"
    and "c \<in> set (elems (Env_Caps env))" "c' \<in> set (elems (Env_Caps env'))" "cap_nonce c = cap_nonce c'"
  shows "px_code (fst (runVerify w' args' flag')) \<noteq> 0"
proof
  assume second: "px_code (fst (runVerify w' args' flag')) = 0"
  obtain pub priv b where v: "VerifyAttestation (cw_ed w) (pg_ops (cw_types w)) (cw_reads w 0) env (New p pub priv) = (Inr (), b)"
    and b: "bk_store b = p1"
    using runVerify_pg_accepts [OF assms(1,2,5)] assms(7,8) by auto
  have "cap_nonce c \<in> pg_consumed p1"
    using pg.verify_signed_accept [OF conjunct2 [OF VerifyAttestation_InrD [OF v]]] assms(11) b by auto
  then have "cap_nonce c \<in> pg_consumed q"
    using pg.steps_keep [OF assms(9)] assms(10) by (auto simp: pg_consumed_def)
  moreover obtain pub' priv' b' where v': "VerifyAttestation (cw_ed w') (pg_ops (cw_types w')) (cw_reads w' 0) env' (New q pub' priv') = (Inr (), b')"
    using runVerify_pg_accepts [OF assms(3,4,6) second] by auto
  have "cap_nonce c' \<notin> pg_consumed q"
    using pg.verify_signed_accept [OF conjunct2 [OF VerifyAttestation_InrD [OF v']]] assms(12) by (auto simp: New_def)
  ultimately show False using assms(13) by simp
qed

definition demo_pg_cli :: "bytes \<Rightarrow> PgStore \<Rightarrow> cli_world" where
  "demo_pg_cli input p = (demo_cli (Inr input))\<lparr>cw_env := demo_serve_env\<lparr>pe_getenv :=
        (\<lambda>v. if v = ''HANKO_PG_DSN'' then ''dsn'' else if v = ''HANKO_BROKER_KEY_PATH'' then ''k'' else [])\<rparr>,
     cw_pool_new := (\<lambda>_. Inr p), cw_types := demo_types, cw_ed := any_ed, cw_reads := (\<lambda>_. demo_reads)\<rparr>"

lemma demo_pg_cli_facts:
  "verify_input (demo_pg_cli input p) [] = Inr input"
  "openStore (demo_pg_cli input p) [] = Inr (OpenPg p)"
  "loadBrokerKey (cw_env (demo_pg_cli input p)) = Inr (demo_key, demo_key @ demo_key)"
  by (simp_all add: verify_input_def openStore_def NewPgStore_def loadBrokerKey_def brokerKeyPath_def os_ReadFile_def
      demo_pg_cli_def demo_cli_def demo_serve_env_def)

theorem replay_across_processes_witness:
  "\<exists>v x p1. AttestationEnvelope_json demo_env = Some v
     \<and> runVerify (demo_pg_cli (json_Marshal v) demo_pg) [] [] = (x, Some p1) \<and> px_code x = 0
     \<and> px_code (fst (runVerify (demo_pg_cli (json_Marshal v) p1) [] [])) \<noteq> 0"
proof -
  have "AttestationEnvelope_json demo_env \<noteq> None" "env_exact demo_env" by code_simp+
  then obtain v where v: "AttestationEnvelope_json demo_env = Some v"
    and dec: "Unmarshal_AttestationEnvelope (json_Marshal v) = Some demo_env"
    using Unmarshal_encoded [of demo_env] by blast
  let ?w = "demo_pg_cli (json_Marshal v)"
  define p1 where "p1 = demo_pg\<lparr>tick := 3, db := (db demo_pg)\<lparr>t_nonces := [''n'']\<rparr>\<rparr>"
  have "cw_types (?w p) = demo_types" "cw_ed (?w p) = any_ed" "cw_reads (?w p) k = demo_reads" for p k
    by (simp_all add: demo_pg_cli_def)
  note w = this
  have first: "runVerify (?w demo_pg) [] [] = (exit_ok (''OK'' @ nl), Some p1)"
    by (simp add: runVerify_def demo_pg_cli_facts dec with_store_def with_broker_def w cmd_verify_def demo_pg_accepts p1_def)
  have cap: "demo_cap \<in> set (elems (Env_Caps demo_env))" by (simp add: demo_env_def)
  have "px_code (fst (runVerify (?w p1) [] [])) \<noteq> 0"
    using replay_across_processes [OF demo_pg_cli_facts(1) dec demo_pg_cli_facts(1) dec demo_pg_cli_facts(2) demo_pg_cli_facts(2)
        first _ rtranclp.rtrancl_refl refl cap cap refl] by (simp add: exit_ok_def)
  with v first show ?thesis by (auto simp: exit_ok_def)
qed

end
